(* ===== verification/Prelude.thy ===== *)
theory Prelude
  imports Main
begin

text \<open>
  Shared vocabulary of the development: Go's fixed-width signed integers with their
  wrap-around, the parts of the packages strconv, strings and bytes that the gateway calls,
  and the lemma collections the component theories use.

  Strings are lists of bytes. \<open>to_lower\<close> and \<open>trim_space\<close> act on the ASCII letters and on the
  ASCII white space; a byte above 127 is left alone, so for non-ASCII text they agree with
  Go's functions only where those leave the text unchanged.
\<close>

named_theorems int_width "facts on the signed 32 and 64 bit ranges"
named_theorems str_conv "conversions between integers and decimal text"

section \<open>Signed machine integers\<close>

text \<open>A day in nanoseconds.\<close>

abbreviation day_ns :: int where
  "day_ns \<equiv> 86400 * 10 ^ 9"

definition in_i64 :: "int \<Rightarrow> bool" where
  "in_i64 x \<longleftrightarrow> - (2 ^ 63) \<le> x \<and> x < 2 ^ 63"

definition wrap64 :: "int \<Rightarrow> int" where
  "wrap64 x = (x + 2 ^ 63) mod 2 ^ 64 - 2 ^ 63"

definition in_i32 :: "int \<Rightarrow> bool" where
  "in_i32 x \<longleftrightarrow> - (2 ^ 31) \<le> x \<and> x < 2 ^ 31"

definition wrap32 :: "int \<Rightarrow> int" where
  "wrap32 x = (x + 2 ^ 31) mod 2 ^ 32 - 2 ^ 31"

text \<open>Go's integer division truncates towards zero.\<close>

definition quot :: "int \<Rightarrow> int \<Rightarrow> int" where
  "quot a b = sgn a * sgn b * (\<bar>a\<bar> div \<bar>b\<bar>)"

lemma wrap64_id [simp, int_width]: "in_i64 x \<Longrightarrow> wrap64 x = x"
  by (simp add: in_i64_def wrap64_def)

lemma wrap64_range [int_width]: "in_i64 (wrap64 x)"
proof -
  have "0 \<le> (x + 2 ^ 63) mod 2 ^ 64" by (rule pos_mod_sign) simp
  moreover have "(x + 2 ^ 63) mod 2 ^ 64 < 2 ^ 64" by (rule pos_mod_bound) simp
  ultimately show ?thesis by (simp add: in_i64_def wrap64_def)
qed

lemma wrap32_id [simp, int_width]: "in_i32 x \<Longrightarrow> wrap32 x = x"
  by (simp add: in_i32_def wrap32_def)

lemma quot_nonneg [simp]: "0 \<le> a \<Longrightarrow> 0 < b \<Longrightarrow> quot a b = a div b"
  by (cases "a = 0") (simp_all add: quot_def)

section \<open>Decimal text\<close>

definition digit_char :: "nat \<Rightarrow> char" where
  "digit_char d = ''0123456789'' ! (d mod 10)"

definition digit_val :: "char \<Rightarrow> nat option" where
  "digit_val c = map_of (zip ''0123456789'' [0, 1, 2, 3, 4, 5, 6, 7, 8, 9]) c"

fun show_nat :: "nat \<Rightarrow> string" where
  "show_nat n = (if n < 10 then [digit_char n] else show_nat (n div 10) @ [digit_char n])"

declare show_nat.simps [simp del]

text \<open>The text that \<open>fmt.Sprintf("%d", n)\<close> and \<open>strconv.FormatInt(n, 10)\<close> give.\<close>

definition show_int :: "int \<Rightarrow> string" where
  "show_int n = (if n < 0 then CHR ''-'' # show_nat (nat (- n)) else show_nat (nat n))"

fun read_digits :: "nat \<Rightarrow> string \<Rightarrow> nat option" where
  "read_digits acc [] = Some acc"
| "read_digits acc (c # cs) =
     (case digit_val c of None \<Rightarrow> None | Some d \<Rightarrow> read_digits (10 * acc + d) cs)"

definition read_nat :: "string \<Rightarrow> nat option" where
  "read_nat s = (if s = [] then None else read_digits 0 s)"

definition read_int :: "string \<Rightarrow> int option" where
  "read_int s = (case s of
      [] \<Rightarrow> None
    | c # cs \<Rightarrow>
        if c = CHR ''-'' then map_option (\<lambda>n. - int n) (read_nat cs)
        else if c = CHR ''+'' then map_option int (read_nat cs)
        else map_option int (read_nat s))"

text \<open>\<open>strconv.ParseInt(s, 10, bits)\<close>: a syntax error or a value out of range is \<open>None\<close>.\<close>

definition parse_int :: "nat \<Rightarrow> string \<Rightarrow> int option" where
  "parse_int bits s = (case read_int s of
      None \<Rightarrow> None
    | Some n \<Rightarrow> if - (2 ^ (bits - 1)) \<le> n \<and> n < 2 ^ (bits - 1) then Some n else None)"

lemma digit_val_char [simp]: "d < 10 \<Longrightarrow> digit_val (digit_char d) = Some d"
proof -
  assume "d < 10"
  then have "d \<in> {0, 1, 2, 3, 4, 5, 6, 7, 8, 9}" by auto
  then show ?thesis by (auto simp: digit_val_def digit_char_def)
qed

lemma digit_char_mod [simp]: "digit_val (digit_char n) = Some (n mod 10)"
  using digit_val_char [of "n mod 10"] by (simp add: digit_char_def)

lemma digit_char_not_sign [simp]:
  "digit_char n \<noteq> CHR ''-''" "digit_char n \<noteq> CHR ''+''"
proof -
  have "digit_char d \<noteq> CHR ''-'' \<and> digit_char d \<noteq> CHR ''+''" if "d < 10" for d
  proof -
    from that have "d \<in> {0, 1, 2, 3, 4, 5, 6, 7, 8, 9}" by auto
    then show ?thesis by (auto simp: digit_char_def)
  qed
  from this [of "n mod 10"] show "digit_char n \<noteq> CHR ''-''" "digit_char n \<noteq> CHR ''+''"
    by (simp_all add: digit_char_def)
qed

lemma show_nat_nonempty [simp]: "show_nat n \<noteq> []"
  by (subst show_nat.simps) simp

lemma read_digits_append:
  "read_digits acc (xs @ ys) =
     (case read_digits acc xs of None \<Rightarrow> None | Some a \<Rightarrow> read_digits a ys)"
  by (induction acc xs rule: read_digits.induct) (auto split: option.splits)

lemma read_digits_show [str_conv]: "read_digits 0 (show_nat n) = Some n"
proof (induction n rule: show_nat.induct)
  case (1 n)
  show ?case
  proof (cases "n < 10")
    case True
    then show ?thesis by (subst show_nat.simps) simp
  next
    case False
    have "read_digits 0 (show_nat n) = Some (10 * (n div 10) + n mod 10)"
      using 1 False by (subst show_nat.simps) (simp add: read_digits_append)
    then show ?thesis by simp
  qed
qed

lemma read_nat_show [simp, str_conv]: "read_nat (show_nat n) = Some n"
  by (simp add: read_nat_def read_digits_show)

lemma show_nat_hd:
  "\<exists>d ds. show_nat n = digit_char d # ds"
proof (induction n rule: show_nat.induct)
  case (1 n)
  show ?case
  proof (cases "n < 10")
    case True
    then show ?thesis by (subst show_nat.simps) auto
  next
    case False
    with 1 obtain d ds where "show_nat (n div 10) = digit_char d # ds" by blast
    with False have "show_nat n = digit_char d # (ds @ [digit_char n])"
      by (subst show_nat.simps) simp
    then show ?thesis by blast
  qed
qed

lemma read_int_show [simp, str_conv]: "read_int (show_int n) = Some n"
proof -
  obtain d ds where hd: "show_nat (nat n) = digit_char d # ds"
    using show_nat_hd by blast
  then have r: "read_nat (digit_char d # ds) = Some (nat n)"
    using read_nat_show [of "nat n"] by simp
  show ?thesis
  proof (cases "n < 0")
    case True
    then show ?thesis by (simp add: show_int_def read_int_def)
  next
    case False
    with hd r show ?thesis by (simp add: show_int_def read_int_def)
  qed
qed

lemma parse_int_show [simp, str_conv]: "in_i64 n \<Longrightarrow> parse_int 64 (show_int n) = Some n"
  by (simp add: parse_int_def in_i64_def)

lemma show_int_inject [simp]: "show_int m = show_int n \<longleftrightarrow> m = n"
  by (metis option.inject read_int_show)

lemma show_int_nonempty [simp]: "show_int n \<noteq> []"
  by (simp add: show_int_def)

section \<open>Text\<close>

definition is_space :: "char \<Rightarrow> bool" where
  "is_space c \<longleftrightarrow> c \<in> {CHR '' '', CHR 0x09, CHR 0x0A, CHR 0x0B, CHR 0x0C, CHR 0x0D}"

definition trim_space :: "string \<Rightarrow> string" where
  "trim_space s = rev (dropWhile is_space (rev (dropWhile is_space s)))"

definition lower_char :: "char \<Rightarrow> char" where
  "lower_char c = (let n = (of_char c :: nat) in
     if 65 \<le> n \<and> n \<le> 90 then char_of (n + 32) else c)"

definition to_lower :: "string \<Rightarrow> string" where
  "to_lower s = map lower_char s"

definition has_prefix :: "string \<Rightarrow> string \<Rightarrow> bool" where
  "has_prefix s p \<longleftrightarrow> take (length p) s = p"

definition has_suffix :: "string \<Rightarrow> string \<Rightarrow> bool" where
  "has_suffix s p \<longleftrightarrow> length p \<le> length s \<and> drop (length s - length p) s = p"

definition trim_prefix :: "string \<Rightarrow> string \<Rightarrow> string" where
  "trim_prefix s p = (if has_prefix s p then drop (length p) s else s)"

definition trim_suffix :: "string \<Rightarrow> string \<Rightarrow> string" where
  "trim_suffix s p = (if has_suffix s p then take (length s - length p) s else s)"

text \<open>\<open>strings.Fields\<close>: the maximal runs without white space.\<close>

fun words_acc :: "string \<Rightarrow> string \<Rightarrow> string list" where
  "words_acc acc [] = (if acc = [] then [] else [rev acc])"
| "words_acc acc (c # cs) =
     (if is_space c then (if acc = [] then words_acc [] cs else rev acc # words_acc [] cs)
      else words_acc (c # acc) cs)"

definition text_words :: "string \<Rightarrow> string list" where
  "text_words s = words_acc [] s"

text \<open>\<open>strings.Split\<close> and \<open>bytes.Split\<close> at a separator of one byte.\<close>

fun split_acc :: "char \<Rightarrow> string \<Rightarrow> string \<Rightarrow> string list" where
  "split_acc sep acc [] = [rev acc]"
| "split_acc sep acc (c # cs) =
     (if c = sep then rev acc # split_acc sep [] cs else split_acc sep (c # acc) cs)"

definition split_on :: "char \<Rightarrow> string \<Rightarrow> string list" where
  "split_on sep s = split_acc sep [] s"

text \<open>Contains, for \<open>strings.Contains\<close>; the position of a byte, for \<open>strings.Index\<close>.\<close>

fun contains :: "string \<Rightarrow> string \<Rightarrow> bool" where
  "contains [] p = (p = [])"
| "contains (c # cs) p = (has_prefix (c # cs) p \<or> contains cs p)"

fun index_of :: "char \<Rightarrow> string \<Rightarrow> nat option" where
  "index_of x [] = None"
| "index_of x (c # cs) = (if c = x then Some 0 else map_option Suc (index_of x cs))"

lemma has_prefix_refl [simp]: "has_prefix s s"
  by (simp add: has_prefix_def)

lemma has_prefix_append [simp]: "has_prefix (p @ s) p"
  by (simp add: has_prefix_def)

lemma has_suffix_append [simp]: "has_suffix (s @ p) p"
  by (simp add: has_suffix_def)

lemma has_prefix_split: "has_prefix s p \<Longrightarrow> s = p @ drop (length p) s"
  by (metis append_take_drop_id has_prefix_def)

lemma trim_prefix_append [simp]: "trim_prefix (p @ s) p = s"
  by (simp add: trim_prefix_def)

lemma split_acc_append_sep:
  "sep \<notin> set xs \<Longrightarrow> split_acc sep acc (xs @ sep # ys) = (rev acc @ xs) # split_acc sep [] ys"
  by (induction xs arbitrary: acc) auto

lemma split_acc_append:
  "split_acc sep acc (xs @ sep # ys) = split_acc sep acc xs @ split_acc sep [] ys"
  by (induction xs arbitrary: acc) auto

lemma split_acc_no_sep: "sep \<notin> set xs \<Longrightarrow> split_acc sep acc xs = [rev acc @ xs]"
  by (induction xs arbitrary: acc) auto

end
