(* ===== verification/Calendar.thy ===== *)
theory Calendar
  imports Prelude
begin

text \<open>
  What the program uses of Go's package time: the UTC date of an instant (seconds since 1970),
  \<open>time.Date\<close> and \<open>AddDate\<close>, which normalise a day or a month that is out of range into the
  following ones, and the layouts 2006-01-02 and 20060102. Instants before 1970 do not occur.
\<close>

type_synonym date = "int \<times> int \<times> int"

definition leap_year :: "int \<Rightarrow> bool" where
  "leap_year y \<longleftrightarrow> y mod 4 = 0 \<and> (y mod 100 \<noteq> 0 \<or> y mod 400 = 0)"

definition days_in :: "int \<Rightarrow> int \<Rightarrow> int" where
  "days_in y m = (if m = 2 then (if leap_year y then 29 else 28)
     else if m = 4 \<or> m = 6 \<or> m = 9 \<or> m = 11 then 30 else 31)"

lemma days_in_bounds: "28 \<le> days_in y m" "days_in y m \<le> 31"
  by (auto simp: days_in_def)

text \<open>Months in one count, so that the one after December is January of the next year.\<close>

definition month_at :: "int \<Rightarrow> int \<times> int" where
  "month_at k = (k div 12, k mod 12 + 1)"

definition month_no :: "int \<Rightarrow> int \<Rightarrow> int" where
  "month_no y m = 12 * y + (m - 1)"

lemma month_at_no [simp]: "1 \<le> m \<Longrightarrow> m \<le> 12 \<Longrightarrow> month_at (month_no y m) = (y, m)"
  by (auto simp: month_at_def month_no_def)

lemma month_no_at [simp]: "month_no (fst (month_at k)) (snd (month_at k)) = k"
  by (simp add: month_at_def month_no_def)

definition month_days :: "int \<Rightarrow> int" where
  "month_days k = (case month_at k of (y, m) \<Rightarrow> days_in y m)"

lemma month_days_bounds: "28 \<le> month_days k" "month_days k \<le> 31"
  by (simp_all add: month_days_def days_in_bounds split: prod.splits)

text \<open>The date \<open>r\<close> days after the first of the month number \<open>k\<close>.\<close>

function days_after :: "int \<Rightarrow> int \<Rightarrow> date" where
  "days_after k r =
     (if r < month_days k then (case month_at k of (y, m) \<Rightarrow> (y, m, r + 1))
      else days_after (k + 1) (r - month_days k))"
  by auto
termination
proof (relation "measure (\<lambda>(k, r). nat r)")
  show "((k + 1, r - month_days k), k, r) \<in> measure (\<lambda>(k, r). nat r)" if "\<not> r < month_days k" for k r
    using that month_days_bounds(1) [of k] by auto
qed simp

declare days_after.simps [simp del]

lemma days_after_here:
  "r < month_days k \<Longrightarrow> days_after k r = (fst (month_at k), snd (month_at k), r + 1)"
  by (simp add: days_after.simps split: prod.splits)

definition go_date :: "int \<Rightarrow> int \<Rightarrow> int \<Rightarrow> date" where
  "go_date y m d = days_after (month_no y m) (d - 1)"

definition add_months :: "int \<Rightarrow> date \<Rightarrow> date" where
  "add_months i t = (case t of (y, m, d) \<Rightarrow> go_date y (m + i) d)"

definition utc_date :: "int \<Rightarrow> date" where
  "utc_date now = days_after (month_no 1970 1) (now div day_ns)"

definition pad :: "nat \<Rightarrow> int \<Rightarrow> string" where
  "pad n i = (let s = show_int i in replicate (n - length s) (CHR ''0'') @ s)"

definition format_compact :: "date \<Rightarrow> string" where
  "format_compact t = (case t of (y, m, d) \<Rightarrow> pad 4 y @ pad 2 m @ pad 2 d)"

definition format_dashed :: "date \<Rightarrow> string" where
  "format_dashed t = (case t of (y, m, d) \<Rightarrow> pad 4 y @ ''-'' @ pad 2 m @ ''-'' @ pad 2 d)"

text \<open>The first of a month is itself; a day that the month has stays in it.\<close>

lemma go_date_first [simp]: "go_date y m 1 = (case month_at (month_no y m) of (y', m') \<Rightarrow> (y', m', 1))"
  using month_days_bounds(1) [of "month_no y m"]
  by (simp add: go_date_def days_after.simps)

lemma month_no_plus: "month_no y (m + i) = month_no y m + i"
  by (simp add: month_no_def)

text \<open>Adding months lands in the month meant, or in the one after it when the day does not exist.\<close>

lemma add_months_month:
  assumes "1 \<le> d" "d \<le> 31" and "k = month_no y m + i"
  shows "add_months i (y, m, d) =
    (if d \<le> month_days k then (fst (month_at k), snd (month_at k), d)
     else (fst (month_at (k + 1)), snd (month_at (k + 1)), d - month_days k))"
proof -
  have e: "add_months i (y, m, d) = days_after k (d - 1)"
    by (simp add: add_months_def go_date_def month_no_plus assms(3))
  show ?thesis
  proof (cases "d \<le> month_days k")
    case True
    then show ?thesis unfolding e by (subst days_after.simps) (auto split: prod.splits)
  next
    case False
    have "d - 1 - month_days k < month_days (k + 1)"
      using assms(2) month_days_bounds(1) [of k] month_days_bounds(1) [of "k + 1"] by linarith
    with False show ?thesis
      unfolding e by (subst days_after.simps, subst days_after.simps) (auto split: prod.splits)
  qed
qed

end
