(* ===== verification/Partition.thy ===== *)
theory Partition
  imports Calendar
begin

text \<open>
  internal/billing/partition.go: the monthly partitions of billing_logs, created at start and by a
  daily job for the current month and some months ahead. The state is the list of partitions
  with their ranges; \<open>ok\<close> lists the outcome of each CREATE TABLE in turn (true when it is empty).
  The change of a partition's owner only logs its failure and is left out.
\<close>

record partition =
  pt_name :: string
  pt_from :: date
  pt_to :: date

definition ensurePartitionsMonthsAhead :: nat where
  "ensurePartitionsMonthsAhead = 6"

definition partition_for :: "date \<Rightarrow> nat \<Rightarrow> partition" where
  "partition_for now i =
     (case add_months (int i) now of (year, month, _) \<Rightarrow>
        let start = go_date year month 1
        in \<lparr>pt_name = ''billing_logs_'' @ pad 4 year @ ''_'' @ pad 2 month,
            pt_from = start, pt_to = add_months 1 start\<rparr>)"

text \<open>CREATE TABLE IF NOT EXISTS.\<close>

definition create_partition :: "partition \<Rightarrow> partition list \<Rightarrow> partition list" where
  "create_partition p ps = (if pt_name p \<in> pt_name ` set ps then ps else ps @ [p])"

fun ensure_partitions :: "date \<Rightarrow> nat list \<Rightarrow> bool list \<Rightarrow> partition list \<Rightarrow> bool \<times> partition list" where
  "ensure_partitions now [] ok ps = (True, ps)"
| "ensure_partitions now (i # ns) ok ps =
     (if ok \<noteq> [] \<and> \<not> hd ok then (False, ps)
      else ensure_partitions now ns (tl ok) (create_partition (partition_for now i) ps))"

definition ensureBillingLogPartitions ::
  "bool \<Rightarrow> int \<Rightarrow> nat \<Rightarrow> bool list \<Rightarrow> partition list \<Rightarrow> bool \<times> partition list" where
  "ensureBillingLogPartitions pool now monthsAhead ok ps =
     (if \<not> pool then (False, ps)
      else ensure_partitions (utc_date now) [0..<monthsAhead + 1] ok ps)"

section \<open>Which months are covered\<close>

definition month_start :: "int \<Rightarrow> date" where
  "month_start k = (fst (month_at k), snd (month_at k), 1)"

definition month_partition :: "int \<Rightarrow> partition" where
  "month_partition k =
     \<lparr>pt_name = ''billing_logs_'' @ pad 4 (fst (month_at k)) @ ''_'' @ pad 2 (snd (month_at k)),
      pt_from = month_start k, pt_to = month_start (k + 1)\<rparr>"

lemma month_at_range: "month_at k = (y, m) \<Longrightarrow> 1 \<le> m \<and> m \<le> 12 \<and> month_no y m = k"
  using month_no_at [of k] by (auto simp: month_at_def)

lemma partition_for_eq:
  assumes "1 \<le> d" "d \<le> 31" and "k = month_no y m + int i"
  shows "partition_for (y, m, d) i = month_partition (if d \<le> month_days k then k else k + 1)"
proof -
  let ?j = "if d \<le> month_days k then k else k + 1"
  obtain y' m' where j: "month_at ?j = (y', m')" by fastforce
  obtain d' where a: "add_months (int i) (y, m, d) = (y', m', d')"
    using add_months_month [OF assms] j by (auto split: if_splits)
  have n: "month_no y' m' = ?j" "month_at (month_no y' m') = (y', m')"
    using month_at_range [OF j] month_at_no [of m' y'] by blast+
  have "add_months 1 (y', m', 1) = month_start (?j + 1)"
    using add_months_month [of 1 "?j + 1" y' m' 1] n(1) month_days_bounds(1) [of "?j + 1"]
    by (simp add: month_start_def)
  then show ?thesis
    using a n j by (simp add: partition_for_def month_partition_def Let_def month_start_def)
qed

lemma create_partition_set:
  "set (create_partition p ps) \<subseteq> insert p (set ps)" "set ps \<subseteq> set (create_partition p ps)"
  "pt_name p \<in> pt_name ` set (create_partition p ps)"
  by (auto simp: create_partition_def)

lemma ensure_partitions_sub:
  "set (snd (ensure_partitions now ns ok ps)) \<subseteq> set ps \<union> partition_for now ` set ns"
proof (induction ns arbitrary: ok ps)
  case (Cons i ns)
  let ?ps = "create_partition (partition_for now i) ps"
  have "set (snd (ensure_partitions now ns (tl ok) ?ps)) \<subseteq> insert (partition_for now i) (set ps) \<union> partition_for now ` set ns"
    using Cons [of "tl ok" ?ps] create_partition_set(1) [of "partition_for now i" ps] by blast
  then show ?case by auto
qed simp

lemma ensure_partitions_names:
  "fst (ensure_partitions now ns ok ps) \<Longrightarrow> pt_name ` set ps \<union> (pt_name \<circ> partition_for now) ` set ns
    \<subseteq> pt_name ` set (snd (ensure_partitions now ns ok ps))"
proof (induction ns arbitrary: ok ps)
  case (Cons i ns)
  let ?p = "partition_for now i"
  let ?ps = "create_partition ?p ps"
  have e: "ensure_partitions now (i # ns) ok ps = ensure_partitions now ns (tl ok) ?ps"
    using Cons.prems by (cases "ok \<noteq> [] \<and> \<not> hd ok") auto
  let ?R = "pt_name ` set (snd (ensure_partitions now (i # ns) ok ps))"
  have "pt_name ` set ?ps \<union> (pt_name \<circ> partition_for now) ` set ns \<subseteq> ?R"
    unfolding e by (rule Cons.IH) (use Cons.prems in \<open>simp only: e\<close>)
  moreover have "pt_name ` set ps \<subseteq> pt_name ` set ?ps" "pt_name ?p \<in> pt_name ` set ?ps"
    using create_partition_set(2,3) by (auto intro: image_mono)
  ultimately have "pt_name ` set ps \<subseteq> ?R" "pt_name ?p \<in> ?R" "(pt_name \<circ> partition_for now) ` set ns \<subseteq> ?R"
    by blast+
  then show ?case by (auto simp del: ensure_partitions.simps)
qed simp



text \<open>
  On a day that the next month does not have, the job skips that month: from an empty list
  no run leaves a partition that starts with it, though the ones before and after it are made.
\<close>

lemma short_month_skipped:
  assumes "utc_date now = (y, m, d)" "month_days (month_no y m + 1) < d" "d \<le> month_days (month_no y m)"
  shows "month_start (month_no y m + 1) \<notin>
    pt_from ` set (snd (ensureBillingLogPartitions True now ahead ok []))"
proof
  let ?k = "month_no y m"
  assume "month_start (?k + 1) \<in> pt_from ` set (snd (ensureBillingLogPartitions True now ahead ok []))"
  then obtain i where i: "month_start (?k + 1) = pt_from (partition_for (y, m, d) i)"
    using ensure_partitions_sub [of "(y, m, d)" "[0..<ahead + 1]" ok "[]"] assms(1)
    by (auto simp: ensureBillingLogPartitions_def)
  have d: "1 \<le> d" "d \<le> 31" using assms(2,3) month_days_bounds [of ?k] month_days_bounds [of "?k + 1"] by auto
  let ?j = "if d \<le> month_days (?k + int i) then ?k + int i else ?k + int i + 1"
  have "month_start (?k + 1) = month_start ?j"
    using i partition_for_eq [OF d refl, of y m i] by (simp add: month_partition_def)
  then have "month_at (?k + 1) = month_at ?j" by (auto simp: month_start_def prod_eq_iff)
  then have "?k + 1 = ?j" using month_no_at [of "?k + 1"] month_no_at [of ?j] by presburger
  then show False using assms(2,3) by (cases i) (auto split: if_splits)
qed

lemma short_month_skipped_witness:
  "(1970, 2, 1) \<notin> pt_from ` set (snd (ensureBillingLogPartitions True (30 * day_ns) 6 [] []))"
proof -
  have d: "utc_date (30 * day_ns) = (1970, 1, 31)"
    by (simp add: utc_date_def days_after_here month_days_def month_at_def month_no_def days_in_def)
  have "month_days (month_no 1970 1 + 1) < 31" "31 \<le> month_days (month_no 1970 1)"
    "month_start (month_no 1970 1 + 1) = (1970, 2, 1)"
    by (simp_all add: month_days_def month_start_def month_at_def month_no_def days_in_def leap_year_def)
  with short_month_skipped [OF d, of 6 "[]"] show ?thesis by simp
qed

end
