(* ===== verification/GoFloat.thy ===== *)
theory GoFloat
  imports Prelude
begin

text \<open>
  Binary floating point as the gateway uses it: Go's float64 (prices, multipliers, webhook
  amounts) and the double that is Lua's only number type. A finite value is a dyadic number
  \<open>F64 m e\<close>, read as \<open>m * 2 ^ e\<close>; an operation computes exactly and then rounds the mantissa to
  53 significant bits, ties to even. Exponents never leave the format's range for the 64-bit
  integers and single precision multipliers of this program, so overflow, subnormal values
  and NaN have no counterpart here.
\<close>

section \<open>Rounding to 53 bits\<close>

text \<open>How many bits a natural number has beyond the 53 that a double keeps.\<close>

fun excess :: "nat \<Rightarrow> nat" where
  "excess n = (if n < 2 ^ 53 then 0 else Suc (excess (n div 2)))"

declare excess.simps [simp del]

definition half_even :: "nat \<Rightarrow> nat \<Rightarrow> nat" where
  "half_even n b = (let q = n div b; r = n mod b in
     if 2 * r < b \<or> (2 * r = b \<and> even q) then q else q + 1)"

definition round53 :: "nat \<Rightarrow> nat" where
  "round53 n = (let b = 2 ^ excess n in half_even n b * b)"

definition rnd53 :: "int \<Rightarrow> int" where
  "rnd53 x = sgn x * int (round53 (nat \<bar>x\<bar>))"

lemma excess_small [simp]: "n < 2 ^ 53 \<Longrightarrow> excess n = 0"
  by (subst excess.simps) simp

lemma excess_upper: "n < 2 ^ (53 + excess n)"
proof (induction n rule: excess.induct)
  case (1 n)
  show ?case
  proof (cases "n < 2 ^ 53")
    case True
    then show ?thesis by simp
  next
    case False
    with 1 have "n div 2 < 2 ^ (53 + excess (n div 2))" by simp
    then have "n < 2 * 2 ^ (53 + excess (n div 2))" by linarith
    moreover have "excess n = Suc (excess (n div 2))"
      using False by (subst excess.simps) simp
    ultimately show ?thesis by (simp add: power_add)
  qed
qed

lemma excess_lower: "0 < excess n \<Longrightarrow> 2 ^ (52 + excess n) \<le> n"
proof (induction n rule: excess.induct)
  case (1 n)
  have big: "\<not> n < 2 ^ 53"
    using "1.prems" by (metis excess_small less_irrefl)
  have ex: "excess n = Suc (excess (n div 2))"
    using big by (subst excess.simps) simp
  show ?case
  proof (cases "excess (n div 2) = 0")
    case True
    with big ex show ?thesis by simp
  next
    case False
    with "1.IH" big have "2 ^ (52 + excess (n div 2)) \<le> n div 2" by simp
    then have "2 * 2 ^ (52 + excess (n div 2)) \<le> n" by linarith
    with ex show ?thesis by (simp add: power_add)
  qed
qed

lemma half_even_one [simp]: "half_even n 1 = n" "half_even n (Suc 0) = n"
  by (simp_all add: half_even_def)

lemma half_even_bounds: "n div b \<le> half_even n b" "half_even n b \<le> n div b + 1"
  by (simp_all add: half_even_def Let_def)

lemma half_even_mono:
  assumes "m \<le> n" and b: "0 < b"
  shows "half_even m b \<le> half_even n b"
proof (cases "m div b = n div b")
  case True
  have m: "m = m div b * b + m mod b" and n: "n = n div b * b + n mod b" by simp_all
  have "m mod b \<le> n mod b"
    using \<open>m \<le> n\<close> m n True by (metis add_le_cancel_left)
  then show ?thesis
    using True by (auto simp: half_even_def Let_def)
next
  case False
  have "m div b \<le> n div b" using \<open>m \<le> n\<close> by (rule div_le_mono)
  with False have "m div b + 1 \<le> n div b" by simp
  then show ?thesis
    using half_even_bounds(2) [of m b] half_even_bounds(1) [of n b] by linarith
qed

lemma round53_exact [simp]: "n \<le> 2 ^ 53 \<Longrightarrow> round53 n = n"
proof (cases "n < 2 ^ 53")
  case True
  then show ?thesis by (simp add: round53_def)
next
  case False
  moreover assume "n \<le> 2 ^ 53"
  ultimately have n: "n = 2 ^ 53" by simp
  have "excess (2 ^ 53) = 1"
    by (subst excess.simps) (simp add: excess.simps [of "2 ^ 52"])
  with n show ?thesis by (simp add: round53_def half_even_def)
qed

lemma round53_upper: "round53 n \<le> 2 ^ (53 + excess n)"
proof -
  let ?b = "2 ^ excess n :: nat"
  have "n div ?b < 2 ^ 53"
    using excess_upper [of n] by (simp add: div_less_iff_less_mult power_add mult.commute)
  then have "half_even n ?b \<le> 2 ^ 53"
    using half_even_bounds(2) [of n ?b] by linarith
  then have "half_even n ?b * ?b \<le> 2 ^ 53 * ?b" by (rule mult_le_mono1)
  then show ?thesis by (simp add: round53_def Let_def power_add)
qed

lemma round53_lower: "0 < excess n \<Longrightarrow> 2 ^ (52 + excess n) \<le> round53 n"
proof -
  assume "0 < excess n"
  let ?b = "2 ^ excess n :: nat"
  have "2 ^ 52 * ?b \<le> n"
    using excess_lower [OF \<open>0 < excess n\<close>] by (simp add: power_add)
  then have "2 ^ 52 \<le> n div ?b"
    by (simp add: less_eq_div_iff_mult_less_eq)
  then have "2 ^ 52 \<le> half_even n ?b"
    using half_even_bounds(1) [of n ?b] by linarith
  then have "2 ^ 52 * ?b \<le> half_even n ?b * ?b" by (rule mult_le_mono1)
  then show ?thesis by (simp add: round53_def Let_def power_add)
qed

lemma excess_mono: "m \<le> n \<Longrightarrow> excess m \<le> excess n"
proof (rule ccontr)
  assume le: "m \<le> n" and "\<not> excess m \<le> excess n"
  then have lt: "excess n < excess m" by simp
  then have "2 ^ (52 + excess m) \<le> m" by (intro excess_lower) simp
  moreover have "n < 2 ^ (53 + excess n)" by (rule excess_upper)
  moreover have "(2 :: nat) ^ (53 + excess n) \<le> 2 ^ (52 + excess m)"
    using lt by (intro power_increasing) simp_all
  ultimately show False using le by linarith
qed

lemma round53_mono: "m \<le> n \<Longrightarrow> round53 m \<le> round53 n"
proof (cases "excess m = excess n")
  case True
  assume "m \<le> n"
  then have "half_even m (2 ^ excess n) \<le> half_even n (2 ^ excess n)"
    by (intro half_even_mono) simp_all
  with True show ?thesis by (simp add: round53_def Let_def)
next
  case False
  assume "m \<le> n"
  with False have lt: "excess m < excess n"
    using excess_mono by (simp add: order.strict_iff_order)
  have "round53 m \<le> 2 ^ (53 + excess m)" by (rule round53_upper)
  also have "(2 :: nat) ^ (53 + excess m) \<le> 2 ^ (52 + excess n)"
    using lt by (intro power_increasing) simp_all
  also have "\<dots> \<le> round53 n" using lt by (intro round53_lower) simp
  finally show ?thesis .
qed

lemma rnd53_exact [simp]: "\<bar>x\<bar> \<le> 2 ^ 53 \<Longrightarrow> rnd53 x = x"
proof -
  assume "\<bar>x\<bar> \<le> 2 ^ 53"
  then have "nat \<bar>x\<bar> \<le> 2 ^ 53" by (simp add: nat_le_iff)
  then show ?thesis by (simp add: rnd53_def sgn_if)
qed

section \<open>Double precision values\<close>

datatype f64 = F64 (f64_mant: int) (f64_exp: int)

fun f64_norm :: "f64 \<Rightarrow> f64" where
  "f64_norm (F64 m e) = F64 (rnd53 m) e"

definition f64_of_int :: "int \<Rightarrow> f64" where
  "f64_of_int n = f64_norm (F64 n 0)"

fun f64_mul :: "f64 \<Rightarrow> f64 \<Rightarrow> f64" where
  "f64_mul (F64 m1 e1) (F64 m2 e2) = f64_norm (F64 (m1 * m2) (e1 + e2))"

definition f64_le0 :: "f64 \<Rightarrow> bool" where
  "f64_le0 x \<longleftrightarrow> f64_mant x \<le> 0"

text \<open>\<open>math.Ceil\<close> and \<open>math.Round\<close> (halves away from zero), as the integer they denote.\<close>

fun f64_ceil :: "f64 \<Rightarrow> int" where
  "f64_ceil (F64 m e) = (if 0 \<le> e then m * 2 ^ nat e else - ((- m) div 2 ^ nat (- e)))"

fun f64_round :: "f64 \<Rightarrow> int" where
  "f64_round (F64 m e) = (if 0 \<le> e then m * 2 ^ nat e
     else sgn m * ((2 * \<bar>m\<bar> + 2 ^ nat (- e)) div (2 * 2 ^ nat (- e))))"

text \<open>
  The conversion to int64. Go leaves a value out of range to the implementation; on amd64 the
  conversion instruction then gives the smallest integer.
\<close>

definition to_int64 :: "int \<Rightarrow> int" where
  "to_int64 x = (if in_i64 x then x else - (2 ^ 63))"

lemma to_int64_id [simp]: "in_i64 x \<Longrightarrow> to_int64 x = x"
  by (simp add: to_int64_def)

lemma rnd53_nonneg: "0 \<le> x \<Longrightarrow> 0 \<le> rnd53 x"
  by (simp add: rnd53_def sgn_if)

lemma rnd53_mono: "0 \<le> x \<Longrightarrow> x \<le> y \<Longrightarrow> rnd53 x \<le> rnd53 y"
proof -
  assume "0 \<le> x" "x \<le> y"
  then have "round53 (nat x) \<le> round53 (nat y)" by (intro round53_mono) simp
  with \<open>0 \<le> x\<close> \<open>x \<le> y\<close> show ?thesis by (auto simp: rnd53_def sgn_if)
qed

lemma ceil_div:
  assumes "(0 :: int) < b"
  shows "a \<le> - ((- a) div b) * b"
proof -
  have "- a = ((- a) div b) * b + (- a) mod b" by simp
  moreover have "0 \<le> (- a) mod b" using assms by (rule pos_mod_sign)
  moreover have "- ((- a) div b) * b = - (((- a) div b) * b)" by simp
  ultimately show ?thesis by linarith
qed

lemma int_div_less:
  assumes "(0 :: int) < d" and "x < c * d"
  shows "x div d < c"
proof (rule ccontr)
  assume "\<not> x div d < c"
  then have "c * d \<le> (x div d) * d" using assms(1) by (intro mult_right_mono) simp_all
  also have "\<dots> \<le> x"
    using div_mult_mod_eq [of x d] pos_mod_sign [OF assms(1), of x] by linarith
  finally show False using assms(2) by simp
qed

lemma round_le_ceil_nonneg:
  assumes "(0 :: int) < b" and "0 \<le> a"
  shows "(2 * a + b) div (2 * b) \<le> - ((- a) div b)"
proof -
  let ?c = "- ((- a) div b)"
  have "a \<le> ?c * b" using assms(1) by (rule ceil_div)
  then have "2 * a + b < (?c + 1) * (2 * b)" using assms(1) by (simp add: algebra_simps)
  then have "(2 * a + b) div (2 * b) < ?c + 1"
    using assms(1) by (intro int_div_less) simp_all
  then show ?thesis by simp
qed

lemma floor_le_round:
  assumes "(0 :: int) < b"
  shows "a div b \<le> (2 * a + b) div (2 * b)"
proof -
  have "a div b = (2 * a) div (2 * b)" by simp
  also have "\<dots> \<le> (2 * a + b) div (2 * b)"
    using assms by (intro zdiv_mono1) simp_all
  finally show ?thesis .
qed

text \<open>Rounding to the nearest integer never exceeds rounding up.\<close>

lemma f64_round_le_ceil: "f64_round x \<le> f64_ceil x"
proof (cases x)
  case (F64 m e)
  have b: "(0 :: int) < 2 ^ nat (- e)" by simp
  show ?thesis
  proof (cases "0 \<le> m")
    case True
    with F64 b round_le_ceil_nonneg [OF b True] show ?thesis by (auto simp: sgn_if)
  next
    case False
    with F64 b floor_le_round [OF b, of "- m"] show ?thesis by (auto simp: sgn_if)
  qed
qed

lemma f64_ceil_mono: "m \<le> n \<Longrightarrow> f64_ceil (F64 m e) \<le> f64_ceil (F64 n e)"
  by (simp add: mult_right_mono zdiv_mono1)

lemma f64_round_nonneg: "0 \<le> m \<Longrightarrow> 0 \<le> f64_round (F64 m e)"
  by (simp add: sgn_if pos_imp_zdiv_nonneg_iff)

lemma f64_round_mono: "0 \<le> m \<Longrightarrow> m \<le> n \<Longrightarrow> f64_round (F64 m e) \<le> f64_round (F64 n e)"
  by (cases "m = 0") (auto simp: sgn_if mult_right_mono zdiv_mono1 pos_imp_zdiv_nonneg_iff)

end
