(* ===== verification/Json.thy ===== *)
theory Json
  imports GoFloat
begin

text \<open>
  JSON values as encoding/json reads them. A number is its decimal literal, \<open>JNum d e\<close> for
  \<open>d * 10 ^ e\<close>, where an integer literal has the exponent 0; \<open>any_value\<close> is what is left of a
  value that went through Go's \<open>any\<close>, where every number is a float64. An object is its members
  in the order of the text, and a member is the last one with the key, as a Go map keeps it. A
  byte string that reaches the decoder is one of \<open>raw_bytes\<close>; theory JsonText parses the text
  itself where the program does so line by line.
\<close>

datatype json =
    JNull
  | JBool bool
  | JNum int int
  | JStr string
  | JList "json list"
  | JObj "(string \<times> json) list"

datatype raw_bytes = NoBytes | BadBytes | JsonBytes json

definition empty_object :: json where
  "empty_object = JObj []"

definition obj_get :: "(string \<times> json) list \<Rightarrow> string \<Rightarrow> json option" where
  "obj_get kvs k = map_of (rev kvs) k"

fun json_get :: "json \<Rightarrow> string \<Rightarrow> json option" where
  "json_get (JObj kvs) k = obj_get kvs k"
| "json_get _ k = None"

section \<open>Numbers\<close>

text \<open>
  The float64 nearest to a decimal: a quotient with more than 54 bits and a sticky bit, rounded
  once.
\<close>

definition dec_f64 :: "int \<Rightarrow> int \<Rightarrow> f64" where
  "dec_f64 d e =
     (if 0 \<le> e then f64_norm (F64 (d * 10 ^ nat e) 0)
      else let p = 10 ^ nat (- e); s = 4 * nat (- e) + 64; n = \<bar>d\<bar> * 2 ^ s in
           f64_norm (F64 (sgn d * (2 * (n div p) + (if n mod p = 0 then 0 else 1))) (- int s - 1)))"

text \<open>The decimal of a float64, without trailing zeros after the point.\<close>

function strip_zeros :: "int \<Rightarrow> int \<Rightarrow> json" where
  "strip_zeros d e = (if e < 0 \<and> d mod 10 = 0 then strip_zeros (d div 10) (e + 1) else JNum d e)"
  by auto
termination by (relation "measure (\<lambda>(d, e). nat (- e))") auto

declare strip_zeros.simps [simp del]

fun f64_json :: "f64 \<Rightarrow> json" where
  "f64_json (F64 m e) = (if 0 \<le> e then JNum (m * 2 ^ nat e) 0 else strip_zeros (m * 5 ^ nat (- e)) e)"

fun any_value :: "json \<Rightarrow> json" where
  "any_value (JNum d e) = f64_json (dec_f64 d e)"
| "any_value (JList xs) = JList (map any_value xs)"
| "any_value (JObj kvs) = JObj (map (\<lambda>(k, v). (k, any_value v)) kvs)"
| "any_value j = j"

lemma any_value_small_int: "\<bar>d\<bar> \<le> 2 ^ 53 \<Longrightarrow> any_value (JNum d 0) = JNum d 0"
  by (simp add: dec_f64_def)

lemma any_value_str [simp]: "any_value v = JStr s \<longleftrightarrow> v = JStr s"
proof (cases v)
  case (JNum d e)
  have "strip_zeros a b \<noteq> JStr s" for a b
    by (induction a b rule: strip_zeros.induct) (subst strip_zeros.simps, simp)
  then have "f64_json x \<noteq> JStr s" for x by (cases x) simp
  with JNum show ?thesis by simp
qed simp_all

text \<open>
  A member decoded into a struct: the key matches the field's name whatever its case, the members
  are read in their order, a null leaves the field as it is, and a value of another type is an
  error. A field without a member keeps its zero value.
\<close>

definition matching :: "(string \<times> json) list \<Rightarrow> string \<Rightarrow> json list" where
  "matching kvs k = map snd (filter (\<lambda>p. to_lower (fst p) = to_lower k) kvs)"

fun read_into :: "(json \<Rightarrow> 'a option) \<Rightarrow> 'a \<Rightarrow> json list \<Rightarrow> 'a option" where
  "read_into f z [] = Some z"
| "read_into f z (v # vs) =
     (if v = JNull then read_into f z vs
      else case f v of None \<Rightarrow> None | Some x \<Rightarrow> read_into f x vs)"

fun json_int :: "json \<Rightarrow> int option" where
  "json_int (JNum d e) = (if e = 0 \<and> in_i64 d then Some d else None)"
| "json_int _ = None"

fun json_str :: "json \<Rightarrow> string option" where
  "json_str (JStr s) = Some s"
| "json_str _ = None"

fun json_bool :: "json \<Rightarrow> bool option" where
  "json_bool (JBool b) = Some b"
| "json_bool _ = None"

text \<open>A number that is too large for a float64 is an error too.\<close>

definition dec_finite :: "int \<Rightarrow> int \<Rightarrow> bool" where
  "dec_finite d e = (let top = 2 ^ 1024 - 2 ^ 970 in
     if 0 \<le> e then \<bar>d\<bar> * 10 ^ nat e < top else \<bar>d\<bar> < top * 10 ^ nat (- e))"

fun json_float :: "json \<Rightarrow> f64 option" where
  "json_float (JNum d e) = (if dec_finite d e then Some (dec_f64 d e) else None)"
| "json_float _ = None"

fun json_list :: "(json \<Rightarrow> 'a option) \<Rightarrow> 'a \<Rightarrow> json \<Rightarrow> 'a list option" where
  "json_list f z (JList xs) = those (map (\<lambda>x. if x = JNull then Some z else f x) xs)"
| "json_list f z _ = None"

definition int_field :: "(string \<times> json) list \<Rightarrow> string \<Rightarrow> int option" where
  "int_field kvs k = read_into json_int 0 (matching kvs k)"

definition str_field :: "(string \<times> json) list \<Rightarrow> string \<Rightarrow> string option" where
  "str_field kvs k = read_into json_str '''' (matching kvs k)"

definition bool_field :: "(string \<times> json) list \<Rightarrow> string \<Rightarrow> bool option" where
  "bool_field kvs k = read_into json_bool False (matching kvs k)"

text \<open>A field of a pointer or slice type, which a null sets to nil.\<close>

definition ptr_field :: "(json \<Rightarrow> 'a option) \<Rightarrow> (string \<times> json) list \<Rightarrow> string \<Rightarrow> 'a option option" where
  "ptr_field f kvs k = foldl (\<lambda>acc v. case acc of None \<Rightarrow> None
      | Some _ \<Rightarrow> if v = JNull then Some None else map_option Some (f v)) (Some None) (matching kvs k)"

definition list_field :: "(json \<Rightarrow> 'a option) \<Rightarrow> 'a \<Rightarrow> (string \<times> json) list \<Rightarrow> string \<Rightarrow> 'a list option" where
  "list_field f z kvs k =
     map_option (\<lambda>xs. case xs of None \<Rightarrow> [] | Some ys \<Rightarrow> ys) (ptr_field (json_list f z) kvs k)"

text \<open>
  The text of a map: every key once, with its last value, in the order of the keys' bytes.
\<close>

fun bytes_less :: "string \<Rightarrow> string \<Rightarrow> bool" where
  "bytes_less [] t = (t \<noteq> [])"
| "bytes_less (c # s) [] = False"
| "bytes_less (c # s) (d # t) = ((of_char c :: nat) < of_char d \<or> c = d \<and> bytes_less s t)"

definition insert_member :: "string \<times> json \<Rightarrow> (string \<times> json) list \<Rightarrow> (string \<times> json) list" where
  "insert_member m kvs = (let r = filter (\<lambda>p. fst p \<noteq> fst m) kvs in
     takeWhile (\<lambda>p. bytes_less (fst p) (fst m)) r @ m # dropWhile (\<lambda>p. bytes_less (fst p) (fst m)) r)"

definition marshal_members :: "(string \<times> json) list \<Rightarrow> (string \<times> json) list" where
  "marshal_members kvs = fold insert_member kvs []"

section \<open>Members\<close>

text \<open>\<open>v, _ := x.(string)\<close> and the other checked assertions.\<close>

fun as_string :: "json option \<Rightarrow> string option" where
  "as_string (Some (JStr s)) = Some s"
| "as_string _ = None"

fun as_object :: "json option \<Rightarrow> (string \<times> json) list option" where
  "as_object (Some (JObj kvs)) = Some kvs"
| "as_object _ = None"

fun as_list :: "json option \<Rightarrow> json list option" where
  "as_list (Some (JList xs)) = Some xs"
| "as_list _ = None"

text \<open>Assignment to a member of a map, and \<open>delete\<close>.\<close>

fun obj_set :: "(string \<times> json) list \<Rightarrow> string \<Rightarrow> json \<Rightarrow> (string \<times> json) list" where
  "obj_set kvs k v = filter (\<lambda>p. fst p \<noteq> k) kvs @ [(k, v)]"

definition obj_del :: "(string \<times> json) list \<Rightarrow> string \<Rightarrow> (string \<times> json) list" where
  "obj_del kvs k = filter (\<lambda>p. fst p \<noteq> k) kvs"

lemma map_of_insert_member:
  "map_of (rev (insert_member m kvs)) = (map_of (rev kvs))(fst m \<mapsto> snd m)"
proof -
  let ?P = "\<lambda>p. bytes_less (fst p) (fst m)" and ?r = "filter (\<lambda>p. fst p \<noteq> fst m) kvs"
  have "map_of (rev ?r) = (map_of (rev kvs))(fst m := None)"
    by (induction kvs) (auto simp: map_add_def fun_eq_iff split: option.splits)
  moreover have "map_of (rev (takeWhile ?P ?r @ m # dropWhile ?P ?r)) = (map_of (rev ?r))(fst m \<mapsto> snd m)"
  proof -
    have "fst m \<notin> fst ` set (dropWhile ?P ?r)" by (auto dest!: set_dropWhileD)
    then have n: "map_of (rev (dropWhile ?P ?r)) (fst m) = None" by (simp add: map_of_eq_None_iff)
    have "map_of (rev ?r) = map_of (rev (dropWhile ?P ?r) @ rev (takeWhile ?P ?r))"
      by (metis rev_append takeWhile_dropWhile_id)
    with n show ?thesis by (cases m) (auto simp: fun_eq_iff map_add_def split: option.splits)
  qed
  ultimately show ?thesis by (simp add: insert_member_def Let_def)
qed

lemma obj_get_marshal [simp]: "obj_get (marshal_members kvs) k = obj_get kvs k"
proof -
  have "map_of (rev (fold insert_member kvs acc)) = map_of (rev acc) ++ map_of (rev kvs)" for acc
    by (induction kvs arbitrary: acc) (auto simp: map_of_insert_member fun_eq_iff map_add_def split: option.splits)
  then show ?thesis by (simp add: marshal_members_def obj_get_def)
qed

lemma obj_get_any_value: "obj_get (map (\<lambda>(k, v). (k, any_value v)) kvs) k = map_option any_value (obj_get kvs k)"
  by (simp add: obj_get_def rev_map map_of_map)

lemma obj_get_set_same [simp]: "obj_get (obj_set kvs k v) k = Some v"
  by (simp add: obj_get_def)

lemma obj_get_filter: "k' \<noteq> k \<Longrightarrow> obj_get (filter (\<lambda>p. fst p \<noteq> k) kvs) k' = obj_get kvs k'"
  unfolding obj_get_def
  by (induction kvs) (auto simp: map_add_def split: option.splits)

lemma obj_get_set_other [simp]: "k' \<noteq> k \<Longrightarrow> obj_get (obj_set kvs k v) k' = obj_get kvs k'"
  using obj_get_filter [of k' k kvs] by (simp add: obj_get_def)

lemma obj_get_del [simp]: "obj_get (obj_del kvs k) k' = (if k' = k then None else obj_get kvs k')"
  using obj_get_filter [of k' k kvs]
  by (auto simp: obj_del_def obj_get_def map_of_eq_None_iff)

end
