(* ===== verification/Rows.thy ===== *)
theory Rows
  imports Json
begin

text \<open>
  The data the gateway keeps and moves: one record per table of schema.sql and struct of
  internal/db/models.go, and the two payloads of the task queue (billing/settlement.go,
  billing/request_log.go). A nullable column is an option. Timestamps are integers (seconds).
  Columns that no modelled statement reads or writes (e-mail, nickname, password hash and the
  like) are left out. A JSONB column holds a decoded value.
\<close>

section \<open>Queue payloads\<close>

record settlement_request =
  s_user :: int
  s_api_key :: int
  s_channel :: int
  s_model :: string
  s_prompt :: int
  s_completion :: int
  s_cache_hit :: int
  s_cache_miss :: int
  s_pre_deducted :: int
  s_sub_deducted :: int
  s_grant_deducted :: int
  s_cash_deducted :: int
  s_actual_cost :: int
  s_log_type :: string
  s_request_id :: string

record request_log_request =
  rq_user :: int
  rq_api_key :: int
  rq_channel :: int
  rq_provider :: string
  rq_type :: string
  rq_public_model :: string
  rq_upstream_model :: string
  rq_payload :: raw_bytes
  rq_prompt :: int
  rq_completion :: int
  rq_cache_hit :: int
  rq_cache_miss :: int
  rq_amount :: int
  rq_pre_deducted :: int
  rq_status :: int
  rq_request_id :: string
  rq_stream :: bool
  rq_success :: bool

text \<open>
  A task of the queue: its type and its decoded payload. \<open>None\<close> is a payload that does not
  unmarshal; marshalling these structs and unmarshalling them again gives the struct back.
\<close>

datatype task =
    TaskRecordBillingLog "settlement_request option"
  | TaskRecordRequestLog "request_log_request option"

section \<open>Tables\<close>

record user_row =
  u_id :: int
  u_cash :: "int option"
  u_grant :: "int option"
  u_tier :: "int option"
  u_status :: "int option"
  u_sub :: int
  u_sub_expires :: "int option"

record api_key_row =
  k_id :: int
  k_name :: string
  k_string :: string
  k_user :: "int option"
  k_tier :: "int option"
  k_quota_limit :: "int option"
  k_quota_used :: "int option"
  k_allowed_models :: json
  k_status :: "int option"
  k_created :: "int option"

record model_row =
  m_id :: int
  m_name :: string
  m_input_price :: int
  m_output_price :: int
  m_cache_hit_price :: int
  m_cache_miss_price :: int
  m_multiplier :: f64
  m_billing_policy :: string
  m_modality :: string
  m_pricing_mode :: string
  m_pricing_config :: json
  m_max_concurrency :: int
  m_status :: "int option"

record channel_row =
  c_id :: int
  c_name :: string
  c_provider :: string
  c_base_url :: string
  c_api_key :: string
  c_models :: string
  c_protocol :: string
  c_upload_mode :: string
  c_model_mapping :: json
  c_supports_async :: bool
  c_weight :: "int option"
  c_status :: "int option"

record billing_log_row =
  bl_id :: string
  bl_user :: "int option"
  bl_channel :: "int option"
  bl_model :: string
  bl_prompt :: "int option"
  bl_completion :: "int option"
  bl_cache_hit :: "int option"
  bl_cache_miss :: "int option"
  bl_amount :: int
  bl_log_type :: string
  bl_pre_deducted :: int
  bl_request_id :: "string option"

record transaction_row =
  t_id :: int
  t_user :: int
  t_event :: "string option"
  t_type :: string
  t_balance_type :: string
  t_direction :: string
  t_amount :: int
  t_before :: int
  t_after :: int
  t_source_type :: string
  t_source_id :: string
  t_status :: string
  t_remark :: string
  t_metadata :: json

record balance_log_row =
  b_transaction :: "int option"
  b_user :: int
  b_balance_type :: string
  b_action :: string
  b_amount :: int
  b_before :: int
  b_after :: int
  b_admin :: "int option"
  b_operator :: string
  b_remark :: string

record request_log_row =
  rl_request_id :: string
  rl_user :: int
  rl_api_key :: "int option"
  rl_channel :: "int option"
  rl_provider :: string
  rl_type :: string
  rl_public_model :: string
  rl_upstream_model :: string
  rl_payload :: "json option"
  rl_prompt :: int
  rl_completion :: int
  rl_cache_hit :: int
  rl_cache_miss :: int
  rl_amount :: int
  rl_pre_deducted :: int
  rl_status :: int
  rl_stream :: bool
  rl_success :: bool

record outbox_row =
  ob_id :: int
  ob_request_id :: string
  ob_payload :: "settlement_request option"
  ob_attempts :: int
  ob_created :: int
  ob_processed :: "int option"

record async_task_row =
  at_id :: string
  at_user :: int
  at_channel :: "int option"
  at_request_id :: string
  at_type :: string
  at_provider :: string
  at_model :: string
  at_status :: string
  at_upstream :: "string option"
  at_input :: json
  at_output :: json
  at_error :: json
  at_metadata :: json
  at_pre_deducted :: int
  at_grant_deducted :: int
  at_cash_deducted :: int
  at_actual_cost :: int
  at_created :: int
  at_updated :: int
  at_submitted :: "int option"
  at_finished :: "int option"
  at_canceled :: "int option"
  at_sub_deducted :: int

record channel_failure_row =
  cf_channel :: int
  cf_request_id :: string
  cf_model :: string
  cf_provider :: string
  cf_base_url :: string
  cf_error_type :: string
  cf_status :: int
  cf_body :: string
  cf_message :: string
  cf_latency :: int
  cf_circuit :: string

record model_failure_row =
  mf_user :: int
  mf_api_key :: "int option"
  mf_request_id :: string
  mf_model :: string
  mf_provider :: string
  mf_error_type :: string
  mf_error_code :: string
  mf_status :: int
  mf_message :: string
  mf_body :: string
  mf_latency :: int
  mf_retryable :: bool

text \<open>
  The tables, and the last numbers that the sequences of \<open>api_keys\<close>, \<open>models\<close> and \<open>channels\<close> have given out.
\<close>

record db =
  users :: "user_row list"
  api_keys :: "api_key_row list"
  api_key_seq :: int
  model_seq :: int
  channel_seq :: int
  models :: "model_row list"
  channels :: "channel_row list"
  billing_logs :: "billing_log_row list"
  transactions :: "transaction_row list"
  balance_logs :: "balance_log_row list"
  request_logs :: "request_log_row list"
  settlement_outbox :: "outbox_row list"
  async_tasks :: "async_task_row list"
  channel_failure_logs :: "channel_failure_row list"
  model_failure_logs :: "model_failure_row list"

definition empty_db :: db where
  "empty_db = \<lparr>users = [], api_keys = [], api_key_seq = 0, model_seq = 0, channel_seq = 0, models = [], channels = [], billing_logs = [],
     transactions = [], balance_logs = [], request_logs = [], settlement_outbox = [],
     async_tasks = [], channel_failure_logs = [], model_failure_logs = []\<rparr>"

text \<open>\<open>Deduction\<close> of billing/deduct.go: what one charge took from each of the three pools.\<close>

record deduction =
  d_sub :: int
  d_grant :: int
  d_cash :: int

definition no_deduction :: deduction where
  "no_deduction = \<lparr>d_sub = 0, d_grant = 0, d_cash = 0\<rparr>"

definition deduction_total :: "deduction \<Rightarrow> int" where
  "deduction_total d = wrap64 (wrap64 (d_sub d + d_grant d) + d_cash d)"

end
