(* ===== verification/Store.thy ===== *)
theory Store
  imports Rows
begin

text \<open>
  The SQL statements of internal/db (query.sql.go, billing_queries.go, outbox_queries.go) over
  the tables of theory Rows, each named after the method that issues it. A statement that
  PostgreSQL refuses (a bigint overflow, a broken foreign key or unique index, a text longer
  than its column) gives \<open>None\<close>; so does a \<open>:one\<close> query without a row. Failures of the
  connection are not here: they come from the fault list of theory World.
\<close>

named_theorems sql_rows "what a statement leaves of the rows it does not name"

section \<open>Rows of a table\<close>

fun update_where :: "('a \<Rightarrow> bool) \<Rightarrow> ('a \<Rightarrow> 'a option) \<Rightarrow> 'a list \<Rightarrow> 'a list option" where
  "update_where P f [] = Some []"
| "update_where P f (r # rs) =
     (case (if P r then f r else Some r) of
        None \<Rightarrow> None
      | Some r' \<Rightarrow> map_option ((#) r') (update_where P f rs))"

definition sql_add :: "int \<Rightarrow> int \<Rightarrow> int option" where
  "sql_add a b = (if in_i64 (a + b) then Some (a + b) else None)"

text \<open>Addition to a nullable column: NULL plus anything is NULL.\<close>

definition sql_add_null :: "int option \<Rightarrow> int \<Rightarrow> int option option" where
  "sql_add_null a b = (case a of None \<Rightarrow> Some None | Some v \<Rightarrow> map_option Some (sql_add v b))"

definition coalesce0 :: "int option \<Rightarrow> int" where
  "coalesce0 a = (case a of None \<Rightarrow> 0 | Some v \<Rightarrow> v)"

lemma coalesce0_simps [simp]: "coalesce0 None = 0" "coalesce0 (Some v) = v"
  by (simp_all add: coalesce0_def)

lemma find_update_where:
  assumes "update_where (\<lambda>r. key r = i) f rows = Some rows'"
    and "\<And>r r'. f r = Some r' \<Longrightarrow> key r' = key r"
  shows "find (\<lambda>r. key r = j) rows' =
    (if j = i then Option.bind (find (\<lambda>r. key r = i) rows) f else find (\<lambda>r. key r = j) rows)"
  using assms(1)
proof (induction rows arbitrary: rows')
  case (Cons r rs)
  then show ?case
    by (cases "key r = i") (auto split: option.splits dest!: assms(2))
qed simp

lemma update_where_defined:
  "update_where P f rows = Some rows' \<Longrightarrow> find P rows = Some r \<Longrightarrow> \<exists>r'. f r = Some r'"
  by (induction rows arbitrary: rows') (auto split: option.splits if_splits)

lemma update_where_total:
  "(\<And>r. r \<in> set rows \<Longrightarrow> P r \<Longrightarrow> f r \<noteq> None) \<Longrightarrow> \<exists>rows'. update_where P f rows = Some rows'"
proof (induction rows)
  case (Cons r rs)
  then obtain rs' where "update_where P f rs = Some rs'" by auto
  moreover have "P r \<Longrightarrow> f r \<noteq> None" using Cons.prems by simp
  ultimately show ?case by (auto split: option.splits)
qed simp

lemma update_where_length:
  "update_where P f rows = Some rows' \<Longrightarrow> length rows' = length rows"
  by (induction rows arbitrary: rows') (auto split: option.splits)

section \<open>Users\<close>

definition user_of :: "db \<Rightarrow> int \<Rightarrow> user_row option" where
  "user_of d i = find (\<lambda>u. u_id u = i) (users d)"

text \<open>\<open>GetUserByIDForUpdate\<close>; the row lock is the transaction's own business.\<close>

definition getUserByIDForUpdate :: "int \<Rightarrow> db \<Rightarrow> user_row option" where
  "getUserByIDForUpdate i d = user_of d i"

definition user_pools :: "user_row \<Rightarrow> int \<times> int \<times> int" where
  "user_pools u = (u_sub u, coalesce0 (u_grant u), coalesce0 (u_cash u))"

definition getUserBalances :: "int \<Rightarrow> db \<Rightarrow> (int \<times> int \<times> int) option" where
  "getUserBalances i d = map_option user_pools (user_of d i)"

definition updateUserSubBalance :: "int \<Rightarrow> int \<Rightarrow> int \<Rightarrow> db \<Rightarrow> db option" where
  "updateUserSubBalance now i delta d =
     map_option (\<lambda>us. d\<lparr>users := us\<rparr>)
       (update_where (\<lambda>u. u_id u = i)
          (\<lambda>u. map_option (\<lambda>s. u\<lparr>u_sub := s,
                  u_sub_expires := (if u_sub_expires u = None \<and> delta > 0
                                    then Some (now + 30 * day_ns) else u_sub_expires u)\<rparr>)
               (sql_add (u_sub u) delta))
          (users d))"

definition updateUserGrantBalance :: "int \<Rightarrow> int \<Rightarrow> db \<Rightarrow> db option" where
  "updateUserGrantBalance i delta d =
     map_option (\<lambda>us. d\<lparr>users := us\<rparr>)
       (update_where (\<lambda>u. u_id u = i)
          (\<lambda>u. map_option (\<lambda>g. u\<lparr>u_grant := g\<rparr>) (sql_add_null (u_grant u) delta)) (users d))"

definition updateUserTopupBalance :: "int \<Rightarrow> int \<Rightarrow> db \<Rightarrow> db option" where
  "updateUserTopupBalance i delta d =
     map_option (\<lambda>us. d\<lparr>users := us\<rparr>)
       (update_where (\<lambda>u. u_id u = i)
          (\<lambda>u. map_option (\<lambda>c. u\<lparr>u_cash := c\<rparr>) (sql_add_null (u_cash u) delta)) (users d))"

text \<open>The two statements of \<open>ApplySubscriptionDB\<close>: the old pool, then the overwrite.\<close>

definition selectSubBalance :: "int \<Rightarrow> db \<Rightarrow> int option" where
  "selectSubBalance i d = map_option u_sub (user_of d i)"

definition overwriteSubscription ::
  "int \<Rightarrow> int \<Rightarrow> int \<Rightarrow> int option \<Rightarrow> int option \<Rightarrow> db \<Rightarrow> db option" where
  "overwriteSubscription i newSub newGrant expires tier d =
     map_option (\<lambda>us. d\<lparr>users := us\<rparr>)
       (update_where (\<lambda>u. u_id u = i)
          (\<lambda>u. map_option (\<lambda>c. u\<lparr>u_cash := c, u_sub := newSub, u_grant := Some newGrant,
                                 u_sub_expires := expires, u_tier := tier\<rparr>)
               (sql_add_null (u_cash u) (u_sub u)))
          (users d))"

definition listExpiredSubscriptionUsers :: "int \<Rightarrow> db \<Rightarrow> int list" where
  "listExpiredSubscriptionUsers now d =
     map u_id (filter (\<lambda>u. (case u_sub_expires u of None \<Rightarrow> False | Some e \<Rightarrow> e < now) \<and>
                           (u_sub u > 0 \<or> coalesce0 (u_grant u) > 0)) (users d))"

text \<open>What each statement leaves of the row it names, and of every other user's row.\<close>

lemma user_of_users_update:
  assumes "update_where (\<lambda>u. u_id u = i) f (users d) = Some us"
    and "\<And>u u'. f u = Some u' \<Longrightarrow> u' = g u" and "\<And>u. u_id (g u) = u_id u"
  shows "user_of (d\<lparr>users := us\<rparr>) j = (if j = i then map_option g (user_of d i) else user_of d j)"
proof -
  have "find (\<lambda>u. u_id u = j) us =
    (if j = i then Option.bind (find (\<lambda>u. u_id u = i) (users d)) f
     else find (\<lambda>u. u_id u = j) (users d))"
    using assms(1) by (rule find_update_where) (auto dest!: assms(2) simp: assms(3))
  moreover have "Option.bind (find (\<lambda>u. u_id u = i) (users d)) f =
      map_option g (find (\<lambda>u. u_id u = i) (users d))"
    using update_where_defined [OF assms(1)] assms(2)
    by (cases "find (\<lambda>u. u_id u = i) (users d)") fastforce+
  ultimately show ?thesis by (simp add: user_of_def)
qed

lemma user_of_updateUserSubBalance [sql_rows]:
  assumes "updateUserSubBalance now i x d = Some d'"
  shows "user_of d' j = (if j = i then map_option (\<lambda>u. u\<lparr>u_sub := u_sub u + x,
            u_sub_expires := (if u_sub_expires u = None \<and> x > 0
                              then Some (now + 30 * day_ns) else u_sub_expires u)\<rparr>) (user_of d i)
          else user_of d j)"
  using assms unfolding updateUserSubBalance_def
  by (clarsimp simp only: map_option_eq_Some)
    (rule user_of_users_update, assumption, auto simp: sql_add_def split: if_splits)

definition null_add :: "int \<Rightarrow> int option \<Rightarrow> int option" where
  "null_add x = map_option (\<lambda>v. v + x)"

lemma sql_add_null_Some: "sql_add_null a x = Some b \<Longrightarrow> b = null_add x a"
  by (auto simp: sql_add_null_def sql_add_def null_add_def split: option.splits if_splits)

lemma user_of_updateUserGrantBalance [sql_rows]:
  assumes "updateUserGrantBalance i x d = Some d'"
  shows "user_of d' j = (if j = i then map_option (\<lambda>u. u\<lparr>u_grant := null_add x (u_grant u)\<rparr>)
            (user_of d i) else user_of d j)"
  using assms unfolding updateUserGrantBalance_def
  by (clarsimp simp only: map_option_eq_Some)
    (rule user_of_users_update, assumption, auto dest!: sql_add_null_Some)

lemma user_of_updateUserTopupBalance [sql_rows]:
  assumes "updateUserTopupBalance i x d = Some d'"
  shows "user_of d' j = (if j = i then map_option (\<lambda>u. u\<lparr>u_cash := null_add x (u_cash u)\<rparr>)
            (user_of d i) else user_of d j)"
  using assms unfolding updateUserTopupBalance_def
  by (clarsimp simp only: map_option_eq_Some)
    (rule user_of_users_update, assumption, auto dest!: sql_add_null_Some)

lemma user_of_overwriteSubscription [sql_rows]:
  assumes "overwriteSubscription i ns ng e t d = Some d'"
  shows "user_of d' j = (if j = i then map_option (\<lambda>u. u\<lparr>u_cash := null_add (u_sub u) (u_cash u),
            u_sub := ns, u_grant := Some ng, u_sub_expires := e, u_tier := t\<rparr>)
            (user_of d i) else user_of d j)"
  using assms unfolding overwriteSubscription_def
  by (clarsimp simp only: map_option_eq_Some)
    (rule user_of_users_update, assumption, auto dest!: sql_add_null_Some)

section \<open>Models, channels, API keys\<close>

definition getModelByName :: "string \<Rightarrow> db \<Rightarrow> model_row option" where
  "getModelByName name d = find (\<lambda>m. m_name m = name \<and> m_status m = Some 1) (models d)"

definition getChannelByID :: "int \<Rightarrow> db \<Rightarrow> channel_row option" where
  "getChannelByID i d = find (\<lambda>c. c_id c = i) (channels d)"

text \<open>\<open>ORDER BY weight DESC\<close> puts NULL first.\<close>

definition weight_rank :: "channel_row \<Rightarrow> int" where
  "weight_rank c = (case c_weight c of None \<Rightarrow> - (2 ^ 31) - 1 | Some w \<Rightarrow> - w)"

definition listActiveChannels :: "db \<Rightarrow> channel_row list" where
  "listActiveChannels d = sort_key weight_rank (filter (\<lambda>c. c_status c = Some 1) (channels d))"

definition listActiveModels :: "db \<Rightarrow> model_row list" where
  "listActiveModels d = filter (\<lambda>m. m_status m = Some 1) (models d)"

text \<open>\<open>key_string\<close> is unique and \<open>users.id\<close> is the key of the join.\<close>

definition getUserByAPIKey :: "string \<Rightarrow> db \<Rightarrow> (user_row \<times> api_key_row) option" where
  "getUserByAPIKey key d =
     (case find (\<lambda>k. k_string k = key \<and> k_status k = Some 1) (api_keys d) of
        None \<Rightarrow> None
      | Some k \<Rightarrow>
          map_option (\<lambda>u. (u, k))
            (find (\<lambda>u. k_user k = Some (u_id u) \<and> u_status u = Some 1) (users d)))"

definition incrementAPIKeyQuotaUsed :: "int \<Rightarrow> int \<Rightarrow> db \<Rightarrow> db option" where
  "incrementAPIKeyQuotaUsed i x d =
     map_option (\<lambda>ks. d\<lparr>api_keys := ks\<rparr>)
       (update_where (\<lambda>k. k_id k = i)
          (\<lambda>k. map_option (\<lambda>q. k\<lparr>k_quota_used := q\<rparr>) (sql_add_null (k_quota_used k) x))
          (api_keys d))"

section \<open>Ledgers\<close>

text \<open>
  References to users and channels, and the width of a text column, which counts characters: the
  bytes of its UTF-8 form less the continuation bytes.
\<close>

definition fk_user :: "int \<Rightarrow> db \<Rightarrow> bool" where
  "fk_user i d \<longleftrightarrow> user_of d i \<noteq> None"

definition fk_channel :: "int option \<Rightarrow> db \<Rightarrow> bool" where
  "fk_channel c d = (case c of None \<Rightarrow> True | Some i \<Rightarrow> getChannelByID i d \<noteq> None)"

definition fk_api_key :: "int option \<Rightarrow> db \<Rightarrow> bool" where
  "fk_api_key k d = (case k of None \<Rightarrow> True | Some i \<Rightarrow> find (\<lambda>r. k_id r = i) (api_keys d) \<noteq> None)"

definition fits :: "nat \<Rightarrow> string \<Rightarrow> bool" where
  "fits n s \<longleftrightarrow> length (filter (\<lambda>c. \<not> (128 \<le> (of_char c :: nat) \<and> (of_char c :: nat) < 192)) s) \<le> n"

definition getUserTotalSpend :: "int \<Rightarrow> db \<Rightarrow> int option" where
  "getUserTotalSpend i d =
     (let t = sum_list (map bl_amount (filter (\<lambda>b. bl_user b = Some i) (billing_logs d)))
      in if in_i64 t then Some t else None)"

definition getUserTotalCredited :: "int \<Rightarrow> db \<Rightarrow> int option" where
  "getUserTotalCredited i d =
     (let t = sum_list (map t_amount (filter (\<lambda>t. t_user t = i \<and> t_direction t = ''credit'' \<and>
                 t_type t \<noteq> ''refund'') (transactions d)))
      in if in_i64 t then Some t else None)"

text \<open>A comparison with a NULL request id holds for no row.\<close>

definition checkBillingLogExists :: "string option \<Rightarrow> db \<Rightarrow> bool" where
  "checkBillingLogExists rid d =
     (case rid of None \<Rightarrow> False
      | Some s \<Rightarrow> list_ex (\<lambda>b. bl_request_id b = Some s) (billing_logs d))"

definition createBillingLog :: "billing_log_row \<Rightarrow> db \<Rightarrow> db option" where
  "createBillingLog b d =
     (if fits 50 (bl_model b) \<and> fits 20 (bl_log_type b) \<and>
         (case bl_request_id b of None \<Rightarrow> True | Some s \<Rightarrow> fits 100 s) \<and>
         (case bl_user b of None \<Rightarrow> True | Some i \<Rightarrow> fk_user i d) \<and> fk_channel (bl_channel b) d
      then Some (d\<lparr>billing_logs := billing_logs d @ [b]\<rparr>) else None)"

definition createRequestLog :: "request_log_row \<Rightarrow> db \<Rightarrow> db option" where
  "createRequestLog r d =
     (if fits 100 (rl_request_id r) \<and> fits 32 (rl_provider r) \<and> fits 32 (rl_type r) \<and>
         fits 100 (rl_public_model r) \<and> fits 100 (rl_upstream_model r) \<and>
         \<not> list_ex (\<lambda>x. rl_request_id x = rl_request_id r) (request_logs d) \<and>
         fk_user (rl_user r) d \<and> fk_api_key (rl_api_key r) d \<and> fk_channel (rl_channel r) d
      then Some (d\<lparr>request_logs := request_logs d @ [r]\<rparr>) else None)"

text \<open>The one error code that the callers tell apart is 23505, the unique violation.\<close>

datatype sql_error = UniqueViolation | SqlError

text \<open>A jsonb column refuses a text with the character 0.\<close>

fun jsonb_ok :: "json \<Rightarrow> bool" where
  "jsonb_ok (JStr s) = list_all (\<lambda>c. (of_char c :: nat) \<noteq> 0) s"
| "jsonb_ok (JList xs) = list_all jsonb_ok xs"
| "jsonb_ok (JObj kvs) = list_all (\<lambda>(k, v). list_all (\<lambda>c. (of_char c :: nat) \<noteq> 0) k \<and> jsonb_ok v) kvs"
| "jsonb_ok _ = True"

definition getTransactionByEventID :: "string option \<Rightarrow> db \<Rightarrow> transaction_row option" where
  "getTransactionByEventID e d =
     (case e of None \<Rightarrow> None | Some s \<Rightarrow> find (\<lambda>t. t_event t = Some s) (transactions d))"

definition createTransaction :: "transaction_row \<Rightarrow> db \<Rightarrow> sql_error + int \<times> db" where
  "createTransaction t d =
     (if \<not> (fits 50 (t_type t) \<and> fits 20 (t_balance_type t) \<and> fits 20 (t_direction t) \<and>
            fits 50 (t_source_type t) \<and> fits 100 (t_source_id t) \<and> fits 20 (t_status t) \<and>
            (case t_event t of None \<Rightarrow> True | Some e \<Rightarrow> fits 120 e) \<and> jsonb_ok (t_metadata t))
      then Inl SqlError
      else if (case t_event t of None \<Rightarrow> False
               | Some e \<Rightarrow> e \<noteq> [] \<and> list_ex (\<lambda>x. t_event x = Some e) (transactions d))
      then Inl UniqueViolation
      else if \<not> fk_user (t_user t) d then Inl SqlError
      else (let i = int (length (transactions d)) + 1
            in Inr (i, d\<lparr>transactions := transactions d @ [t\<lparr>t_id := i\<rparr>]\<rparr>)))"

definition createBalanceLog :: "balance_log_row \<Rightarrow> db \<Rightarrow> db option" where
  "createBalanceLog b d =
     (if fits 20 (b_balance_type b) \<and> fits 50 (b_action b) \<and> fits 100 (b_operator b) \<and>
         fk_user (b_user b) d \<and>
         (case b_transaction b of None \<Rightarrow> True
          | Some i \<Rightarrow> list_ex (\<lambda>t. t_id t = i) (transactions d))
      then Some (d\<lparr>balance_logs := balance_logs d @ [b]\<rparr>) else None)"

section \<open>The settlement outbox\<close>

definition insertSettlementOutbox ::
  "int \<Rightarrow> string \<Rightarrow> settlement_request option \<Rightarrow> db \<Rightarrow> db option" where
  "insertSettlementOutbox now rid payload d =
     (if \<not> fits 100 rid then None
      else if list_ex (\<lambda>b. ob_request_id b = rid) (settlement_outbox d) then Some d
      else Some (d\<lparr>settlement_outbox := settlement_outbox d @
             [\<lparr>ob_id = int (length (settlement_outbox d)) + 1, ob_request_id = rid,
               ob_payload = payload, ob_attempts = 0, ob_created = now, ob_processed = None\<rparr>]\<rparr>))"

definition listPendingSettlementOutbox :: "nat \<Rightarrow> db \<Rightarrow> outbox_row list" where
  "listPendingSettlementOutbox limit d =
     take limit (sort_key ob_created (filter (\<lambda>b. ob_processed b = None) (settlement_outbox d)))"

definition markSettlementOutboxProcessed :: "int \<Rightarrow> int \<Rightarrow> db \<Rightarrow> db" where
  "markSettlementOutboxProcessed now i d =
     d\<lparr>settlement_outbox := map (\<lambda>b. if ob_id b = i then b\<lparr>ob_processed := Some now\<rparr> else b)
         (settlement_outbox d)\<rparr>"

definition incrementSettlementOutboxAttempts :: "int \<Rightarrow> db \<Rightarrow> db option" where
  "incrementSettlementOutboxAttempts i d =
     map_option (\<lambda>os. d\<lparr>settlement_outbox := os\<rparr>)
       (update_where (\<lambda>b. ob_id b = i)
          (\<lambda>b. if in_i32 (ob_attempts b + 1) then Some (b\<lparr>ob_attempts := ob_attempts b + 1\<rparr>)
               else None)
          (settlement_outbox d))"

section \<open>Asynchronous tasks and failure logs\<close>

definition getAsyncTaskByIDAndUser :: "string \<Rightarrow> int \<Rightarrow> db \<Rightarrow> async_task_row option" where
  "getAsyncTaskByIDAndUser i user d = find (\<lambda>t. at_id t = i \<and> at_user t = user) (async_tasks d)"

text \<open>The insert gives the row back; \<open>sub_deducted\<close> and the timestamps take their defaults.\<close>

definition createAsyncTask :: "int \<Rightarrow> async_task_row \<Rightarrow> db \<Rightarrow> (async_task_row \<times> db) option" where
  "createAsyncTask now t d =
     (if fits 36 (at_id t) \<and> fits 100 (at_request_id t) \<and> fits 32 (at_type t) \<and>
         fits 32 (at_provider t) \<and> fits 100 (at_model t) \<and> fits 20 (at_status t) \<and>
         (case at_upstream t of None \<Rightarrow> True | Some s \<Rightarrow> fits 100 s) \<and>
         \<not> list_ex (\<lambda>x. at_id x = at_id t \<or> at_request_id x = at_request_id t) (async_tasks d) \<and>
         list_all jsonb_ok [at_input t, at_output t, at_error t, at_metadata t] \<and>
         fk_user (at_user t) d \<and> fk_channel (at_channel t) d
      then (let row = t\<lparr>at_sub_deducted := 0, at_created := now, at_updated := now,
                        at_submitted := None, at_finished := None, at_canceled := None\<rparr>
            in Some (row, d\<lparr>async_tasks := async_tasks d @ [row]\<rparr>))
      else None)"

definition update_task ::
  "string \<Rightarrow> (async_task_row \<Rightarrow> async_task_row) \<Rightarrow> db \<Rightarrow> (async_task_row \<times> db) option" where
  "update_task i f d =
     (case find (\<lambda>t. at_id t = i) (async_tasks d) of
        None \<Rightarrow> None
      | Some t \<Rightarrow> Some (f t, d\<lparr>async_tasks :=
          map (\<lambda>x. if at_id x = i then f x else x) (async_tasks d)\<rparr>))"

definition markAsyncTaskSubmitted ::
  "int \<Rightarrow> string \<Rightarrow> int option \<Rightarrow> string \<Rightarrow> string \<Rightarrow> string option \<Rightarrow> json \<Rightarrow> json \<Rightarrow> db
   \<Rightarrow> (async_task_row \<times> db) option" where
  "markAsyncTaskSubmitted now i ch prov status upstream output metadata d =
     (if fits 32 prov \<and> fits 20 status \<and> (case upstream of None \<Rightarrow> True | Some s \<Rightarrow> fits 100 s) \<and>
         jsonb_ok output \<and> jsonb_ok metadata \<and> fk_channel ch d
      then update_task i (\<lambda>t. t\<lparr>at_channel := ch, at_provider := prov, at_status := status,
             at_upstream := upstream, at_output := output, at_metadata := metadata,
             at_submitted := Some now, at_updated := now\<rparr>) d
      else None)"

definition markAsyncTaskStatus ::
  "int \<Rightarrow> string \<Rightarrow> string \<Rightarrow> json \<Rightarrow> json \<Rightarrow> json \<Rightarrow> int \<Rightarrow> db \<Rightarrow> (async_task_row \<times> db) option"
where
  "markAsyncTaskStatus now i status output err metadata actual d =
     (if fits 20 status \<and> list_all jsonb_ok [output, err, metadata]
      then update_task i (\<lambda>t. t\<lparr>at_status := status, at_output := output, at_error := err,
             at_metadata := metadata, at_actual_cost := actual, at_updated := now,
             at_finished := (if status \<in> {''succeeded'', ''failed'', ''canceled''}
                             then Some now else at_finished t),
             at_canceled := (if status = ''canceled'' then Some now else at_canceled t)\<rparr>) d
      else None)"

definition setAsyncTaskSubDeducted :: "string \<Rightarrow> int \<Rightarrow> db \<Rightarrow> db" where
  "setAsyncTaskSubDeducted i x d =
     d\<lparr>async_tasks := map (\<lambda>t. if at_id t = i then t\<lparr>at_sub_deducted := x\<rparr> else t)
         (async_tasks d)\<rparr>"

definition getAsyncTaskSubDeducted :: "string \<Rightarrow> db \<Rightarrow> int option" where
  "getAsyncTaskSubDeducted i d = map_option at_sub_deducted (find (\<lambda>t. at_id t = i) (async_tasks d))"

definition createChannelFailureLog :: "channel_failure_row \<Rightarrow> db \<Rightarrow> db option" where
  "createChannelFailureLog r d =
     (if fits 100 (cf_request_id r) \<and> fits 100 (cf_model r) \<and> fits 32 (cf_provider r) \<and>
         fits 255 (cf_base_url r) \<and> fits 50 (cf_error_type r) \<and> fits 20 (cf_circuit r) \<and>
         fk_channel (Some (cf_channel r)) d
      then Some (d\<lparr>channel_failure_logs := channel_failure_logs d @ [r]\<rparr>) else None)"

definition createModelFailureLog :: "model_failure_row \<Rightarrow> db \<Rightarrow> db option" where
  "createModelFailureLog r d =
     (if fits 100 (mf_request_id r) \<and> fits 100 (mf_model r) \<and> fits 32 (mf_provider r) \<and>
         fits 50 (mf_error_type r) \<and> fits 50 (mf_error_code r) \<and>
         fk_user (mf_user r) d \<and> fk_api_key (mf_api_key r) d
      then Some (d\<lparr>model_failure_logs := model_failure_logs d @ [r]\<rparr>) else None)"

end
