(* ===== verification/Waterfall.thy ===== *)
theory Waterfall
  imports Prelude
begin

text \<open>
  The abstract specification of every split of an amount over pools in this program: the pools
  are visited in order and each gives what is still missing, up to what it has. The Lua scripts
  pre_deduct.lua, compensate.lua and refund.lua and the worker's \<open>splitActual3\<close> are shown to
  compute it, over balances, over caps and in either order; the laws here are stated once.
\<close>

definition share :: "int \<Rightarrow> int \<Rightarrow> int" where
  "share b amount = (if b \<le> 0 \<or> amount \<le> 0 then 0 else min b amount)"

fun waterfall :: "int \<Rightarrow> int list \<Rightarrow> int list" where
  "waterfall amount [] = []"
| "waterfall amount (b # bs) = share b amount # waterfall (amount - share b amount) bs"

definition capacity :: "int list \<Rightarrow> int" where
  "capacity bs = sum_list (map (max 0) bs)"

lemma share_bounds [simp]: "0 \<le> share b a" "share b a \<le> max 0 b" "share b a \<le> max 0 a"
  by (auto simp: share_def)

lemma share_nonneg_le: "0 \<le> a \<Longrightarrow> share b a \<le> a"
  by (auto simp: share_def)

lemma waterfall_length [simp]: "length (waterfall a bs) = length bs"
  by (induction a bs rule: waterfall.induct) auto

lemma waterfall_nonneg: "x \<in> set (waterfall a bs) \<Longrightarrow> 0 \<le> x"
  by (induction a bs rule: waterfall.induct) auto

lemma capacity_simps [simp]: "capacity [] = 0" "capacity (b # bs) = max 0 b + capacity bs"
  "capacity (as @ bs) = capacity as + capacity bs"
  by (simp_all add: capacity_def)

lemma capacity_nonneg [simp]: "0 \<le> capacity bs"
  by (induction bs) auto

lemma capacity_rev [simp]: "capacity (rev bs) = capacity bs"
  by (induction bs) auto

lemma waterfall_none: "a \<le> 0 \<Longrightarrow> waterfall a bs = replicate (length bs) 0"
  by (induction bs) (auto simp: share_def)

lemma share_id: "0 \<le> b \<Longrightarrow> b \<le> a \<Longrightarrow> share b a = b"
  by (auto simp: share_def)

lemma share_all: "0 \<le> a \<Longrightarrow> a \<le> b \<Longrightarrow> share b a = a"
  by (auto simp: share_def)

text \<open>Together the pools give the amount, or all they have if that is less.\<close>

lemma waterfall_sum: "sum_list (waterfall a bs) = min (max 0 a) (capacity bs)"
proof (induction a bs rule: waterfall.induct)
  case (2 a b bs)
  moreover obtain c where "capacity bs = c" "0 \<le> c" by simp
  ultimately show ?case
    by (cases "b \<le> 0 \<or> a \<le> 0") (auto simp: share_def min_def max_def)
qed simp

text \<open>No pool gives more than it has, so no balance goes below zero.\<close>

lemma waterfall_le: "i < length bs \<Longrightarrow> waterfall a bs ! i \<le> max 0 (bs ! i)"
proof (induction a bs arbitrary: i rule: waterfall.induct)
  case (2 a b bs)
  then show ?case by (cases i) auto
qed simp

text \<open>A pool is touched only after every pool before it is used up.\<close>

lemma waterfall_order:
  "i < j \<Longrightarrow> j < length bs \<Longrightarrow> 0 < waterfall a bs ! j \<Longrightarrow> waterfall a bs ! i = max 0 (bs ! i)"
proof (induction a bs arbitrary: i j rule: waterfall.induct)
  case (2 a b bs)
  then obtain j' where j: "j = Suc j'" by (cases j) auto
  show ?case
  proof (cases i)
    case 0
    have pos: "0 < waterfall (a - share b a) bs ! j'" using 2 j by simp
    then have "\<not> a - share b a \<le> 0"
      using waterfall_none [of "a - share b a" bs] 2 j by (auto simp: nth_replicate)
    then have "share b a = max 0 b" by (auto simp: share_def split: if_splits)
    with 0 show ?thesis by simp
  next
    case (Suc i')
    with 2 j show ?thesis by simp
  qed
qed simp

lemma waterfall_append:
  "waterfall a (xs @ ys) = waterfall a xs @ waterfall (a - sum_list (waterfall a xs)) ys"
  by (induction a xs rule: waterfall.induct) (auto simp: algebra_simps)

lemma waterfall_full: "(\<And>b. b \<in> set bs \<Longrightarrow> 0 \<le> b) \<Longrightarrow> capacity bs \<le> a \<Longrightarrow> waterfall a bs = bs"
proof (induction a bs rule: waterfall.induct)
  case (2 a b bs)
  have b: "0 \<le> b" using 2 by simp
  then have le: "b + capacity bs \<le> a" using 2 by simp
  then have "share b a = b" using b capacity_nonneg [of bs] by (intro share_id) linarith+
  then show ?case using 2 le by simp
qed simp

text \<open>
  Keeping an amount from the front and giving the rest back from the rear are complementary:
  what the front keeps is exactly what the rear does not get back.
\<close>

lemma waterfall_complement:
  assumes "\<And>b. b \<in> set bs \<Longrightarrow> 0 \<le> b" and "0 \<le> a" and "a \<le> capacity bs"
  shows "map2 (+) (waterfall a bs) (rev (waterfall (capacity bs - a) (rev bs))) = bs"
  using assms
proof (induction bs arbitrary: a)
  case (Cons b bs)
  then have b: "0 \<le> b" and cap: "max 0 b = b" by simp_all
  have split: "waterfall (b + capacity bs - a) (rev bs @ [b]) =
      waterfall (b + capacity bs - a) (rev bs) @
      [share b (b + capacity bs - a - sum_list (waterfall (b + capacity bs - a) (rev bs)))]"
    by (simp add: waterfall_append)
  show ?case
  proof (cases "a \<le> b")
    case True
    have front: "share b a = a" using Cons.prems True by (simp add: share_all)
    have rear: "waterfall (b + capacity bs - a) (rev bs) = rev bs"
      using Cons.prems True by (intro waterfall_full) auto
    have sm: "sum_list (waterfall (b + capacity bs - a) (rev bs)) = capacity bs"
      using True by (simp add: waterfall_sum min_def)
    have "share b (b - a) = b - a" using Cons.prems True by (intro share_all) auto
    moreover have "waterfall 0 bs = replicate (length bs) 0" by (simp add: waterfall_none)
    moreover have "map2 (+) (replicate (length bs) 0) bs = bs"
      by (simp add: list_eq_iff_nth_eq)
    ultimately show ?thesis using front sm rear by (simp add: cap split)
  next
    case False
    have front: "share b a = b" using b False by (simp add: share_id)
    have sm: "sum_list (waterfall (b + capacity bs - a) (rev bs)) = b + capacity bs - a"
      using Cons.prems False by (simp add: waterfall_sum)
    have "map2 (+) (waterfall (a - b) bs) (rev (waterfall (capacity bs - (a - b)) (rev bs))) = bs"
      using Cons.prems False by (intro Cons.IH) auto
    moreover have "capacity bs - (a - b) = b + capacity bs - a" by simp
    moreover have "share b 0 = 0" by (simp add: share_def)
    ultimately show ?thesis using front sm by (simp add: cap split)
  qed
qed simp

end
