(* ===== verification/RedisApi.thy ===== *)
theory RedisApi
  imports Prelude
begin

text \<open>
  The Redis commands that the gateway and its Lua scripts issue. Redis is a service, so it is a
  parameter: a record of commands over an abstract keyspace \<open>'r\<close>. What the program relies on is
  the locale \<open>redis_server\<close>, which states the documented effect of GET, SET, DEL, INCRBY, DECRBY
  and EXPIRE on keys that hold decimal integers. The locale is interpreted on an in-memory
  keyspace, which the witnesses of the component theories run on.
\<close>

section \<open>Commands\<close>

record 'r redis_api =
  rd_get :: "'r \<Rightarrow> string \<Rightarrow> string option"
  rd_set :: "string \<Rightarrow> string \<Rightarrow> 'r \<Rightarrow> 'r"
  rd_del :: "string list \<Rightarrow> 'r \<Rightarrow> 'r"
  rd_incrby :: "string \<Rightarrow> int \<Rightarrow> 'r \<Rightarrow> int option \<times> 'r"
  rd_decrby :: "string \<Rightarrow> int \<Rightarrow> 'r \<Rightarrow> int option \<times> 'r"
  rd_expire :: "string \<Rightarrow> int \<Rightarrow> 'r \<Rightarrow> 'r"

text \<open>A key holds the integer \<open>n\<close>: it has the decimal text of \<open>n\<close>.\<close>

definition holds :: "'r redis_api \<Rightarrow> 'r \<Rightarrow> string \<Rightarrow> int \<Rightarrow> bool" where
  "holds R r k n \<longleftrightarrow> rd_get R r k = Some (show_int n)"

text \<open>The integer that INCRBY starts from: an absent key counts as 0.\<close>

definition counts_as :: "'r redis_api \<Rightarrow> 'r \<Rightarrow> string \<Rightarrow> int \<Rightarrow> bool" where
  "counts_as R r k n \<longleftrightarrow> holds R r k n \<or> (rd_get R r k = None \<and> n = 0)"

locale redis_server =
  fixes R :: "'r redis_api"
  assumes get_set: "rd_get R (rd_set R k v r) k' = (if k' = k then Some v else rd_get R r k')"
    and get_del: "rd_get R (rd_del R ks r) k = (if k \<in> set ks then None else rd_get R r k)"
    and incrby_reply: "counts_as R r k m \<Longrightarrow> in_i64 m \<Longrightarrow> in_i64 n \<Longrightarrow> in_i64 (m + n) \<Longrightarrow>
      fst (rd_incrby R k n r) = Some (m + n)"
    and incrby_get: "counts_as R r k m \<Longrightarrow> in_i64 m \<Longrightarrow> in_i64 n \<Longrightarrow> in_i64 (m + n) \<Longrightarrow>
      rd_get R (snd (rd_incrby R k n r)) k' =
        (if k' = k then Some (show_int (m + n)) else rd_get R r k')"
    and decrby_reply: "counts_as R r k m \<Longrightarrow> in_i64 m \<Longrightarrow> in_i64 n \<Longrightarrow> in_i64 (m - n) \<Longrightarrow>
      fst (rd_decrby R k n r) = Some (m - n)"
    and decrby_get: "counts_as R r k m \<Longrightarrow> in_i64 m \<Longrightarrow> in_i64 n \<Longrightarrow> in_i64 (m - n) \<Longrightarrow>
      rd_get R (snd (rd_decrby R k n r)) k' =
        (if k' = k then Some (show_int (m - n)) else rd_get R r k')"
    and expire_get: "0 < t \<Longrightarrow> rd_get R (rd_expire R k t r) k' = rd_get R r k'"
begin

lemma incrby_holds:
  assumes "holds R r k m" "in_i64 m" "in_i64 n" "in_i64 (m + n)"
  obtains r' where "rd_incrby R k n r = (Some (m + n), r')"
    and "\<And>k'. rd_get R r' k' = (if k' = k then Some (show_int (m + n)) else rd_get R r k')"
proof -
  have c: "counts_as R r k m" using assms(1) by (simp add: counts_as_def)
  show thesis
    using that [of "snd (rd_incrby R k n r)"] incrby_reply [OF c assms(2-4)]
      incrby_get [OF c assms(2-4)]
    by (metis prod.collapse)
qed

lemma decrby_holds:
  assumes "holds R r k m" "in_i64 m" "in_i64 n" "in_i64 (m - n)"
  obtains r' where "rd_decrby R k n r = (Some (m - n), r')"
    and "\<And>k'. rd_get R r' k' = (if k' = k then Some (show_int (m - n)) else rd_get R r k')"
proof -
  have c: "counts_as R r k m" using assms(1) by (simp add: counts_as_def)
  show thesis
    using that [of "snd (rd_decrby R k n r)"] decrby_reply [OF c assms(2-4)]
      decrby_get [OF c assms(2-4)]
    by (metis prod.collapse)
qed

end

section \<open>An in-memory keyspace\<close>

type_synonym keyspace = "string \<Rightarrow> string option"

definition mem_incrby :: "string \<Rightarrow> int \<Rightarrow> keyspace \<Rightarrow> int option \<times> keyspace" where
  "mem_incrby k n r =
     (case (case r k of None \<Rightarrow> Some 0 | Some t \<Rightarrow> parse_int 64 t) of
        None \<Rightarrow> (None, r)
      | Some m \<Rightarrow> if in_i64 (m + n) then (Some (m + n), r(k \<mapsto> show_int (m + n))) else (None, r))"

definition mem_redis :: "keyspace redis_api" where
  "mem_redis = \<lparr>rd_get = (\<lambda>r k. r k), rd_set = (\<lambda>k v r. r(k \<mapsto> v)),
     rd_del = (\<lambda>ks r k. if k \<in> set ks then None else r k),
     rd_incrby = mem_incrby, rd_decrby = (\<lambda>k n r. mem_incrby k (- n) r),
     rd_expire = (\<lambda>k t r. if t \<le> 0 then r(k := None) else r)\<rparr>"

lemma mem_redis_get [simp]: "rd_get mem_redis r k = r k"
  by (simp add: mem_redis_def)

lemma mem_incrby_counts:
  assumes "counts_as mem_redis r k m" "in_i64 m" "in_i64 (m + n)"
  shows "mem_incrby k n r = (Some (m + n), r(k \<mapsto> show_int (m + n)))"
  using assms by (auto simp: counts_as_def holds_def mem_incrby_def)

interpretation mem: redis_server mem_redis
proof
  fix r :: keyspace and k k' :: string and m n :: int
  assume a: "counts_as mem_redis r k m" "in_i64 m" "in_i64 n"
  show "fst (rd_incrby mem_redis k n r) = Some (m + n)"
    and "rd_get mem_redis (snd (rd_incrby mem_redis k n r)) k' =
        (if k' = k then Some (show_int (m + n)) else rd_get mem_redis r k')"
    if "in_i64 (m + n)"
    using mem_incrby_counts [OF a(1,2) that] by (simp_all add: mem_redis_def)
  show "fst (rd_decrby mem_redis k n r) = Some (m - n)"
    and "rd_get mem_redis (snd (rd_decrby mem_redis k n r)) k' =
        (if k' = k then Some (show_int (m - n)) else rd_get mem_redis r k')"
    if "in_i64 (m - n)"
    using mem_incrby_counts [of r k m "- n"] a that by (simp_all add: mem_redis_def)
qed (simp_all add: mem_redis_def)

end
