(* ===== verification/LuaScripts.thy ===== *)
theory LuaScripts
  imports GoFloat Waterfall RedisApi
begin

text \<open>
  The Lua scripts that Redis runs atomically: billing/lua/pre_deduct.lua, compensate.lua,
  refund.lua, credit_cache.lua and middleware/lua/rate_limit.lua. A script is a function of the
  commands \<open>R\<close>, KEYS, ARGV and the keyspace; \<open>None\<close> is a script error, which leaves the writes
  made so far in place. Lua numbers are doubles, so every sum is rounded to 53 bits. Arguments
  that Go passes as int64 are integers here; \<open>tonumber\<close> on a stored value reads decimal text.

  The lemmas show that on keys holding integers up to 2^53 the three balance scripts are the
  waterfall of theory Waterfall, and leave every other key alone.
\<close>

section \<open>The scripts\<close>

definition lua_num :: "string \<Rightarrow> int option" where
  "lua_num s = map_option rnd53 (read_int s)"

text \<open>The local function \<open>take\<close>: what was taken and what is still missing.\<close>

definition lua_take ::
  "'r redis_api \<Rightarrow> string \<Rightarrow> int \<Rightarrow> bool \<Rightarrow> int \<Rightarrow> 'r \<Rightarrow> (int \<times> int) option \<times> 'r" where
  "lua_take R key bal enabled rem r =
     (if \<not> enabled \<or> bal \<le> 0 \<or> rem \<le> 0 then (Some (0, rem), r)
      else let t = (if bal > rem then rem else bal) in
        case rd_decrby R key t r of
          (None, r') \<Rightarrow> (None, r')
        | (Some _, r') \<Rightarrow> (Some (t, rnd53 (rem - t)), r'))"

definition lua_take3 ::
  "'r redis_api \<Rightarrow> string list \<Rightarrow> int \<times> int \<times> int \<Rightarrow> bool \<times> bool \<times> bool \<Rightarrow> int \<Rightarrow> 'r
   \<Rightarrow> (int \<times> int \<times> int) option \<times> 'r" where
  "lua_take3 R ks bals uses rem r =
     (case bals of (sp, gr, ca) \<Rightarrow> case uses of (use_sub, use_grant, use_cash) \<Rightarrow>
      case lua_take R (ks ! 0) sp use_sub rem r of
        (None, r1) \<Rightarrow> (None, r1)
      | (Some (p, rem1), r1) \<Rightarrow>
        (case lua_take R (ks ! 1) gr use_grant rem1 r1 of
           (None, r2) \<Rightarrow> (None, r2)
         | (Some (g, rem2), r2) \<Rightarrow>
           (case lua_take R (ks ! 2) ca use_cash rem2 r2 of
              (None, r3) \<Rightarrow> (None, r3)
            | (Some (c, _), r3) \<Rightarrow> (Some (p, g, c), r3))))"

definition policy_uses :: "string \<Rightarrow> bool \<times> bool \<times> bool" where
  "policy_uses policy =
     (policy \<noteq> ''cash_only'', policy \<noteq> ''cash_only'', policy \<noteq> ''grant_only'')"

text \<open>Adding a stored value that is not a number is a script error.\<close>

definition lua_add_if :: "bool \<Rightarrow> int option \<Rightarrow> int \<Rightarrow> int option" where
  "lua_add_if use v avail =
     (if use then map_option (\<lambda>x. rnd53 (avail + x)) v else Some avail)"

definition num_or_zero :: "int option \<Rightarrow> int" where
  "num_or_zero v = (case v of None \<Rightarrow> 0 | Some x \<Rightarrow> x)"

definition lua_pre_deduct ::
  "'r redis_api \<Rightarrow> string list \<Rightarrow> int \<Rightarrow> string \<Rightarrow> 'r \<Rightarrow> int list option \<times> 'r" where
  "lua_pre_deduct R ks cost policy r =
     (case (rd_get R r (ks ! 0), rd_get R r (ks ! 1), rd_get R r (ks ! 2)) of
        (Some sp_str, Some gr_str, Some ca_str) \<Rightarrow>
          (let sp = lua_num sp_str; gr = lua_num gr_str; ca = lua_num ca_str;
               cost = rnd53 cost;
               (use_sub, use_grant, use_cash) = policy_uses policy
           in case Option.bind (Option.bind (lua_add_if use_sub sp 0) (lua_add_if use_grant gr))
                     (lua_add_if use_cash ca) of
                None \<Rightarrow> (None, r)
              | Some avail \<Rightarrow>
                  if avail < cost then (Some [- 1, 0, 0, 0], r)
                  else (case lua_take3 R ks (num_or_zero sp, num_or_zero gr, num_or_zero ca)
                               (use_sub, use_grant, use_cash) cost r of
                          (None, r') \<Rightarrow> (None, r')
                        | (Some (p, g, c), r') \<Rightarrow> (Some [1, p, g, c], r')))
      | _ \<Rightarrow> (Some [- 2, 0, 0, 0], r))"

text \<open>
  In compensate.lua an absent key reads as 0 and a value that is not a number fails when it is
  compared, which happens only where the pool takes part.
\<close>

definition lua_get_or_zero :: "'r redis_api \<Rightarrow> 'r \<Rightarrow> string \<Rightarrow> int option" where
  "lua_get_or_zero R r k = (case rd_get R r k of None \<Rightarrow> Some 0 | Some s \<Rightarrow> lua_num s)"

definition lua_take_opt ::
  "'r redis_api \<Rightarrow> string \<Rightarrow> int option \<Rightarrow> bool \<Rightarrow> int \<Rightarrow> 'r \<Rightarrow> (int \<times> int) option \<times> 'r" where
  "lua_take_opt R key bal enabled rem r =
     (if enabled \<and> bal = None then (None, r)
      else lua_take R key (num_or_zero bal) enabled rem r)"

definition lua_compensate ::
  "'r redis_api \<Rightarrow> string list \<Rightarrow> int \<Rightarrow> string \<Rightarrow> 'r \<Rightarrow> int list option \<times> 'r" where
  "lua_compensate R ks amount policy r =
     (let amount = rnd53 amount in
      if amount \<le> 0 then (Some [0, 0, 0], r)
      else
        let sp = lua_get_or_zero R r (ks ! 0); gr = lua_get_or_zero R r (ks ! 1);
            ca = lua_get_or_zero R r (ks ! 2);
            (use_sub, use_grant, use_cash) = policy_uses policy
        in case lua_take_opt R (ks ! 0) sp use_sub amount r of
             (None, r1) \<Rightarrow> (None, r1)
           | (Some (p, rem1), r1) \<Rightarrow>
             (case lua_take_opt R (ks ! 1) gr use_grant rem1 r1 of
                (None, r2) \<Rightarrow> (None, r2)
              | (Some (g, rem2), r2) \<Rightarrow>
                (case lua_take_opt R (ks ! 2) ca use_cash rem2 r2 of
                   (None, r3) \<Rightarrow> (None, r3)
                 | (Some (c, _), r3) \<Rightarrow> (Some [p, g, c], r3))))"

text \<open>The local function \<open>give\<close> of refund.lua, and the script: cash, then grant, then sub.\<close>

definition lua_give ::
  "'r redis_api \<Rightarrow> string \<Rightarrow> int \<Rightarrow> int \<Rightarrow> 'r \<Rightarrow> int option \<times> 'r" where
  "lua_give R key cap rem r =
     (if cap \<le> 0 \<or> rem \<le> 0 then (Some rem, r)
      else let t = (if cap > rem then rem else cap) in
        case rd_incrby R key t r of
          (None, r') \<Rightarrow> (None, r')
        | (Some _, r') \<Rightarrow> (Some (rnd53 (rem - t)), r'))"

definition lua_refund ::
  "'r redis_api \<Rightarrow> string list \<Rightarrow> int \<Rightarrow> int \<Rightarrow> int \<Rightarrow> int \<Rightarrow> 'r \<Rightarrow> int option \<times> 'r" where
  "lua_refund R ks amt pd gd cd r =
     (let amt = rnd53 amt; pd = rnd53 pd; gd = rnd53 gd; cd = rnd53 cd in
      if amt \<le> 0 then (Some 1, r)
      else case lua_give R (ks ! 2) cd amt r of
             (None, r1) \<Rightarrow> (None, r1)
           | (Some rem1, r1) \<Rightarrow>
             (case lua_give R (ks ! 1) gd rem1 r1 of
                (None, r2) \<Rightarrow> (None, r2)
              | (Some rem2, r2) \<Rightarrow>
                (case lua_give R (ks ! 0) pd rem2 r2 of
                   (None, r3) \<Rightarrow> (None, r3)
                 | (Some _, r3) \<Rightarrow> (Some 1, r3))))"

definition lua_credit_cache ::
  "'r redis_api \<Rightarrow> string \<Rightarrow> int \<Rightarrow> 'r \<Rightarrow> int option \<times> 'r" where
  "lua_credit_cache R key delta r =
     (if rd_get R r key \<noteq> None then rd_incrby R key delta r else (Some (- 1), r))"

text \<open>
  rate_limit.lua: a counter that starts its window with the first request; only a counter that
  already exists is compared with the limit.
\<close>

definition lua_rate_limit ::
  "'r redis_api \<Rightarrow> string \<Rightarrow> int \<Rightarrow> int \<Rightarrow> int \<Rightarrow> 'r \<Rightarrow> int option \<times> 'r" where
  "lua_rate_limit R key window max_req inc r =
     (let max_req = rnd53 max_req; inc = rnd53 inc; current = rd_get R r key;
          admit = (case rd_incrby R key inc r of
              (None, r') \<Rightarrow> (None, r')
            | (Some _, r') \<Rightarrow> (Some 1, if current = None then rd_expire R key window r' else r'))
      in case current of
           None \<Rightarrow> admit
         | Some s \<Rightarrow>
             (case lua_num s of
                None \<Rightarrow> (None, r)
              | Some cur \<Rightarrow> if rnd53 (cur + inc) > max_req then (Some 0, r) else admit))"

section \<open>Integers that a double holds exactly\<close>

named_theorems exact_int "integers within the 53 bits of a Lua number"

definition exact :: "int \<Rightarrow> bool" where
  "exact x \<longleftrightarrow> \<bar>x\<bar> \<le> 2 ^ 53"

lemma exact_rnd53 [simp, exact_int]: "exact x \<Longrightarrow> rnd53 x = x"
  by (simp add: exact_def)

lemma exact_in_i64 [simp, exact_int]: "exact x \<Longrightarrow> in_i64 x"
  by (auto simp: exact_def in_i64_def)

lemma exact_zero [simp]: "exact 0"
  by (simp add: exact_def)

lemma exact_between: "exact a \<Longrightarrow> 0 \<le> b \<Longrightarrow> b \<le> \<bar>a\<bar> \<Longrightarrow> exact b"
  by (simp add: exact_def)

lemma exact_share [simp]: "exact a \<Longrightarrow> exact (share b a)"
  by (auto simp: exact_def share_def)

lemma exact_rest [simp]: "exact a \<Longrightarrow> exact (a - share b a)"
  by (auto simp: exact_def share_def)

lemma exact_left [simp]: "exact b \<Longrightarrow> exact (b - share b a)"
  by (auto simp: exact_def share_def)

lemma lua_num_show [simp]: "exact n \<Longrightarrow> lua_num (show_int n) = Some n"
  by (simp add: lua_num_def)

section \<open>The balance scripts are the waterfall\<close>

definition pools_are :: "'r redis_api \<Rightarrow> string list \<Rightarrow> 'r \<Rightarrow> int \<times> int \<times> int \<Rightarrow> bool" where
  "pools_are R ks r b \<longleftrightarrow> (case b of (s, g, c) \<Rightarrow>
     holds R r (ks ! 0) s \<and> holds R r (ks ! 1) g \<and> holds R r (ks ! 2) c)"

text \<open>Three different keys, as the three pools of one user have.\<close>

definition three_keys :: "string list \<Rightarrow> bool" where
  "three_keys ks \<longleftrightarrow> ks ! 0 \<noteq> ks ! 1 \<and> ks ! 0 \<noteq> ks ! 2 \<and> ks ! 1 \<noteq> ks ! 2"

definition usable :: "string \<Rightarrow> int \<times> int \<times> int \<Rightarrow> int list" where
  "usable policy b = (case b of (s, g, c) \<Rightarrow>
     [if policy \<noteq> ''cash_only'' then s else 0, if policy \<noteq> ''cash_only'' then g else 0,
      if policy \<noteq> ''grant_only'' then c else 0])"

definition exact_pools :: "int \<times> int \<times> int \<Rightarrow> bool" where
  "exact_pools b \<longleftrightarrow> (case b of (s, g, c) \<Rightarrow>
     exact s \<and> exact g \<and> exact c \<and> exact (s + g) \<and> exact (s + g + c))"

definition minus_pools :: "int \<times> int \<times> int \<Rightarrow> int list \<Rightarrow> int \<times> int \<times> int" where
  "minus_pools b ts = (case b of (s, g, c) \<Rightarrow> (s - ts ! 0, g - ts ! 1, c - ts ! 2))"

definition plus_pools :: "int \<times> int \<times> int \<Rightarrow> int list \<Rightarrow> int \<times> int \<times> int" where
  "plus_pools b ts = (case b of (s, g, c) \<Rightarrow> (s + ts ! 0, g + ts ! 1, c + ts ! 2))"

text \<open>Two keyspaces agree outside the three keys.\<close>

definition same_elsewhere :: "'r redis_api \<Rightarrow> string list \<Rightarrow> 'r \<Rightarrow> 'r \<Rightarrow> bool" where
  "same_elsewhere R ks r r' \<longleftrightarrow>
     (\<forall>k. k \<noteq> ks ! 0 \<longrightarrow> k \<noteq> ks ! 1 \<longrightarrow> k \<noteq> ks ! 2 \<longrightarrow> rd_get R r' k = rd_get R r k)"

context redis_server
begin

lemma lua_take_spec:
  assumes "holds R r k b" "exact b" "exact rem"
  obtains r' where
    "lua_take R k b enabled rem r =
       (Some (share (if enabled then b else 0) rem, rem - share (if enabled then b else 0) rem), r')"
    and "\<And>k'. rd_get R r' k' =
      (if k' = k then Some (show_int (b - share (if enabled then b else 0) rem)) else rd_get R r k')"
proof (cases "\<not> enabled \<or> b \<le> 0 \<or> rem \<le> 0")
  case True
  then have "share (if enabled then b else 0) rem = 0" by (auto simp: share_def)
  with True assms(1) show thesis
    by (intro that [of r]) (auto simp: lua_take_def holds_def)
next
  case False
  let ?t = "share b rem"
  have t: "(if b > rem then rem else b) = ?t" using False by (auto simp: share_def)
  have "in_i64 b" "in_i64 ?t" "in_i64 (b - ?t)" using assms by simp_all
  then obtain r' where dec: "rd_decrby R k ?t r = (Some (b - ?t), r')"
    and get: "\<And>k'. rd_get R r' k' = (if k' = k then Some (show_int (b - ?t)) else rd_get R r k')"
    by (rule decrby_holds [OF assms(1)]) blast
  have "lua_take R k b enabled rem r = (Some (?t, rem - ?t), r')"
    using False dec assms(2,3) by (simp add: lua_take_def t Let_def)
  with False get show thesis by (intro that [of r']) simp_all
qed

lemma lua_give_spec:
  assumes "holds R r k b" "exact b" "exact rem" "exact cap" "exact (b + share cap rem)"
  obtains r' where
    "lua_give R k cap rem r = (Some (rem - share cap rem), r')"
    and "\<And>k'. rd_get R r' k' =
      (if k' = k then Some (show_int (b + share cap rem)) else rd_get R r k')"
proof (cases "cap \<le> 0 \<or> rem \<le> 0")
  case True
  then have "share cap rem = 0" by (auto simp: share_def)
  with True assms(1) show thesis
    by (intro that [of r]) (auto simp: lua_give_def holds_def)
next
  case False
  let ?t = "share cap rem"
  have t: "(if cap > rem then rem else cap) = ?t" using False by (auto simp: share_def)
  have "in_i64 b" "in_i64 ?t" "in_i64 (b + ?t)" using assms by simp_all
  then obtain r' where inc: "rd_incrby R k ?t r = (Some (b + ?t), r')"
    and get: "\<And>k'. rd_get R r' k' = (if k' = k then Some (show_int (b + ?t)) else rd_get R r k')"
    by (rule incrby_holds [OF assms(1)]) blast
  have "lua_give R k cap rem r = (Some (rem - ?t), r')"
    using False inc assms by (simp add: lua_give_def t Let_def)
  with get show thesis by (intro that [of r']) simp_all
qed

lemma lua_take3_spec:
  assumes "three_keys ks" "pools_are R ks r b" "exact_pools b" "exact rem"
    and b: "b = (s, g, c)"
    and ts: "ts = waterfall rem [if u1 then s else 0, if u2 then g else 0, if u3 then c else 0]"
  obtains r' where
    "lua_take3 R ks b (u1, u2, u3) rem r = (Some (ts ! 0, ts ! 1, ts ! 2), r')"
    and "pools_are R ks r' (minus_pools b ts)" and "same_elsewhere R ks r r'"
proof -
  define t1 where "t1 = share (if u1 then s else 0) rem"
  define t2 where "t2 = share (if u2 then g else 0) (rem - t1)"
  define t3 where "t3 = share (if u3 then c else 0) (rem - t1 - t2)"
  have h: "holds R r (ks ! 0) s" "holds R r (ks ! 1) g" "holds R r (ks ! 2) c"
    and e: "exact s" "exact g" "exact c"
    using assms(2,3) b by (simp_all add: pools_are_def exact_pools_def)
  have d: "ks ! 1 \<noteq> ks ! 0" "ks ! 2 \<noteq> ks ! 0" "ks ! 2 \<noteq> ks ! 1" "ks ! 0 \<noteq> ks ! 1" "ks ! 0 \<noteq> ks ! 2"
    "ks ! 1 \<noteq> ks ! 2"
    using assms(1) by (auto simp: three_keys_def)
  obtain r1 where r1: "lua_take R (ks ! 0) s u1 rem r = (Some (t1, rem - t1), r1)"
    and g1: "\<And>k'. rd_get R r1 k' =
        (if k' = ks ! 0 then Some (show_int (s - t1)) else rd_get R r k')"
    unfolding t1_def by (rule lua_take_spec [OF h(1) e(1) assms(4), of u1]) blast
  have h2: "holds R r1 (ks ! 1) g" and e1: "exact (rem - t1)"
    using h d g1 assms(4) by (simp_all add: holds_def t1_def)
  obtain r2 where r2: "lua_take R (ks ! 1) g u2 (rem - t1) r1 = (Some (t2, rem - t1 - t2), r2)"
    and g2: "\<And>k'. rd_get R r2 k' =
        (if k' = ks ! 1 then Some (show_int (g - t2)) else rd_get R r1 k')"
    unfolding t2_def by (rule lua_take_spec [OF h2 e(2) e1, of u2]) blast
  have h3: "holds R r2 (ks ! 2) c" and e2: "exact (rem - t1 - t2)"
    using h d g1 g2 e1 by (simp_all add: holds_def t2_def)
  obtain r3 where r3: "lua_take R (ks ! 2) c u3 (rem - t1 - t2) r2 =
        (Some (t3, rem - t1 - t2 - t3), r3)"
    and g3: "\<And>k'. rd_get R r3 k' =
        (if k' = ks ! 2 then Some (show_int (c - t3)) else rd_get R r2 k')"
    unfolding t3_def by (rule lua_take_spec [OF h3 e(3) e2, of u3]) blast
  have wf: "ts = [t1, t2, t3]" by (simp add: ts t1_def t2_def t3_def)
  show thesis
  proof (rule that [of r3])
    show "lua_take3 R ks b (u1, u2, u3) rem r = (Some (ts ! 0, ts ! 1, ts ! 2), r3)"
      by (simp add: lua_take3_def b r1 r2 r3 wf del: One_nat_def)
    show "pools_are R ks r3 (minus_pools b ts)"
      using d by (simp add: pools_are_def minus_pools_def holds_def b wf g1 g2 g3)
    show "same_elsewhere R ks r r3"
      by (simp add: same_elsewhere_def g1 g2 g3)
  qed
qed

text \<open>
  pre_deduct.lua: with enough in the pools that the policy admits, exactly the cost is taken, in
  the order sub, grant, cash; with too little, nothing happens; with a pool missing, the script
  asks for a reload.
\<close>

lemma pre_deduct_taken:
  assumes "three_keys ks" "pools_are R ks r b" "exact_pools b" "exact cost"
    and "cost \<le> sum_list (usable policy b)"
  obtains r' where
    "lua_pre_deduct R ks cost policy r = (Some (1 # waterfall cost (usable policy b)), r')"
    and "pools_are R ks r' (minus_pools b (waterfall cost (usable policy b)))"
    and "same_elsewhere R ks r r'"
proof -
  obtain s g c where b: "b = (s, g, c)" by (cases b)
  let ?u1 = "policy \<noteq> ''cash_only''" and ?u3 = "policy \<noteq> ''grant_only''"
  let ?ts = "waterfall cost (usable policy b)"
  have ts: "?ts = waterfall cost [if ?u1 then s else 0, if ?u1 then g else 0,
      if ?u3 then c else 0]"
    by (simp add: usable_def b)
  obtain r' where t3: "lua_take3 R ks b (?u1, ?u1, ?u3) cost r = (Some (?ts ! 0, ?ts ! 1, ?ts ! 2), r')"
    and p: "pools_are R ks r' (minus_pools b ?ts)" and e: "same_elsewhere R ks r r'"
    by (rule lua_take3_spec [OF assms(1,2,3,4) b ts]) blast
  have h: "rd_get R r (ks ! 0) = Some (show_int s)" "rd_get R r (ks ! 1) = Some (show_int g)"
    "rd_get R r (ks ! 2) = Some (show_int c)"
    using assms(2) b by (simp_all add: pools_are_def holds_def)
  have ex: "exact s" "exact g" "exact c" "exact (s + g)" "exact (s + g + c)"
    using assms(3) b by (simp_all add: exact_pools_def)
  have list: "[?ts ! 0, ?ts ! 1, ?ts ! 2] = ?ts" by (simp add: ts)
  have "lua_pre_deduct R ks cost policy r = (Some (1 # [?ts ! 0, ?ts ! 1, ?ts ! 2]), r')"
    using assms(4,5) t3 ex b
    by (simp add: lua_pre_deduct_def h policy_uses_def lua_add_if_def num_or_zero_def usable_def
        Let_def del: One_nat_def split: if_splits)
  then show thesis using p e list by (intro that [of r']) simp_all
qed

lemma pre_deduct_insufficient:
  assumes "pools_are R ks r b" "exact_pools b" "exact cost"
    and "sum_list (usable policy b) < cost"
  shows "lua_pre_deduct R ks cost policy r = (Some [- 1, 0, 0, 0], r)"
proof -
  obtain s g c where b: "b = (s, g, c)" by (cases b)
  have h: "rd_get R r (ks ! 0) = Some (show_int s)" "rd_get R r (ks ! 1) = Some (show_int g)"
    "rd_get R r (ks ! 2) = Some (show_int c)"
    using assms(1) b by (simp_all add: pools_are_def holds_def)
  have "exact s" "exact g" "exact c" "exact (s + g)" "exact (s + g + c)"
    using assms(2) b by (simp_all add: exact_pools_def)
  with assms(3,4) b show ?thesis
    by (simp add: lua_pre_deduct_def h policy_uses_def lua_add_if_def num_or_zero_def usable_def
        Let_def del: One_nat_def split: if_splits)
qed

lemma pre_deduct_miss:
  assumes "rd_get R r (ks ! 0) = None \<or> rd_get R r (ks ! 1) = None \<or> rd_get R r (ks ! 2) = None"
  shows "lua_pre_deduct R ks cost policy r = (Some [- 2, 0, 0, 0], r)"
  using assms by (auto simp: lua_pre_deduct_def split: option.splits)

text \<open>compensate.lua takes what is there and never more, so no pool goes below zero.\<close>

lemma lua_take_opt_Some [simp]: "lua_take_opt R k (Some v) u rem r = lua_take R k v u rem r"
  by (simp add: lua_take_opt_def num_or_zero_def)

lemma compensate_taken:
  assumes "three_keys ks" "pools_are R ks r b" "exact_pools b" "exact amount"
  obtains r' where
    "lua_compensate R ks amount policy r = (Some (waterfall amount (usable policy b)), r')"
    and "pools_are R ks r' (minus_pools b (waterfall amount (usable policy b)))"
    and "same_elsewhere R ks r r'"
proof -
  obtain s g c where b: "b = (s, g, c)" by (cases b)
  let ?u1 = "policy \<noteq> ''cash_only''" and ?u3 = "policy \<noteq> ''grant_only''"
  let ?ts = "waterfall amount (usable policy b)"
  have ts: "?ts = waterfall amount [if ?u1 then s else 0, if ?u1 then g else 0,
      if ?u3 then c else 0]"
    by (simp add: usable_def b)
  have list: "[?ts ! 0, ?ts ! 1, ?ts ! 2] = ?ts" by (simp add: ts)
  have h: "rd_get R r (ks ! 0) = Some (show_int s)" "rd_get R r (ks ! 1) = Some (show_int g)"
    "rd_get R r (ks ! 2) = Some (show_int c)"
    using assms(2) b by (simp_all add: pools_are_def holds_def)
  have ex: "exact s" "exact g" "exact c"
    using assms(3) b by (simp_all add: exact_pools_def)
  have gz: "lua_get_or_zero R r (ks ! 0) = Some s" "lua_get_or_zero R r (ks ! 1) = Some g"
    "lua_get_or_zero R r (ks ! 2) = Some c"
    using h ex by (simp_all add: lua_get_or_zero_def)
  show thesis
  proof (cases "amount \<le> 0")
    case True
    then have "?ts = [0, 0, 0]" by (simp add: usable_def b waterfall_none share_def)
    with True assms(2,4) b show thesis
      by (intro that [of r])
        (simp_all add: lua_compensate_def minus_pools_def same_elsewhere_def)
  next
    case False
    obtain r' where t3: "lua_take3 R ks b (?u1, ?u1, ?u3) amount r =
        (Some (?ts ! 0, ?ts ! 1, ?ts ! 2), r')"
      and p: "pools_are R ks r' (minus_pools b ?ts)" and e: "same_elsewhere R ks r r'"
      by (rule lua_take3_spec [OF assms(1,2,3,4) b ts]) blast
    have "lua_compensate R ks amount policy r = (Some [?ts ! 0, ?ts ! 1, ?ts ! 2], r')"
      using False assms(4) t3 ex b
      by (auto simp: lua_compensate_def lua_take3_def gz policy_uses_def Let_def
          simp del: One_nat_def split: prod.splits option.splits)
    then show thesis using p e list by (intro that [of r']) simp_all
  qed
qed

text \<open>
  refund.lua gives back at most what was taken from each pool, cash first. \<open>given\<close> lists what the
  three pools get, in the order of the keys.
\<close>

end

definition given :: "int \<Rightarrow> int \<times> int \<times> int \<Rightarrow> int list" where
  "given amt d = (case d of (pd, gd, cd) \<Rightarrow> rev (waterfall amt [cd, gd, pd]))"

context redis_server
begin

lemma refund_given:
  assumes "three_keys ks" "pools_are R ks r b" "exact amt" "b = (s, g, c)"
    and e: "exact s" "exact g" "exact c" "exact pd" "exact gd" "exact cd"
    and room: "exact (s + max 0 pd)" "exact (g + max 0 gd)" "exact (c + max 0 cd)"
  obtains r' where "lua_refund R ks amt pd gd cd r = (Some 1, r')"
    and "pools_are R ks r' (plus_pools b (given amt (pd, gd, cd)))"
    and "same_elsewhere R ks r r'"
proof -
  define t1 where "t1 = share cd amt"
  define t2 where "t2 = share gd (amt - t1)"
  define t3 where "t3 = share pd (amt - t1 - t2)"
  have gv: "given amt (pd, gd, cd) = [t3, t2, t1]"
    by (simp add: given_def t1_def t2_def t3_def)
  have h: "holds R r (ks ! 0) s" "holds R r (ks ! 1) g" "holds R r (ks ! 2) c"
    using assms(2,4) by (simp_all add: pools_are_def)
  have d: "ks ! 1 \<noteq> ks ! 0" "ks ! 2 \<noteq> ks ! 0" "ks ! 2 \<noteq> ks ! 1" "ks ! 0 \<noteq> ks ! 1" "ks ! 0 \<noteq> ks ! 2"
    "ks ! 1 \<noteq> ks ! 2"
    using assms(1) by (auto simp: three_keys_def)
  have fit: "exact (x + share y z)" if "exact x" "exact (x + max 0 y)" for x y z
  proof -
    define t where "t = share y z"
    have "0 \<le> t" "t \<le> max 0 y" by (simp_all add: t_def)
    with that show ?thesis unfolding t_def [symmetric] by (auto simp: exact_def)
  qed
  have e1: "exact (amt - t1)" "exact (amt - t1 - t2)"
    using assms(3) by (simp_all add: t1_def t2_def)
  show thesis
  proof (cases "amt \<le> 0")
    case True
    then have "t1 = 0" "t2 = 0" "t3 = 0" by (simp_all add: t1_def t2_def t3_def share_def)
    with True assms(2-4) gv show thesis
      by (intro that [of r]) (simp_all add: lua_refund_def plus_pools_def same_elsewhere_def)
  next
    case False
    obtain r1 where r1: "lua_give R (ks ! 2) cd amt r = (Some (amt - t1), r1)"
      and g1: "\<And>k'. rd_get R r1 k' = (if k' = ks ! 2 then Some (show_int (c + t1)) else rd_get R r k')"
      unfolding t1_def by (rule lua_give_spec [OF h(3) e(3) assms(3) e(6) fit [OF e(3) room(3)]]) blast
    have h2: "holds R r1 (ks ! 1) g" using h d g1 by (simp add: holds_def)
    obtain r2 where r2: "lua_give R (ks ! 1) gd (amt - t1) r1 = (Some (amt - t1 - t2), r2)"
      and g2: "\<And>k'. rd_get R r2 k' = (if k' = ks ! 1 then Some (show_int (g + t2)) else rd_get R r1 k')"
      unfolding t2_def by (rule lua_give_spec [OF h2 e(2) e1(1) e(5) fit [OF e(2) room(2)]]) blast
    have h3: "holds R r2 (ks ! 0) s" using h d g1 g2 by (simp add: holds_def)
    obtain r3 where r3: "lua_give R (ks ! 0) pd (amt - t1 - t2) r2 = (Some (amt - t1 - t2 - t3), r3)"
      and g3: "\<And>k'. rd_get R r3 k' = (if k' = ks ! 0 then Some (show_int (s + t3)) else rd_get R r2 k')"
      unfolding t3_def by (rule lua_give_spec [OF h3 e(1) e1(2) e(4) fit [OF e(1) room(1)]]) blast
    show thesis
    proof (rule that [of r3])
      show "lua_refund R ks amt pd gd cd r = (Some 1, r3)"
        using False e assms(3) by (simp add: lua_refund_def Let_def r1 r2 r3 del: One_nat_def)
      show "pools_are R ks r3 (plus_pools b (given amt (pd, gd, cd)))"
        using d assms(4) by (simp add: pools_are_def plus_pools_def holds_def gv g1 g2 g3)
      show "same_elsewhere R ks r r3"
        by (simp add: same_elsewhere_def g1 g2 g3)
    qed
  qed
qed

text \<open>The counter of rate_limit.lua.\<close>

lemma rate_limit_over:
  assumes "holds R r k n" "exact n" "exact inc" "exact (n + inc)" "exact max_req"
    and "max_req < n + inc"
  shows "lua_rate_limit R k w max_req inc r = (Some 0, r)"
  using assms by (simp add: lua_rate_limit_def holds_def Let_def)

lemma rate_limit_under:
  assumes "holds R r k n" "exact n" "exact inc" "exact (n + inc)" "exact max_req"
    and "n + inc \<le> max_req"
  obtains r' where "lua_rate_limit R k w max_req inc r = (Some 1, r')" and "holds R r' k (n + inc)"
    and "\<And>k'. k' \<noteq> k \<Longrightarrow> rd_get R r' k' = rd_get R r k'"
proof -
  have "in_i64 n" "in_i64 inc" "in_i64 (n + inc)" using assms by simp_all
  then obtain r' where i: "rd_incrby R k inc r = (Some (n + inc), r')"
    and g: "\<And>k'. rd_get R r' k' = (if k' = k then Some (show_int (n + inc)) else rd_get R r k')"
    by (rule incrby_holds [OF assms(1)]) blast
  with assms show thesis
    by (intro that [of r']) (simp_all add: lua_rate_limit_def holds_def Let_def)
qed

lemma rate_limit_first:
  assumes "rd_get R r k = None" "exact inc" "0 < w"
  obtains r' where "lua_rate_limit R k w max_req inc r = (Some 1, r')" and "holds R r' k inc"
    and "\<And>k'. k' \<noteq> k \<Longrightarrow> rd_get R r' k' = rd_get R r k'"
proof -
  have c: "counts_as R r k 0" using assms(1) by (simp add: counts_as_def)
  have i: "fst (rd_incrby R k inc r) = Some inc"
    using incrby_reply [OF c, of inc] assms(2) by simp
  have g: "rd_get R (snd (rd_incrby R k inc r)) k' =
      (if k' = k then Some (show_int inc) else rd_get R r k')" for k'
    using incrby_get [OF c, of inc] assms(2) by simp
  have "lua_rate_limit R k w max_req inc r =
      (Some 1, rd_expire R k w (snd (rd_incrby R k inc r)))"
    using i assms(1,2) by (auto simp: lua_rate_limit_def Let_def split: prod.splits)
  then show thesis
    using g assms(3)
    by (intro that [of "rd_expire R k w (snd (rd_incrby R k inc r))"])
      (simp_all add: holds_def expire_get)
qed

end

end
