(* ===== verification/Provider.thy ===== *)
theory Provider
  imports Rows "HOL-Library.AList" "HOL-Library.List_Lexorder" "HOL-Library.Char_ord"
begin

text \<open>
  internal/provider: the capabilities, credentials and error translation of the upstream
  providers, the registry they are looked up in, the catalog of the providers in the
  repository, and the mapping of public model names to upstream ones (model_mapping.go). The
  only driver type of the repository is \<open>StaticProvider\<close>, so the registry maps names to it.
  HTTP header names are compared without regard to case, as net/http canonicalises them.
\<close>

section \<open>Capabilities\<close>

record capabilities =
  cap_chat :: bool
  cap_stream :: bool
  cap_vision :: bool
  cap_image :: bool
  cap_video :: bool
  cap_async_task :: bool
  cap_cancel_task :: bool

definition no_caps :: capabilities where
  "no_caps = \<lparr>cap_chat = False, cap_stream = False, cap_vision = False, cap_image = False,
     cap_video = False, cap_async_task = False, cap_cancel_task = False\<rparr>"

definition supports :: "capabilities \<Rightarrow> capabilities \<Rightarrow> bool" where
  "supports c required =
     (if cap_chat required \<and> \<not> cap_chat c then False
      else if cap_stream required \<and> \<not> cap_stream c then False
      else if cap_vision required \<and> \<not> cap_vision c then False
      else if cap_image required \<and> \<not> cap_image c then False
      else if cap_video required \<and> \<not> cap_video c then False
      else if cap_async_task required \<and> \<not> cap_async_task c then False
      else if cap_cancel_task required \<and> \<not> cap_cancel_task c then False
      else True)"

section \<open>Credentials\<close>

text \<open>Header fields: one value per name, the name in lower case.\<close>

type_synonym headers = "(string \<times> string) list"

definition header_get :: "headers \<Rightarrow> string \<Rightarrow> string" where
  "header_get h k = (case map_of h (to_lower k) of None \<Rightarrow> '''' | Some v \<Rightarrow> v)"

definition header_has :: "headers \<Rightarrow> string \<Rightarrow> bool" where
  "header_has h k = list_ex (\<lambda>p. fst p = to_lower k) h"

definition header_del :: "string \<Rightarrow> headers \<Rightarrow> headers" where
  "header_del k h = filter (\<lambda>p. fst p \<noteq> to_lower k) h"

definition header_set :: "string \<Rightarrow> string \<Rightarrow> headers \<Rightarrow> headers" where
  "header_set k v h = (to_lower k, v) # header_del k h"

record header_auth =
  ha_header :: string
  ha_prefix :: string

text \<open>\<open>HeaderAuthStrategy.Apply\<close>; \<open>None\<close> is the error for an empty header name.\<close>

definition auth_apply :: "header_auth \<Rightarrow> headers \<Rightarrow> string \<Rightarrow> headers option" where
  "auth_apply s h apiKey =
     (if ha_header s = '''' then None
      else
        let h = header_del ''x-goog-api-key'' (header_del ''x-api-key'' (header_del ''Authorization'' h));
            value = (if ha_prefix s \<noteq> '''' then ha_prefix s @ apiKey else apiKey)
        in Some (header_set (ha_header s) value h))"

section \<open>Errors of an upstream\<close>

record provider_error =
  pe_status :: int
  pe_message :: string
  pe_type :: string
  pe_code :: string

definition inferOpenAIErrorType :: "int \<Rightarrow> string" where
  "inferOpenAIErrorType status =
     (if status = 429 then ''rate_limit_error''
      else if status \<ge> 500 then ''server_error''
      else ''invalid_request_error'')"

definition inferOpenAIErrorCode :: "int \<Rightarrow> string" where
  "inferOpenAIErrorCode status =
     (if status = 429 then ''rate_limit_exceeded''
      else if status = 401 then ''invalid_api_key''
      else if status = 403 then ''forbidden''
      else if status = 404 then ''not_found''
      else if status = 502 then ''bad_gateway''
      else if status \<ge> 500 then ''server_error''
      else '''')"

text \<open>A checked text member that is not blank, trimmed; otherwise what was there before.\<close>

definition text_or :: "string \<Rightarrow> json option \<Rightarrow> string" where
  "text_or fallback v = (case as_string v of
      None \<Rightarrow> fallback
    | Some s \<Rightarrow> if trim_space s \<noteq> '''' then trim_space s else fallback)"

text \<open>
  \<open>GenericErrorTranslator.Translate\<close>. The body is its text and, where it decodes to an object
  (or to null, the empty map), its members.
\<close>

definition translate_error ::
  "string \<Rightarrow> int \<Rightarrow> string \<Rightarrow> (string \<times> json) list option \<Rightarrow> provider_error" where
  "translate_error provider status body decoded =
     (let payload = trim_space body;
          (message, errType, code) =
            (case (if body = '''' then None else decoded) of
               None \<Rightarrow> (payload, inferOpenAIErrorType status, inferOpenAIErrorCode status)
             | Some data \<Rightarrow>
                 (case as_object (obj_get data ''error'') of
                    Some nested \<Rightarrow>
                      (text_or payload (obj_get nested ''message''),
                       text_or (inferOpenAIErrorType status) (obj_get nested ''type''),
                       text_or (inferOpenAIErrorCode status) (obj_get nested ''code''))
                  | None \<Rightarrow>
                      (text_or payload (obj_get data ''message''),
                       inferOpenAIErrorType status, inferOpenAIErrorCode status)));
          message = (if message = '''' then
              (if provider \<noteq> '''' then provider @ '' upstream returned HTTP '' @ show_int status
               else ''upstream returned HTTP '' @ show_int status)
            else message)
      in \<lparr>pe_status = status, pe_message = message, pe_type = errType, pe_code = code\<rparr>)"

section \<open>Providers\<close>

datatype request_adapter = OpenAIAdapter | AnthropicAdapter | GeminiAdapter

record provider_meta =
  pm_name :: string
  pm_label :: string
  pm_protocol :: string
  pm_base_url :: string
  pm_models :: "string list"
  pm_presets :: "(string \<times> string) list"
  pm_mapping :: "(string \<times> json) list"
  pm_caps :: capabilities
  pm_supports_async :: bool
  pm_auth_header :: string
  pm_auth_prefix :: string

definition no_meta :: provider_meta where
  "no_meta = \<lparr>pm_name = '''', pm_label = '''', pm_protocol = '''', pm_base_url = '''',
     pm_models = [], pm_presets = [], pm_mapping = [], pm_caps = no_caps,
     pm_supports_async = False, pm_auth_header = '''', pm_auth_prefix = ''''\<rparr>"

text \<open>The one asynchronous adapter is the OpenAI one, so a provider has it or has none.\<close>

record static_provider =
  sp_name :: string
  sp_request :: "request_adapter option"
  sp_async :: bool
  sp_caps :: capabilities
  sp_auth :: "header_auth option"
  sp_errors :: "string option"
  sp_meta :: provider_meta

definition or_default :: "string \<Rightarrow> string \<Rightarrow> string" where
  "or_default s d = (if s = '''' then d else s)"

definition provider_Meta :: "static_provider \<Rightarrow> provider_meta" where
  "provider_Meta p =
     (let meta = sp_meta p;
          meta = meta\<lparr>pm_name := or_default (pm_name meta) (sp_name p),
                      pm_label := or_default (pm_label meta) (sp_name p),
                      pm_protocol := or_default (pm_protocol meta) ''openai'',
                      pm_caps := sp_caps p,
                      pm_supports_async := (sp_async p \<or> cap_async_task (sp_caps p))\<rparr>
      in case sp_auth p of
           None \<Rightarrow> meta
         | Some s \<Rightarrow> meta\<lparr>pm_auth_header := or_default (pm_auth_header meta) (ha_header s),
                          pm_auth_prefix := or_default (pm_auth_prefix meta) (ha_prefix s)\<rparr>)"

section \<open>The registry\<close>

definition normalizeProviderName :: "string \<Rightarrow> string" where
  "normalizeProviderName p =
     (let n = to_lower (trim_space p) in
      if n = '''' \<or> n = ''openai'' \<or> n = ''custom'' then ''openai'' else n)"

type_synonym registry = "(string \<times> static_provider) list"

definition registerProvider :: "static_provider \<Rightarrow> registry \<Rightarrow> registry" where
  "registerProvider p reg =
     (let name = normalizeProviderName (sp_name p) in
      if name = '''' then reg else AList.update name p reg)"

definition bare_openai :: static_provider where
  "bare_openai = \<lparr>sp_name = ''openai'', sp_request = None, sp_async = False, sp_caps = no_caps,
     sp_auth = None, sp_errors = None, sp_meta = no_meta\<rparr>"

definition getProvider :: "registry \<Rightarrow> string \<Rightarrow> static_provider" where
  "getProvider reg p =
     (case map_of reg (normalizeProviderName p) of
        Some d \<Rightarrow> d
      | None \<Rightarrow> (case map_of reg ''openai'' of Some d \<Rightarrow> d | None \<Rightarrow> bare_openai))"

text \<open>
  \<open>ListProviderMetas\<close>: the literal's fields, then those of the driver's own \<open>Meta\<close> where they
  are set, sorted by name. (The recommended model mapping is not copied.)
\<close>

definition listed_meta :: "static_provider \<Rightarrow> provider_meta" where
  "listed_meta p =
     (let described = provider_Meta p in
      no_meta\<lparr>pm_name := or_default (pm_name described) (sp_name p),
              pm_label := or_default (pm_label described) (sp_name p),
              pm_protocol := or_default (pm_protocol described) ''openai'',
              pm_base_url := pm_base_url described,
              pm_models := pm_models described,
              pm_presets := pm_presets described,
              pm_caps := pm_caps described,
              pm_supports_async := pm_supports_async described,
              pm_auth_header := pm_auth_header described,
              pm_auth_prefix := pm_auth_prefix described\<rparr>)"

definition listProviderMetas :: "registry \<Rightarrow> provider_meta list" where
  "listProviderMetas reg = sort_key pm_name (map (listed_meta \<circ> snd) reg)"

section \<open>The catalog\<close>

definition deepseek_provider :: static_provider where
  "deepseek_provider = \<lparr>sp_name = ''deepseek'', sp_request = Some OpenAIAdapter, sp_async = False,
     sp_caps = no_caps\<lparr>cap_chat := True, cap_stream := True\<rparr>,
     sp_auth = Some \<lparr>ha_header = ''Authorization'', ha_prefix = ''Bearer ''\<rparr>,
     sp_errors = Some ''deepseek'',
     sp_meta = no_meta\<lparr>pm_name := ''deepseek'', pm_label := ''DeepSeek'',
       pm_protocol := ''openai'', pm_base_url := ''https://api.deepseek.com'',
       pm_models := [''deepseek-v4-flash'', ''deepseek-v4-pro'']\<rparr>\<rparr>"

definition aimlapi_provider :: static_provider where
  "aimlapi_provider = \<lparr>sp_name = ''aimlapi'', sp_request = Some OpenAIAdapter, sp_async = False,
     sp_caps = no_caps\<lparr>cap_chat := True, cap_stream := True\<rparr>,
     sp_auth = Some \<lparr>ha_header = ''Authorization'', ha_prefix = ''Bearer ''\<rparr>,
     sp_errors = Some ''aimlapi'',
     sp_meta = no_meta\<lparr>pm_name := ''aimlapi'', pm_label := ''AI/ML API'',
       pm_protocol := ''openai'', pm_base_url := ''https://api.aimlapi.com/v1'',
       pm_models := [''gpt-5.5'', ''claude-opus-4.8'', ''gemini-3.1-pro'']\<rparr>\<rparr>"

definition cohere_provider :: static_provider where
  "cohere_provider = \<lparr>sp_name = ''cohere'', sp_request = Some OpenAIAdapter, sp_async = False,
     sp_caps = no_caps\<lparr>cap_chat := True, cap_stream := True\<rparr>,
     sp_auth = Some \<lparr>ha_header = ''Authorization'', ha_prefix = ''Bearer ''\<rparr>,
     sp_errors = Some ''cohere'',
     sp_meta = no_meta\<lparr>pm_name := ''cohere'', pm_label := ''Cohere'',
       pm_protocol := ''openai'', pm_base_url := ''https://api.cohere.com/v1'',
       pm_models := [''command-r-plus'', ''command-r'']\<rparr>\<rparr>"

definition deepinfra_provider :: static_provider where
  "deepinfra_provider = \<lparr>sp_name = ''deepinfra'', sp_request = Some OpenAIAdapter, sp_async = False,
     sp_caps = no_caps\<lparr>cap_chat := True, cap_stream := True\<rparr>,
     sp_auth = Some \<lparr>ha_header = ''Authorization'', ha_prefix = ''Bearer ''\<rparr>,
     sp_errors = Some ''deepinfra'',
     sp_meta = no_meta\<lparr>pm_name := ''deepinfra'', pm_label := ''DeepInfra'',
       pm_protocol := ''openai'', pm_base_url := ''https://api.deepinfra.com/v1/openai'',
       pm_models := [''meta-llama/Llama-4-70B-Instruct'', ''Qwen/Qwen3.5-70B-Instruct'']\<rparr>\<rparr>"

definition fireworks_provider :: static_provider where
  "fireworks_provider = \<lparr>sp_name = ''fireworks'', sp_request = Some OpenAIAdapter, sp_async = False,
     sp_caps = no_caps\<lparr>cap_chat := True, cap_stream := True\<rparr>,
     sp_auth = Some \<lparr>ha_header = ''Authorization'', ha_prefix = ''Bearer ''\<rparr>,
     sp_errors = Some ''fireworks'',
     sp_meta = no_meta\<lparr>pm_name := ''fireworks'', pm_label := ''Fireworks AI'',
       pm_protocol := ''openai'', pm_base_url := ''https://api.fireworks.ai/inference/v1'',
       pm_models := [''accounts/fireworks/models/llama4-70b-instruct'', ''accounts/fireworks/models/mixtral-8x22b-instruct'']\<rparr>\<rparr>"

definition grok_provider :: static_provider where
  "grok_provider = \<lparr>sp_name = ''grok'', sp_request = Some OpenAIAdapter, sp_async = False,
     sp_caps = no_caps\<lparr>cap_chat := True, cap_stream := True\<rparr>,
     sp_auth = Some \<lparr>ha_header = ''Authorization'', ha_prefix = ''Bearer ''\<rparr>,
     sp_errors = Some ''grok'',
     sp_meta = no_meta\<lparr>pm_name := ''grok'', pm_label := ''Grok (xAI)'',
       pm_protocol := ''openai'', pm_base_url := ''https://api.x.ai/v1'',
       pm_models := [''grok-4.3'', ''grok-4-1-fast'']\<rparr>\<rparr>"

definition groq_provider :: static_provider where
  "groq_provider = \<lparr>sp_name = ''groq'', sp_request = Some OpenAIAdapter, sp_async = False,
     sp_caps = no_caps\<lparr>cap_chat := True, cap_stream := True\<rparr>,
     sp_auth = Some \<lparr>ha_header = ''Authorization'', ha_prefix = ''Bearer ''\<rparr>,
     sp_errors = Some ''groq'',
     sp_meta = no_meta\<lparr>pm_name := ''groq'', pm_label := ''Groq (LPU Inference)'',
       pm_protocol := ''openai'', pm_base_url := ''https://api.groq.com/openai/v1'',
       pm_models := [''llama-4-70b-8192'', ''mixtral-8x7b-32768'', ''qwen-2.5-32b'']\<rparr>\<rparr>"

definition ideogram_provider :: static_provider where
  "ideogram_provider = \<lparr>sp_name = ''ideogram'', sp_request = Some OpenAIAdapter, sp_async = False,
     sp_caps = no_caps\<lparr>cap_chat := True, cap_stream := True, cap_image := True\<rparr>,
     sp_auth = Some \<lparr>ha_header = ''Authorization'', ha_prefix = ''Bearer ''\<rparr>,
     sp_errors = Some ''ideogram'',
     sp_meta = no_meta\<lparr>pm_name := ''ideogram'', pm_label := ''Ideogram'',
       pm_protocol := ''openai'', pm_base_url := ''https://api.ideogram.ai'',
       pm_models := [''ideogram-4.0'', ''ideogram-3.0'']\<rparr>\<rparr>"

definition mistral_provider :: static_provider where
  "mistral_provider = \<lparr>sp_name = ''mistral'', sp_request = Some OpenAIAdapter, sp_async = False,
     sp_caps = no_caps\<lparr>cap_chat := True, cap_stream := True\<rparr>,
     sp_auth = Some \<lparr>ha_header = ''Authorization'', ha_prefix = ''Bearer ''\<rparr>,
     sp_errors = Some ''mistral'',
     sp_meta = no_meta\<lparr>pm_name := ''mistral'', pm_label := ''Mistral AI'',
       pm_protocol := ''openai'', pm_base_url := ''https://api.mistral.ai/v1'',
       pm_models := [''mistral-large-latest'', ''mistral-nemo'']\<rparr>\<rparr>"

definition openrouter_provider :: static_provider where
  "openrouter_provider = \<lparr>sp_name = ''openrouter'', sp_request = Some OpenAIAdapter, sp_async = False,
     sp_caps = no_caps\<lparr>cap_chat := True, cap_stream := True\<rparr>,
     sp_auth = Some \<lparr>ha_header = ''Authorization'', ha_prefix = ''Bearer ''\<rparr>,
     sp_errors = Some ''openrouter'',
     sp_meta = no_meta\<lparr>pm_name := ''openrouter'', pm_label := ''OpenRouter'',
       pm_protocol := ''openai'', pm_base_url := ''https://openrouter.ai/api/v1'',
       pm_models := [''openai/gpt-5.5'', ''anthropic/claude-opus-4.8'', ''google/gemini-3.1-pro'']\<rparr>\<rparr>"

definition perplexity_provider :: static_provider where
  "perplexity_provider = \<lparr>sp_name = ''perplexity'', sp_request = Some OpenAIAdapter, sp_async = False,
     sp_caps = no_caps\<lparr>cap_chat := True, cap_stream := True\<rparr>,
     sp_auth = Some \<lparr>ha_header = ''Authorization'', ha_prefix = ''Bearer ''\<rparr>,
     sp_errors = Some ''perplexity'',
     sp_meta = no_meta\<lparr>pm_name := ''perplexity'', pm_label := ''Perplexity'',
       pm_protocol := ''openai'', pm_base_url := ''https://api.perplexity.ai'',
       pm_models := [''sonar-pro'', ''sonar'']\<rparr>\<rparr>"

definition qwen_provider :: static_provider where
  "qwen_provider = \<lparr>sp_name = ''qwen'', sp_request = Some OpenAIAdapter, sp_async = False,
     sp_caps = no_caps\<lparr>cap_chat := True, cap_stream := True\<rparr>,
     sp_auth = Some \<lparr>ha_header = ''Authorization'', ha_prefix = ''Bearer ''\<rparr>,
     sp_errors = Some ''qwen'',
     sp_meta = no_meta\<lparr>pm_name := ''qwen'', pm_label := ''Qwen (Alibaba Cloud)'',
       pm_protocol := ''openai'', pm_base_url := ''https://dashscope.aliyuncs.com/compatible-mode/v1'',
       pm_models := [''qwen3.6-plus'', ''qwen3.5-flash'', ''qwq-plus'']\<rparr>\<rparr>"

definition together_provider :: static_provider where
  "together_provider = \<lparr>sp_name = ''together'', sp_request = Some OpenAIAdapter, sp_async = False,
     sp_caps = no_caps\<lparr>cap_chat := True, cap_stream := True\<rparr>,
     sp_auth = Some \<lparr>ha_header = ''Authorization'', ha_prefix = ''Bearer ''\<rparr>,
     sp_errors = Some ''together'',
     sp_meta = no_meta\<lparr>pm_name := ''together'', pm_label := ''Together AI'',
       pm_protocol := ''openai'', pm_base_url := ''https://api.together.xyz/v1'',
       pm_models := [''meta-llama/Llama-4-70B-Instruct'', ''deepseek-ai/DeepSeek-V4'', ''mistralai/Mistral-Large-2'']\<rparr>\<rparr>"

definition openai_provider :: static_provider where
  "openai_provider = \<lparr>sp_name = ''openai'', sp_request = Some OpenAIAdapter, sp_async = True,
     sp_caps = \<lparr>cap_chat = True, cap_stream = True, cap_vision = True, cap_image = True,
       cap_video = True, cap_async_task = True, cap_cancel_task = True\<rparr>,
     sp_auth = Some \<lparr>ha_header = ''Authorization'', ha_prefix = ''Bearer ''\<rparr>,
     sp_errors = Some ''openai'',
     sp_meta = no_meta\<lparr>pm_name := ''openai'', pm_label := ''OpenAI'', pm_protocol := ''openai'',
       pm_base_url := ''https://api.openai.com/v1'',
       pm_models := [''gpt-5.5'', ''gpt-5.4-mini'', ''gpt-5.4-nano'']\<rparr>\<rparr>"

definition anthropic_provider :: static_provider where
  "anthropic_provider = \<lparr>sp_name = ''anthropic'', sp_request = Some AnthropicAdapter, sp_async = True,
     sp_caps = no_caps\<lparr>cap_chat := True, cap_stream := True, cap_vision := True\<rparr>,
     sp_auth = Some \<lparr>ha_header = ''x-api-key'', ha_prefix = ''''\<rparr>,
     sp_errors = Some ''anthropic'',
     sp_meta = no_meta\<lparr>pm_name := ''anthropic'', pm_label := ''Anthropic'',
       pm_protocol := ''anthropic'', pm_base_url := ''https://api.anthropic.com'',
       pm_models := [''claude-fable-5'', ''claude-opus-4-8'', ''claude-sonnet-4-6'',
         ''claude-haiku-4-5'']\<rparr>\<rparr>"

definition gemini_provider :: static_provider where
  "gemini_provider = \<lparr>sp_name = ''gemini'', sp_request = Some GeminiAdapter, sp_async = True,
     sp_caps = \<lparr>cap_chat = True, cap_stream = True, cap_vision = True, cap_image = True,
       cap_video = True, cap_async_task = True, cap_cancel_task = False\<rparr>,
     sp_auth = Some \<lparr>ha_header = ''x-goog-api-key'', ha_prefix = ''''\<rparr>,
     sp_errors = Some ''gemini'',
     sp_meta = no_meta\<lparr>pm_name := ''gemini'', pm_label := ''Gemini'', pm_protocol := ''gemini'',
       pm_base_url := ''https://generativelanguage.googleapis.com'',
       pm_models := [''gemini-3.1-pro-preview'', ''gemini-3.5-flash'',
         ''gemini-3.1-flash-lite'']\<rparr>\<rparr>"

text \<open>The providers that cmd/api/main.go links in, each registered by its own init function.\<close>

definition linked_providers :: "static_provider list" where
  "linked_providers = [openai_provider, aimlapi_provider, anthropic_provider, cohere_provider,
     deepinfra_provider, deepseek_provider, fireworks_provider, gemini_provider, grok_provider,
     groq_provider, ideogram_provider, mistral_provider, openrouter_provider,
     perplexity_provider, qwen_provider, together_provider]"

definition catalog :: registry where
  "catalog = fold registerProvider linked_providers []"

section \<open>Model names\<close>

text \<open>
  \<open>ResolveUpstreamModelName\<close>. A mapping that is absent, null or not an object maps nothing, and a
  blank entry is ignored.
\<close>

definition resolveUpstreamModelName :: "channel_row \<Rightarrow> string \<Rightarrow> string" where
  "resolveUpstreamModelName ch publicModel =
     (let publicModel = trim_space publicModel in
      if publicModel = '''' then publicModel
      else case c_model_mapping ch of
             JObj mapping \<Rightarrow>
               (case as_string (obj_get mapping publicModel) of
                  Some mapped \<Rightarrow> if trim_space mapped \<noteq> '''' then trim_space mapped else publicModel
                | None \<Rightarrow> publicModel)
           | _ \<Rightarrow> publicModel)"

text \<open>
  Decoding into a map of \<open>any\<close>: null gives the nil map, anything but an object is an error, and
  every number becomes a float64.
\<close>

datatype body_error = DecodeError | NilMapPanic

definition decode_map :: "raw_bytes \<Rightarrow> body_error + (string \<times> json) list option" where
  "decode_map body = (case body of
      JsonBytes (JObj kvs) \<Rightarrow> Inr (Some (map (\<lambda>(k, v). (k, any_value v)) kvs))
    | JsonBytes JNull \<Rightarrow> Inr None
    | _ \<Rightarrow> Inl DecodeError)"

definition text_member :: "(string \<times> json) list option \<Rightarrow> string \<Rightarrow> string" where
  "text_member m k = (case m of None \<Rightarrow> ''''
    | Some kvs \<Rightarrow> (case as_string (obj_get kvs k) of None \<Rightarrow> '''' | Some s \<Rightarrow> s))"

definition extractRequestModel :: "raw_bytes \<Rightarrow> body_error + string" where
  "extractRequestModel body =
     (if body = NoBytes then Inr ''''
      else case decode_map body of
             Inl e \<Rightarrow> Inl e
           | Inr m \<Rightarrow> Inr (trim_space (text_member m ''model'')))"

text \<open>Assigning to a member of the nil map panics.\<close>

definition rewriteRequestBodyModel :: "raw_bytes \<Rightarrow> string \<Rightarrow> body_error + raw_bytes" where
  "rewriteRequestBodyModel body model =
     (if body = NoBytes \<or> trim_space model = '''' then Inr body
      else case decode_map body of
             Inl e \<Rightarrow> Inl e
           | Inr None \<Rightarrow> Inl NilMapPanic
           | Inr (Some kvs) \<Rightarrow> Inr (JsonBytes (JObj (obj_set kvs ''model'' (JStr model)))))"

definition rewriteRequestBodyModelForChannel ::
  "channel_row \<Rightarrow> raw_bytes \<Rightarrow> (body_error + raw_bytes) \<times> string" where
  "rewriteRequestBodyModelForChannel ch body =
     (case extractRequestModel body of
        Inl e \<Rightarrow> (Inl e, '''')
      | Inr publicModel \<Rightarrow>
          if publicModel = '''' then (Inr body, publicModel)
          else
            let upstream = resolveUpstreamModelName ch publicModel in
            if upstream = '''' \<or> upstream = publicModel then (Inr body, upstream)
            else (rewriteRequestBodyModel body upstream, upstream))"

section \<open>Laws\<close>

lemma supports_iff:
  "supports c r \<longleftrightarrow> (cap_chat r \<longrightarrow> cap_chat c) \<and> (cap_stream r \<longrightarrow> cap_stream c) \<and>
     (cap_vision r \<longrightarrow> cap_vision c) \<and> (cap_image r \<longrightarrow> cap_image c) \<and>
     (cap_video r \<longrightarrow> cap_video c) \<and> (cap_async_task r \<longrightarrow> cap_async_task c) \<and>
     (cap_cancel_task r \<longrightarrow> cap_cancel_task c)"
  by (simp add: supports_def)

lemma supports_refl: "supports c c" and supports_none: "supports c no_caps"
  and supports_trans: "supports a b \<Longrightarrow> supports b c \<Longrightarrow> supports a c"
  by (auto simp: supports_iff no_caps_def)

lemma header_get_set [simp]:
  "header_get (header_set k v h) k' = (if to_lower k' = to_lower k then v else header_get h k')"
proof -
  have "map_of (header_del k h) x = map_of h x" if "x \<noteq> to_lower k" for x
    using that by (induction h) (auto simp: header_del_def)
  then show ?thesis by (auto simp: header_get_def header_set_def)
qed

lemma header_has_iff: "header_has h k \<longleftrightarrow> to_lower k \<in> fst ` set h"
  by (force simp: header_has_def list_ex_iff)

lemma header_has_del [simp]:
  "header_has (header_del k h) k' \<longleftrightarrow> to_lower k' \<noteq> to_lower k \<and> header_has h k'"
  by (auto simp: header_has_iff header_del_def)

lemma header_has_set [simp]:
  "header_has (header_set k v h) k' \<longleftrightarrow> to_lower k' = to_lower k \<or> header_has h k'"
  by (auto simp: header_set_def header_has_iff header_del_def)

lemma auth_apply_only:
  assumes "auth_apply s h apiKey = Some h'"
  shows "header_get h' (ha_header s) = ha_prefix s @ apiKey \<and>
    (\<forall>k \<in> {''Authorization'', ''x-api-key'', ''x-goog-api-key''}.
       to_lower k \<noteq> to_lower (ha_header s) \<longrightarrow> \<not> header_has h' k) \<and>
    (\<forall>k. to_lower k \<notin> to_lower ` {''Authorization'', ''x-api-key'', ''x-goog-api-key'', ha_header s} \<longrightarrow>
       header_has h' k = header_has h k)"
  using assms by (auto simp: auth_apply_def Let_def split: if_splits)



lemma catalog_eq: "catalog = map (\<lambda>p. (sp_name p, p)) linked_providers"
  by code_simp

lemma map_of_names:
  "map_of (map (\<lambda>p. (sp_name p, p)) ps) n = find (\<lambda>p. sp_name p = n) ps"
  by (induction ps) auto

text \<open>
  A provider is always found: every linked provider under its own name, and every other
  name, the empty one and \<open>custom\<close> included, goes to one of the linked providers (openai when
  the name is unknown), so a lookup never yields a driver without a request adapter.
\<close>

lemma catalog_total:
  "getProvider catalog n \<in> set linked_providers \<and> sp_request (getProvider catalog n) \<noteq> None \<and>
   list_all (\<lambda>p. getProvider catalog (sp_name p) = p) linked_providers \<and>
   getProvider catalog '''' = openai_provider"
proof -
  have own: "list_all (\<lambda>p. getProvider catalog (sp_name p) = p) linked_providers \<and>
      getProvider catalog '''' = openai_provider \<and>
      list_all (\<lambda>p. sp_request p \<noteq> None) linked_providers"
    by code_simp
  have op: "map_of catalog ''openai'' = Some openai_provider" by code_simp
  have mem: "getProvider catalog n \<in> set linked_providers"
  proof (cases "map_of catalog (normalizeProviderName n)")
    case None
    then have "getProvider catalog n = openai_provider" using op by (simp add: getProvider_def)
    then show ?thesis by (simp add: linked_providers_def)
  next
    case (Some p)
    then have "(normalizeProviderName n, p) \<in> set catalog" by (rule map_of_SomeD)
    then have "p \<in> set linked_providers" by (auto simp: catalog_eq)
    with Some show ?thesis by (simp add: getProvider_def)
  qed
  with own show ?thesis by (auto simp: list_all_iff)
qed

text \<open>
  Rewriting the model of a request body changes the model and nothing else: extracting the
  model from the result gives the new name, and every other member is what it was, its numbers
  rounded to float64.
\<close>

lemma rewrite_then_extract:
  assumes "rewriteRequestBodyModel body model = Inr body'" "trim_space model \<noteq> ''''" "body \<noteq> NoBytes"
  shows "extractRequestModel body' = Inr (trim_space model) \<and>
    (\<exists>kvs kvs'. body = JsonBytes (JObj kvs) \<and> body' = JsonBytes (JObj kvs') \<and>
       (\<forall>k. k \<noteq> ''model'' \<longrightarrow> obj_get kvs' k = map_option any_value (obj_get kvs k)))"
proof -
  from assms obtain kvs where b: "body = JsonBytes (JObj kvs)"
    "body' = JsonBytes (JObj (obj_set (map (\<lambda>(k, v). (k, any_value v)) kvs) ''model'' (JStr model)))"
    by (auto simp: rewriteRequestBodyModel_def decode_map_def simp del: obj_set.simps
        split: raw_bytes.splits json.splits sum.splits option.splits if_splits)
  let ?kvs = "map (\<lambda>(k, v). (k, any_value v)) kvs"
  have g: "obj_get (obj_set ?kvs ''model'' (JStr model)) ''model'' = Some (JStr model)"
    by (rule obj_get_set_same)
  have o: "\<forall>k. k \<noteq> ''model'' \<longrightarrow> obj_get (obj_set ?kvs ''model'' (JStr model)) k = map_option any_value (obj_get kvs k)"
    using obj_get_set_other obj_get_any_value by metis
  have m: "any_value (JStr (trim_space model)) = JStr (trim_space model)"
    and gm: "obj_get (map (\<lambda>(k, v). (k, any_value v)) (obj_set ?kvs ''model'' (JStr model))) ''model'' = Some (JStr model)"
    using obj_get_any_value [of "obj_set ?kvs ''model'' (JStr model)" "''model''"] g by simp_all
  have "extractRequestModel body' = Inr (trim_space model)"
    unfolding b(2) extractRequestModel_def decode_map_def text_member_def
    by (simp only: raw_bytes.distinct if_False raw_bytes.case json.case sum.case option.case gm
        as_string.simps)
  with b o show ?thesis by blast
qed

lemma rewrite_then_extract_witness:
  "\<exists>body'. rewriteRequestBodyModel
      (JsonBytes (JObj [(''model'', JStr ''gpt''), (''stream'', JBool True)])) ''up'' = Inr body' \<and>
    extractRequestModel body' = Inr ''up''"
proof -
  let ?b = "JsonBytes (JObj [(''model'', JStr ''gpt''), (''stream'', JBool True)])"
  have t: "trim_space ''up'' = ''up''" by code_simp
  obtain body' where r: "rewriteRequestBodyModel ?b ''up'' = Inr body'"
    using t by (simp add: rewriteRequestBodyModel_def decode_map_def)
  from rewrite_then_extract [OF r] t r show ?thesis by auto
qed

lemma show_int_text: "s @ show_int n \<noteq> ''''"
  by simp

text \<open>
  A translated upstream error keeps the status and always has a message and a type, whatever
  the upstream sent.
\<close>

lemma translated_error_complete:
  "pe_status (translate_error provider status body decoded) = status \<and>
   pe_message (translate_error provider status body decoded) \<noteq> '''' \<and>
   pe_type (translate_error provider status body decoded) \<noteq> ''''"
proof -
  have t: "text_or f v \<noteq> ''''" if "f \<noteq> ''''" for f v
    using that by (auto simp: text_or_def split: option.splits)
  have ty: "inferOpenAIErrorType status \<noteq> ''''" by (simp add: inferOpenAIErrorType_def)
  show ?thesis
    using t [OF ty] ty by (auto simp: translate_error_def Let_def split: option.splits prod.splits)
qed

text \<open>
  A large integer does not survive the rewriting: a seed of 2 ^ 53 + 1 becomes 2 ^ 53.
\<close>

lemma rnd53_large: "rnd53 9007199254740993 = 9007199254740992"
proof -
  have "excess 4503599627370496 = 0" by (rule excess_small) simp
  then have "excess 9007199254740993 = 1" by (subst excess.simps) simp
  then show ?thesis by (simp add: rnd53_def round53_def half_even_def)
qed

lemma rewrite_rounds_large_integers:
  "rewriteRequestBodyModel (JsonBytes (JObj [(''seed'', JNum 9007199254740993 0)])) ''up'' =
     Inr (JsonBytes (JObj [(''seed'', JNum 9007199254740992 0), (''model'', JStr ''up'')]))"
proof -
  have "trim_space ''up'' = ''up''" by code_simp
  then show ?thesis
    by (simp add: rewriteRequestBodyModel_def decode_map_def dec_f64_def rnd53_large)
qed

text \<open>The listing drops the recommended model mapping, so the field is empty for every provider.\<close>

lemma listed_meta_mapping: "pm_mapping (listed_meta p) = []"
  by (simp add: listed_meta_def no_meta_def Let_def)

end
