(* ===== verification/Breaker.thy ===== *)
theory Breaker
  imports Prelude
begin

text \<open>
  internal/channel/circuit_breaker.go: one circuit breaker per channel id, in a map that all
  requests share under a mutex, so that every operation is one step. Times are nanoseconds; the
  zero time of a fresh breaker is \<open>None\<close>, which lies longer ago than any cooldown. Metrics and
  log lines are left out.
\<close>

section \<open>State and operations\<close>

datatype circuit_state = CircuitClosed | CircuitHalfOpen | CircuitOpen

record breaker =
  cb_state :: circuit_state
  cb_failures :: int
  cb_last_failure :: "int option"
  cb_last_success :: "int option"
  cb_probe :: bool

type_synonym breakers = "int \<Rightarrow> breaker option"

definition failureThreshold :: int where
  "failureThreshold = 5"

definition cooldownDuration :: int where
  "cooldownDuration = 30 * 10 ^ 9"

definition new_breaker :: breaker where
  "new_breaker = \<lparr>cb_state = CircuitClosed, cb_failures = 0, cb_last_failure = None,
     cb_last_success = None, cb_probe = False\<rparr>"

definition getOrCreateBreaker :: "int \<Rightarrow> breakers \<Rightarrow> breaker" where
  "getOrCreateBreaker cid bs = (case bs cid of Some cb \<Rightarrow> cb | None \<Rightarrow> new_breaker)"

definition circuitStateLabel :: "circuit_state \<Rightarrow> string" where
  "circuitStateLabel s = (case s of CircuitHalfOpen \<Rightarrow> ''half_open'' | CircuitOpen \<Rightarrow> ''open''
     | CircuitClosed \<Rightarrow> ''closed'')"

definition since_at_least :: "int \<Rightarrow> int option \<Rightarrow> int \<Rightarrow> bool" where
  "since_at_least now t d = (case t of None \<Rightarrow> True | Some t \<Rightarrow> now - t \<ge> d)"

definition isCircuitBlocked :: "int \<Rightarrow> int \<Rightarrow> breakers \<Rightarrow> bool \<times> breakers" where
  "isCircuitBlocked now cid bs =
     (case bs cid of
        None \<Rightarrow> (False, bs)
      | Some cb \<Rightarrow>
          (case cb_state cb of
             CircuitClosed \<Rightarrow> (False, bs)
           | CircuitOpen \<Rightarrow>
               if \<not> since_at_least now (cb_last_failure cb) cooldownDuration then (True, bs)
               else (False, bs(cid \<mapsto> cb\<lparr>cb_state := CircuitHalfOpen, cb_probe := True\<rparr>))
           | CircuitHalfOpen \<Rightarrow> (cb_probe cb, bs)))"

definition markChannelFailed :: "int \<Rightarrow> int \<Rightarrow> breakers \<Rightarrow> breakers" where
  "markChannelFailed now cid bs =
     (let cb = getOrCreateBreaker cid bs;
          n = wrap64 (cb_failures cb + 1);
          cb' = cb\<lparr>cb_failures := n, cb_last_failure := Some now, cb_probe := False\<rparr>
      in bs(cid \<mapsto> (if cb_state cb = CircuitHalfOpen \<or> n \<ge> failureThreshold
                    then cb'\<lparr>cb_state := CircuitOpen\<rparr> else cb')))"

definition markChannelSucceeded :: "int \<Rightarrow> int \<Rightarrow> breakers \<Rightarrow> breakers" where
  "markChannelSucceeded now cid bs =
     bs(cid \<mapsto> (getOrCreateBreaker cid bs)\<lparr>cb_failures := 0, cb_probe := False,
                   cb_state := CircuitClosed, cb_last_success := Some now\<rparr>)"

definition resetCircuitBreaker :: "int \<Rightarrow> int \<Rightarrow> breakers \<Rightarrow> breakers" where
  "resetCircuitBreaker now cid bs =
     (case bs cid of
        None \<Rightarrow> bs
      | Some cb \<Rightarrow> bs(cid \<mapsto> cb\<lparr>cb_state := CircuitClosed, cb_failures := 0, cb_probe := False,
                                cb_last_success := Some now\<rparr>))"

definition probeChannel :: "int \<Rightarrow> breakers \<Rightarrow> breakers" where
  "probeChannel cid bs =
     bs(cid \<mapsto> (getOrCreateBreaker cid bs)\<lparr>cb_state := CircuitHalfOpen, cb_failures := 0,
                   cb_probe := False\<rparr>)"

record health_snapshot =
  hs_channel :: int
  hs_state :: string
  hs_failures :: int
  hs_last_failure :: "int option"
  hs_last_success :: "int option"
  hs_probe :: bool
  hs_cooldown :: int

definition getChannelHealthSnapshot :: "int \<Rightarrow> breakers \<Rightarrow> health_snapshot" where
  "getChannelHealthSnapshot cid bs =
     (case bs cid of
        None \<Rightarrow> \<lparr>hs_channel = cid, hs_state = circuitStateLabel CircuitClosed, hs_failures = 0,
                 hs_last_failure = None, hs_last_success = None, hs_probe = False,
                 hs_cooldown = quot cooldownDuration (10 ^ 9)\<rparr>
      | Some cb \<Rightarrow> \<lparr>hs_channel = cid, hs_state = circuitStateLabel (cb_state cb),
                    hs_failures = cb_failures cb, hs_last_failure = cb_last_failure cb,
                    hs_last_success = cb_last_success cb, hs_probe = cb_probe cb,
                    hs_cooldown = quot cooldownDuration (10 ^ 9)\<rparr>)"

section \<open>Reachable states\<close>

datatype breaker_event = Check int int | Failed int int | Succeeded int int | Reset int int | Probe int

inductive breaker_step :: "breakers \<Rightarrow> breaker_event \<Rightarrow> breakers \<Rightarrow> bool" where
  check: "breaker_step bs (Check now cid) (snd (isCircuitBlocked now cid bs))"
| failed: "breaker_step bs (Failed now cid) (markChannelFailed now cid bs)"
| succeeded: "breaker_step bs (Succeeded now cid) (markChannelSucceeded now cid bs)"
| reset: "breaker_step bs (Reset now cid) (resetCircuitBreaker now cid bs)"
| probe: "breaker_step bs (Probe cid) (probeChannel cid bs)"

inductive_cases breaker_stepE: "breaker_step bs e bs'"

inductive breaker_reachable :: "breakers \<Rightarrow> bool" where
  start: "breaker_reachable (\<lambda>_. None)"
| step: "breaker_reachable bs \<Longrightarrow> breaker_step bs e bs' \<Longrightarrow> breaker_reachable bs'"

text \<open>
  A closed breaker has fewer failures than the threshold, an open one knows when it failed, and
  only a half-open one has a probe under way.
\<close>

definition breaker_ok :: "breaker \<Rightarrow> bool" where
  "breaker_ok cb \<longleftrightarrow>
     (cb_state cb = CircuitClosed \<longrightarrow> 0 \<le> cb_failures cb \<and> cb_failures cb < failureThreshold) \<and>
     (cb_state cb = CircuitOpen \<longrightarrow> cb_last_failure cb \<noteq> None) \<and>
     (cb_probe cb \<longrightarrow> cb_state cb = CircuitHalfOpen)"

definition breakers_ok :: "breakers \<Rightarrow> bool" where
  "breakers_ok bs \<longleftrightarrow> (\<forall>cid cb. bs cid = Some cb \<longrightarrow> breaker_ok cb)"

lemma getOrCreate_ok: "breakers_ok bs \<Longrightarrow> breaker_ok (getOrCreateBreaker cid bs)"
  by (auto simp: breakers_ok_def getOrCreateBreaker_def breaker_ok_def new_breaker_def
      failureThreshold_def split: option.splits)

lemma breakers_ok_update: "breakers_ok bs \<Longrightarrow> breaker_ok cb \<Longrightarrow> breakers_ok (bs(cid \<mapsto> cb))"
  by (simp add: breakers_ok_def)

lemma small_count: "0 \<le> n \<Longrightarrow> n < failureThreshold \<Longrightarrow> wrap64 (n + 1) = n + 1"
  by (rule wrap64_id) (auto simp: in_i64_def failureThreshold_def)

lemma failed_ok: "breakers_ok bs \<Longrightarrow> breakers_ok (markChannelFailed now cid bs)"
proof -
  assume "breakers_ok bs"
  then have ok: "breaker_ok (getOrCreateBreaker cid bs)" by (rule getOrCreate_ok)
  let ?cb = "getOrCreateBreaker cid bs"
  let ?n = "wrap64 (cb_failures ?cb + 1)"
  let ?cb' = "?cb\<lparr>cb_failures := ?n, cb_last_failure := Some now, cb_probe := False\<rparr>"
  have "breaker_ok (if cb_state ?cb = CircuitHalfOpen \<or> ?n \<ge> failureThreshold
      then ?cb'\<lparr>cb_state := CircuitOpen\<rparr> else ?cb')"
    using ok by (cases "cb_state ?cb") (auto simp: breaker_ok_def small_count)
  then show ?thesis
    using \<open>breakers_ok bs\<close> unfolding markChannelFailed_def Let_def by (intro breakers_ok_update)
qed

lemma step_ok: "breaker_step bs e bs' \<Longrightarrow> breakers_ok bs \<Longrightarrow> breakers_ok bs'"
proof (induction rule: breaker_step.induct)
  case (check bs now cid)
  then show ?case
    by (auto simp: isCircuitBlocked_def breakers_ok_def breaker_ok_def
        split: option.splits circuit_state.splits)
next
  case (failed bs now cid)
  then show ?case by (rule failed_ok)
next
  case (succeeded bs now cid)
  then show ?case
    unfolding markChannelSucceeded_def
    by (intro breakers_ok_update) (auto simp: breaker_ok_def failureThreshold_def)
next
  case (reset bs now cid)
  then show ?case
    by (auto simp: resetCircuitBreaker_def breakers_ok_def breaker_ok_def failureThreshold_def
        split: option.splits)
next
  case (probe bs cid)
  then show ?case
    unfolding probeChannel_def by (intro breakers_ok_update) (auto simp: breaker_ok_def)
qed

text \<open>
  C14. In every state that the operations can reach, a closed breaker counts fewer failures than
  the threshold, an open one has the time of its last failure, and a probe is under way only
  where the breaker is half open.
\<close>

theorem breaker_invariant:
  assumes "breaker_reachable bs" and "bs cid = Some cb"
  shows "(cb_state cb = CircuitClosed \<longrightarrow> 0 \<le> cb_failures cb \<and> cb_failures cb < failureThreshold) \<and>
    (cb_state cb = CircuitOpen \<longrightarrow> cb_last_failure cb \<noteq> None) \<and>
    (cb_probe cb \<longrightarrow> cb_state cb = CircuitHalfOpen)"
proof -
  have "breakers_ok bs" using assms(1)
  proof induction
    case start
    show ?case by (simp add: breakers_ok_def)
  next
    case (step bs e bs')
    then show ?case by (blast intro: step_ok)
  qed
  with assms(2) show ?thesis by (simp add: breakers_ok_def breaker_ok_def)
qed

theorem breaker_invariant_witness:
  "cb_state (the (markChannelFailed 9 4 (\<lambda>_. None) 4)) = CircuitClosed \<and>
   cb_failures (the (markChannelFailed 9 4 (\<lambda>_. None) 4)) < failureThreshold"
proof -
  let ?bs = "markChannelFailed 9 4 (\<lambda>_. None)"
  have r: "breaker_reachable ?bs"
    by (rule breaker_reachable.step [OF breaker_reachable.start breaker_step.failed])
  obtain cb where cb: "?bs 4 = Some cb" "cb_state cb = CircuitClosed"
    by (simp add: markChannelFailed_def getOrCreateBreaker_def new_breaker_def failureThreshold_def
        in_i64_def Let_def)
  from breaker_invariant [OF r cb(1)] cb show ?thesis by simp
qed

section \<open>Opening, cooling down, probing\<close>

lemma other_channel_untouched:
  assumes "cid' \<noteq> cid"
  shows "snd (isCircuitBlocked now cid bs) cid' = bs cid'" "markChannelFailed now cid bs cid' = bs cid'"
    "markChannelSucceeded now cid bs cid' = bs cid'" "resetCircuitBreaker now cid bs cid' = bs cid'"
    "probeChannel cid bs cid' = bs cid'"
  using assms
  by (auto simp: isCircuitBlocked_def markChannelFailed_def markChannelSucceeded_def
      resetCircuitBreaker_def probeChannel_def Let_def split: option.splits circuit_state.splits)

lemma fail_closed:
  assumes "getOrCreateBreaker cid bs = cb" "cb_state cb = CircuitClosed" "0 \<le> cb_failures cb"
    "cb_failures cb + 1 < failureThreshold"
  shows "markChannelFailed now cid bs cid =
    Some (cb\<lparr>cb_failures := cb_failures cb + 1, cb_last_failure := Some now, cb_probe := False\<rparr>)"
  using assms by (simp add: markChannelFailed_def Let_def small_count)

text \<open>Failures at the given times, one after the other.\<close>

definition fail_at :: "int \<Rightarrow> int list \<Rightarrow> breakers \<Rightarrow> breakers" where
  "fail_at cid ts bs = fold (\<lambda>t. markChannelFailed t cid) ts bs"

lemma fail_at_count:
  assumes "getOrCreateBreaker cid bs = cb" "cb_state cb = CircuitClosed" "0 \<le> cb_failures cb"
    "cb_failures cb + int (length ts) < failureThreshold"
  shows "\<exists>cb'. getOrCreateBreaker cid (fail_at cid ts bs) = cb' \<and> cb_state cb' = CircuitClosed \<and>
    cb_failures cb' = cb_failures cb + int (length ts)"
  using assms
proof (induction ts arbitrary: bs cb)
  case Nil
  then show ?case by (simp add: fail_at_def)
next
  case (Cons t ts)
  let ?bs = "markChannelFailed t cid bs"
  let ?cb = "cb\<lparr>cb_failures := cb_failures cb + 1, cb_last_failure := Some t, cb_probe := False\<rparr>"
  have "?bs cid = Some ?cb" using Cons.prems by (intro fail_closed) auto
  then have g: "getOrCreateBreaker cid ?bs = ?cb" by (simp add: getOrCreateBreaker_def)
  have s: "cb_state ?cb = CircuitClosed" "0 \<le> cb_failures ?cb"
    "cb_failures ?cb + int (length ts) < failureThreshold"
    using Cons.prems by simp_all
  from Cons.IH [OF g s] show ?case by (simp add: fail_at_def)
qed

text \<open>
  C15. The breaker opens with the fifth failure in a row and not before: after at most four
  failures since it was closed a channel takes traffic at any time; after five it takes none until
  the cooldown is over, and the checks in between change nothing.
\<close>

theorem breaker_opens_at_threshold:
  assumes "bs cid = None \<or> (\<exists>cb. bs cid = Some cb \<and> cb_state cb = CircuitClosed \<and> cb_failures cb = 0)"
  shows "(length ts < 5 \<longrightarrow> isCircuitBlocked now cid (fail_at cid ts bs) = (False, fail_at cid ts bs)) \<and>
    (length ts = 4 \<longrightarrow> now < t + cooldownDuration \<longrightarrow>
       isCircuitBlocked now cid (fail_at cid (ts @ [t]) bs) = (True, fail_at cid (ts @ [t]) bs))"
proof -
  let ?cb = "getOrCreateBreaker cid bs"
  have cb: "cb_state ?cb = CircuitClosed" "cb_failures ?cb = 0"
    using assms by (auto simp: getOrCreateBreaker_def new_breaker_def)
  have few: "\<exists>cb'. getOrCreateBreaker cid (fail_at cid ts bs) = cb' \<and> cb_state cb' = CircuitClosed \<and>
      cb_failures cb' = int (length ts)" if "length ts < 5" for ts
    using fail_at_count [OF refl cb(1), of ts] cb(2) that by (simp add: failureThreshold_def)
  have four: "isCircuitBlocked now cid (fail_at cid ts bs) = (False, fail_at cid ts bs)" if "length ts < 5"
    using few [OF that] by (auto simp: isCircuitBlocked_def getOrCreateBreaker_def split: option.splits)
  have five: "isCircuitBlocked now cid (fail_at cid (ts @ [t]) bs) = (True, fail_at cid (ts @ [t]) bs)"
    if l4: "length ts = 4" and lt: "now < t + cooldownDuration"
  proof -
    obtain cb' where "getOrCreateBreaker cid (fail_at cid ts bs) = cb'" "cb_state cb' = CircuitClosed"
      "cb_failures cb' = 4" using few [of ts] l4 by simp
    then have "fail_at cid (ts @ [t]) bs cid = Some (cb'\<lparr>cb_failures := 5, cb_last_failure := Some t,
        cb_probe := False, cb_state := CircuitOpen\<rparr>)"
      by (simp add: fail_at_def markChannelFailed_def Let_def failureThreshold_def in_i64_def)
    then show ?thesis using lt by (simp add: isCircuitBlocked_def since_at_least_def)
  qed
  show ?thesis using four five by simp
qed

theorem breaker_opens_at_threshold_witness:
  "fst (isCircuitBlocked 100 4 (fail_at 4 ([1, 2, 3, 4] @ [50]) (\<lambda>_. None))) = True"
  using breaker_opens_at_threshold [of "\<lambda>_. None" 4 "[1, 2, 3, 4]" 100 50]
  by (simp add: cooldownDuration_def)

text \<open>
  After the cooldown exactly one request gets through: the first check passes and takes the
  probe, and every later check, at whatever time, is refused until the probe is reported; a success
  closes the breaker, a failure opens it again for a whole cooldown.
\<close>

lemma breaker_single_probe:
  assumes "bs cid = Some cb" "cb_state cb = CircuitOpen" "since_at_least now (cb_last_failure cb) cooldownDuration"
    and "bs' = snd (isCircuitBlocked now cid bs)"
  shows "\<not> fst (isCircuitBlocked now cid bs) \<and>
    isCircuitBlocked later cid bs' = (True, bs') \<and>
    \<not> fst (isCircuitBlocked later cid (markChannelSucceeded t cid bs')) \<and>
    (later < t + cooldownDuration \<longrightarrow> fst (isCircuitBlocked later cid (markChannelFailed t cid bs')))"
  using assms
  by (auto simp: isCircuitBlocked_def markChannelSucceeded_def markChannelFailed_def Let_def
      getOrCreateBreaker_def since_at_least_def)

lemma breaker_single_probe_witness:
  "let bs = fail_at 4 [1, 2, 3, 4, 5] (\<lambda>_. None); bs' = snd (isCircuitBlocked (40 * 10 ^ 9) 4 bs) in
   \<not> fst (isCircuitBlocked (40 * 10 ^ 9) 4 bs) \<and> fst (isCircuitBlocked (10 ^ 15) 4 bs')"
proof -
  let ?bs = "fail_at 4 [1, 2, 3, 4, 5] (\<lambda>_. None)"
  obtain cb where cb: "?bs 4 = Some cb" "cb_state cb = CircuitOpen" "cb_last_failure cb = Some 5"
    by (simp add: fail_at_def markChannelFailed_def getOrCreateBreaker_def new_breaker_def
        failureThreshold_def in_i64_def Let_def)
  from breaker_single_probe [of ?bs 4 cb "40 * 10 ^ 9", OF cb(1,2) _ refl, of "10 ^ 15" 0] cb(3)
  show ?thesis by (simp add: since_at_least_def cooldownDuration_def)
qed

text \<open>
  A channel whose probe is never reported stays blocked for ever: no sequence of checks, at
  whatever times, gets it back.
\<close>

lemma unreported_probe_blocks_forever:
  assumes "bs cid = Some cb" "cb_state cb = CircuitHalfOpen" "cb_probe cb"
  shows "fold (\<lambda>(t, c) b. snd (isCircuitBlocked t c b)) checks bs cid = Some cb \<and>
    fst (isCircuitBlocked now cid (fold (\<lambda>(t, c) b. snd (isCircuitBlocked t c b)) checks bs))"
proof -
  have "fold (\<lambda>(t, c) b. snd (isCircuitBlocked t c b)) checks bs cid = Some cb"
    using assms(1)
  proof (induction checks arbitrary: bs)
    case (Cons x xs)
    obtain t c where x: "x = (t, c)" by (cases x)
    have "snd (isCircuitBlocked t c bs) cid = Some cb"
      using Cons.prems assms(2,3) other_channel_untouched(1) [of cid c t bs]
      by (cases "c = cid") (simp_all add: isCircuitBlocked_def)
    then show ?case using Cons.IH x by simp
  qed simp
  with assms show ?thesis by (simp add: isCircuitBlocked_def)
qed

lemma unreported_probe_blocks_forever_witness:
  "fst (isCircuitBlocked (10 ^ 18) 4 (fold (\<lambda>(t, c) b. snd (isCircuitBlocked t c b)) [(10 ^ 15, 4)]
      ((\<lambda>_. None)(4 \<mapsto> new_breaker\<lparr>cb_state := CircuitHalfOpen, cb_probe := True\<rparr>))))"
  using unreported_probe_blocks_forever [of
      "(\<lambda>_. None)(4 \<mapsto> new_breaker\<lparr>cb_state := CircuitHalfOpen, cb_probe := True\<rparr>)" 4
      "new_breaker\<lparr>cb_state := CircuitHalfOpen, cb_probe := True\<rparr>"
      "[(10 ^ 15, 4)]" "10 ^ 18"] by simp

text \<open>
  A manual probe lets any number of requests through, not one: the half-open branch of the check
  does not take the probe.
\<close>

lemma manual_probe_unlimited:
  "isCircuitBlocked now cid (probeChannel cid bs) = (False, probeChannel cid bs)"
  by (simp add: isCircuitBlocked_def probeChannel_def)

end
