(* ===== verification/Manager.thy ===== *)
theory Manager
  imports Provider Breaker Store
begin

text \<open>
  internal/channel/manager.go: the pool of upstream channels in memory and the choice of one of
  them for a model, by capability, circuit breaker and weight. The registry of providers is an
  argument. A request sees the time \<open>now\<close>; \<open>None\<close> is the error that no channel is available.
\<close>

section \<open>State and operations\<close>

record manager =
  mg_channels :: "channel_row list"
  mg_index :: int
  mg_breakers :: breakers

definition init_manager :: manager where
  "init_manager = \<lparr>mg_channels = [], mg_index = 0, mg_breakers = (\<lambda>_. None)\<rparr>"

text \<open>\<open>LoadChannels\<close> on the rows that the query returned; an error leaves the pool as it is.\<close>

definition loadChannels :: "channel_row list option \<Rightarrow> manager \<Rightarrow> bool \<times> manager" where
  "loadChannels rows m = (case rows of None \<Rightarrow> (False, m) | Some cs \<Rightarrow> (True, m\<lparr>mg_channels := cs\<rparr>))"

definition readChannelWeight :: "channel_row \<Rightarrow> int" where
  "readChannelWeight ch = (case c_weight ch of Some w \<Rightarrow> if w > 0 then w else 1 | None \<Rightarrow> 1)"

definition containsModel :: "string \<Rightarrow> string \<Rightarrow> bool" where
  "containsModel modelsStr target =
     (if modelsStr = ''*'' then True
      else list_ex (\<lambda>m. m = target)
             (text_words (map (\<lambda>c. if c = CHR '','' then CHR '' '' else c) modelsStr)))"

text \<open>The counter is a uint64 that is incremented atomically.\<close>

definition next_index :: "manager \<Rightarrow> int \<times> manager" where
  "next_index m = (let i = (mg_index m + 1) mod 2 ^ 64 in (i, m\<lparr>mg_index := i\<rparr>))"

fun pick_target :: "channel_row list \<Rightarrow> int \<Rightarrow> int \<Rightarrow> channel_row option" where
  "pick_target [] target current = None"
| "pick_target (ch # chs) target current =
     (let current = current + readChannelWeight ch in
      if target < current then Some ch else pick_target chs target current)"

definition pickWeightedChannel :: "channel_row list \<Rightarrow> manager \<Rightarrow> channel_row \<times> manager" where
  "pickWeightedChannel chs m =
     (if length chs = 1 then (chs ! 0, m)
      else
        let total = sum_list (map readChannelWeight chs); (i, m') = next_index m in
        if total \<le> 0 then (chs ! nat (i mod int (length chs)), m')
        else case pick_target chs (i mod total) 0 of
               Some ch \<Rightarrow> (ch, m')
             | None \<Rightarrow> (last chs, m'))"

text \<open>The loop over the pool; a check of a breaker may change it, whatever comes of the channel.\<close>

fun available_channels ::
  "registry \<Rightarrow> int \<Rightarrow> string \<Rightarrow> bool \<Rightarrow> capabilities \<Rightarrow> int list \<Rightarrow> channel_row list \<Rightarrow> breakers
   \<Rightarrow> channel_row list \<times> breakers" where
  "available_channels reg now model async req excl [] bs = ([], bs)"
| "available_channels reg now model async req excl (ch # chs) bs =
     (if c_id ch \<in> set excl then available_channels reg now model async req excl chs bs
      else
        let (blocked, bs1) = isCircuitBlocked now (c_id ch) bs;
            (rest, bs2) = available_channels reg now model async req excl chs bs1
        in if blocked then (rest, bs2)
           else if async \<and> \<not> c_supports_async ch then (rest, bs2)
           else if \<not> supports (sp_caps (getProvider reg (c_provider ch))) req then (rest, bs2)
           else if c_models ch = '''' \<or> containsModel (c_models ch) model then (ch # rest, bs2)
           else (rest, bs2))"

definition getNextChannel ::
  "registry \<Rightarrow> int \<Rightarrow> string \<Rightarrow> bool \<Rightarrow> capabilities \<Rightarrow> int list \<Rightarrow> manager
   \<Rightarrow> channel_row option \<times> manager" where
  "getNextChannel reg now model async req excl m =
     (if mg_channels m = [] then (None, m)
      else
        case available_channels reg now model async req excl (mg_channels m) (mg_breakers m) of
          (avail, bs) \<Rightarrow>
            let m1 = m\<lparr>mg_breakers := bs\<rparr> in
            if avail = [] then (None, m1)
            else (case pickWeightedChannel avail m1 of (ch, m2) \<Rightarrow> (Some ch, m2)))"

definition getNextChannelAny :: "registry \<Rightarrow> int \<Rightarrow> string \<Rightarrow> manager \<Rightarrow> channel_row option \<times> manager" where
  "getNextChannelAny reg now model m = getNextChannel reg now model False no_caps [] m"

definition getNextAsyncChannel :: "registry \<Rightarrow> int \<Rightarrow> string \<Rightarrow> manager \<Rightarrow> channel_row option \<times> manager" where
  "getNextAsyncChannel reg now model m = getNextChannel reg now model True no_caps [] m"

definition getNextChannelExcluding ::
  "registry \<Rightarrow> int \<Rightarrow> string \<Rightarrow> int list \<Rightarrow> manager \<Rightarrow> channel_row option \<times> manager" where
  "getNextChannelExcluding reg now model excl m = getNextChannel reg now model False no_caps excl m"

definition getNextChannelForCapabilities ::
  "registry \<Rightarrow> int \<Rightarrow> string \<Rightarrow> capabilities \<Rightarrow> manager \<Rightarrow> channel_row option \<times> manager" where
  "getNextChannelForCapabilities reg now model req m =
     getNextChannel reg now model (cap_async_task req) req [] m"

definition getNextChannelForCapabilitiesExcluding ::
  "registry \<Rightarrow> int \<Rightarrow> string \<Rightarrow> capabilities \<Rightarrow> int list \<Rightarrow> manager
   \<Rightarrow> channel_row option \<times> manager" where
  "getNextChannelForCapabilitiesExcluding reg now model req excl m =
     getNextChannel reg now model (cap_async_task req) req excl m"

section \<open>The weighted pick\<close>

lemma weight_pos [simp]: "1 \<le> readChannelWeight ch" "0 < readChannelWeight ch"
  by (auto simp: readChannelWeight_def split: option.splits)

lemma total_weight_pos: "chs \<noteq> [] \<Longrightarrow> 0 < sum_list (map readChannelWeight chs)"
proof (induction chs)
  case (Cons c cs)
  have "0 \<le> sum_list (map readChannelWeight cs)" by (rule sum_list_nonneg) (auto intro: order.trans [OF _ weight_pos(1)])
  then have "0 < readChannelWeight c + sum_list (map readChannelWeight cs)"
    by (rule add_pos_nonneg [OF weight_pos(2)])
  then show ?case by simp
qed simp

lemma pick_target_in:
  "current \<le> target \<Longrightarrow> target < current + sum_list (map readChannelWeight chs) \<Longrightarrow>
     \<exists>ch. pick_target chs target current = Some ch \<and> ch \<in> set chs"
proof (induction chs arbitrary: current)
  case (Cons c cs)
  show ?case
  proof (cases "target < current + readChannelWeight c")
    case False
    then obtain ch where "pick_target cs target (current + readChannelWeight c) = Some ch" "ch \<in> set cs"
      using Cons.IH [of "current + readChannelWeight c"] Cons.prems by auto
    with False show ?thesis by simp
  qed simp
qed simp

lemma pickWeighted_in:
  assumes "chs \<noteq> []" "pickWeightedChannel chs m = (ch, m')"
  shows "ch \<in> set chs \<and> mg_breakers m' = mg_breakers m \<and> mg_channels m' = mg_channels m"
proof (cases "length chs = 1")
  case True
  with assms show ?thesis by (auto simp: pickWeightedChannel_def)
next
  case False
  let ?total = "sum_list (map readChannelWeight chs)"
  let ?i = "(mg_index m + 1) mod 2 ^ 64"
  have pos: "0 < ?total" by (rule total_weight_pos [OF assms(1)])
  then have "0 \<le> ?i mod ?total" "?i mod ?total < 0 + ?total" by simp_all
  then obtain c where "pick_target chs (?i mod ?total) 0 = Some c" "c \<in> set chs"
    using pick_target_in by blast
  with assms False pos show ?thesis
    by (auto simp: pickWeightedChannel_def next_index_def Let_def)
qed

section \<open>A choice is sound\<close>

definition fits_request ::
  "registry \<Rightarrow> string \<Rightarrow> bool \<Rightarrow> capabilities \<Rightarrow> channel_row \<Rightarrow> bool" where
  "fits_request reg model async req ch \<longleftrightarrow>
     (async \<longrightarrow> c_supports_async ch) \<and> supports (sp_caps (getProvider reg (c_provider ch))) req \<and>
     (c_models ch = '''' \<or> containsModel (c_models ch) model)"

text \<open>One turn of the loop, with its filters in one condition.\<close>

lemma available_Cons:
  "fst (available_channels reg now model async req excl (c # cs) bs) =
     (if c_id c \<in> set excl then fst (available_channels reg now model async req excl cs bs)
      else (if \<not> fst (isCircuitBlocked now (c_id c) bs) \<and> fits_request reg model async req c
            then [c] else []) @
           fst (available_channels reg now model async req excl cs
             (snd (isCircuitBlocked now (c_id c) bs))))"
  by (cases "isCircuitBlocked now (c_id c) bs";
      cases "available_channels reg now model async req excl cs (snd (isCircuitBlocked now (c_id c) bs))")
    (auto simp: fits_request_def)

declare available_channels.simps(2) [simp del]

lemma available_sound:
  "ch \<in> set (fst (available_channels reg now model async req excl chs bs)) \<Longrightarrow>
   ch \<in> set chs \<and> c_id ch \<notin> set excl \<and> fits_request reg model async req ch"
  by (induction chs arbitrary: bs) (auto simp: available_Cons split: if_splits)

text \<open>
  A channel that is open and still cooling down, or whose probe is under way, stays so during the
  loop and is not offered.
\<close>

definition cooling :: "int \<Rightarrow> int \<Rightarrow> breakers \<Rightarrow> bool" where
  "cooling now cid bs \<longleftrightarrow> (\<exists>cb. bs cid = Some cb \<and>
     (cb_state cb = CircuitOpen \<and> \<not> since_at_least now (cb_last_failure cb) cooldownDuration \<or>
      cb_state cb = CircuitHalfOpen \<and> cb_probe cb))"

lemma cooling_blocked: "cooling now cid bs \<Longrightarrow> isCircuitBlocked now cid bs = (True, bs)"
  by (auto simp: cooling_def isCircuitBlocked_def)

lemma cooling_stays: "cooling now cid bs \<Longrightarrow> cooling now cid (snd (isCircuitBlocked now c bs))"
  using cooling_blocked [of now cid bs] other_channel_untouched(1) [of cid c now bs]
  by (cases "c = cid") (auto simp: cooling_def)

lemma available_not_cooling:
  "cooling now (c_id ch) bs \<Longrightarrow>
   ch \<notin> set (fst (available_channels reg now model async req excl chs bs))"
proof (induction chs arbitrary: bs)
  case (Cons c cs)
  have "fst (isCircuitBlocked now (c_id c) bs)" if "c = ch"
    using cooling_blocked [OF Cons.prems] that by simp
  then show ?case
    using Cons.IH [OF Cons.prems] Cons.IH [OF cooling_stays [OF Cons.prems]]
    by (auto simp: available_Cons)
qed simp

lemma chosen_from_available:
  assumes "getNextChannel reg now model async req excl m = (Some ch, m')"
  shows "ch \<in> set (fst (available_channels reg now model async req excl (mg_channels m)
           (mg_breakers m))) \<and> mg_channels m' = mg_channels m"
proof -
  obtain avail bs where av: "available_channels reg now model async req excl (mg_channels m)
      (mg_breakers m) = (avail, bs)" by fastforce
  with assms have ne: "avail \<noteq> []" and pk: "pickWeightedChannel avail (m\<lparr>mg_breakers := bs\<rparr>) = (ch, m')"
    by (auto simp: getNextChannel_def Let_def split: if_splits prod.splits)
  show ?thesis using pickWeighted_in [OF ne pk] av by simp
qed

text \<open>
  C11. The channel that the manager gives out is in the pool, is not one that the request has
  tried already, is not behind an open or probing breaker, supports asynchronous tasks and the
  capabilities where they are asked for, and lists the model.
\<close>

theorem next_channel_sound:
  assumes "getNextChannel reg now model async req excl m = (Some ch, m')"
  shows "ch \<in> set (mg_channels m) \<and> c_id ch \<notin> set excl \<and> \<not> cooling now (c_id ch) (mg_breakers m) \<and>
    (async \<longrightarrow> c_supports_async ch) \<and> supports (sp_caps (getProvider reg (c_provider ch))) req \<and>
    (c_models ch = '''' \<or> containsModel (c_models ch) model) \<and> mg_channels m' = mg_channels m"
  using available_sound [OF conjunct1 [OF chosen_from_available [OF assms]]]
    available_not_cooling chosen_from_available [OF assms]
  by (auto simp: fits_request_def)

definition witness_channel :: "int \<Rightarrow> channel_row" where
  "witness_channel i = \<lparr>c_id = i, c_name = ''main'', c_provider = ''openai'', c_base_url = '''',
     c_api_key = ''k'', c_models = ''gpt-4o,gpt-4o-mini'', c_protocol = ''openai'',
     c_upload_mode = '''', c_model_mapping = JNull, c_supports_async = False, c_weight = Some i,
     c_status = Some 1\<rparr>"

definition witness_pool :: manager where
  "witness_pool = snd (loadChannels (Some [witness_channel 2, witness_channel 3]) init_manager)"

theorem next_channel_sound_witness:
  "\<exists>ch m'. getNextChannel catalog 100 ''gpt-4o'' False no_caps [2] witness_pool = (Some ch, m') \<and>
     ch \<in> set (mg_channels witness_pool) \<and> c_id ch \<notin> {2}"
proof -
  obtain ch m' where g: "getNextChannel catalog 100 ''gpt-4o'' False no_caps [2] witness_pool = (Some ch, m')"
  proof -
    have "fst (getNextChannel catalog 100 ''gpt-4o'' False no_caps [2] witness_pool) = Some (witness_channel 3)"
      by code_simp
    then show thesis using that by (metis prod.collapse)
  qed
  from next_channel_sound [OF g] g show ?thesis by auto
qed

definition breaker_closed :: "int \<Rightarrow> breakers \<Rightarrow> bool" where
  "breaker_closed cid bs \<longleftrightarrow> (case bs cid of None \<Rightarrow> True | Some cb \<Rightarrow> cb_state cb = CircuitClosed)"

lemma closed_passes: "breaker_closed cid bs \<Longrightarrow> isCircuitBlocked now cid bs = (False, bs)"
  by (auto simp: breaker_closed_def isCircuitBlocked_def split: option.splits)

lemma closed_stays: "breaker_closed cid bs \<Longrightarrow> breaker_closed cid (snd (isCircuitBlocked now c bs))"
  using closed_passes [of cid bs now] other_channel_untouched(1) [of cid c now bs]
  by (cases "c = cid") (auto simp: breaker_closed_def)

lemma available_complete:
  assumes "c_id ch \<notin> set excl" "fits_request reg model async req ch"
  shows "ch \<in> set chs \<Longrightarrow> breaker_closed (c_id ch) bs \<Longrightarrow>
    ch \<in> set (fst (available_channels reg now model async req excl chs bs))"
proof (induction chs arbitrary: bs)
  case (Cons c cs)
  have pass: "\<not> fst (isCircuitBlocked now (c_id c) bs)" if "c = ch"
    using closed_passes [OF Cons.prems(2)] that by simp
  show ?case
  proof (cases "c = ch")
    case True
    with pass assms show ?thesis by (simp add: available_Cons)
  next
    case False
    then show ?thesis
      using Cons.prems Cons.IH [OF _ Cons.prems(2)] Cons.IH [OF _ closed_stays [OF Cons.prems(2)]]
      by (auto simp: available_Cons)
  qed
qed simp

text \<open>
  C12. Availability: while a channel of the pool that has not been tried fits the request and its
  breaker is closed, the manager gives out some channel.
\<close>

theorem next_channel_available:
  assumes "ch \<in> set (mg_channels m)" "c_id ch \<notin> set excl" "breaker_closed (c_id ch) (mg_breakers m)"
    and "fits_request reg model async req ch"
  shows "\<exists>ch' m'. getNextChannel reg now model async req excl m = (Some ch', m')"
proof -
  have "ch \<in> set (fst (available_channels reg now model async req excl (mg_channels m) (mg_breakers m)))"
    by (rule available_complete [OF assms(2,4,1,3)])
  then show ?thesis using assms(1) by (auto simp: getNextChannel_def Let_def split: prod.splits)
qed

theorem next_channel_available_witness:
  "\<exists>ch' m'. getNextChannel catalog 100 ''gpt-4o'' False no_caps [3] witness_pool = (Some ch', m')"
proof -
  have "witness_channel 2 \<in> set (mg_channels witness_pool)"
    "breaker_closed (c_id (witness_channel 2)) (mg_breakers witness_pool)"
    by (simp_all add: witness_pool_def loadChannels_def init_manager_def breaker_closed_def)
  moreover have "c_id (witness_channel 2) \<notin> set [3]" by (simp add: witness_channel_def)
  moreover have "fits_request catalog ''gpt-4o'' False no_caps (witness_channel 2)" by code_simp
  ultimately show ?thesis by (intro next_channel_available)
qed

section \<open>Weighted fairness\<close>

definition total_weight :: "channel_row list \<Rightarrow> int" where
  "total_weight chs = sum_list (map readChannelWeight chs)"

lemma total_weight_simps [simp]:
  "total_weight [] = 0" "total_weight (c # cs) = readChannelWeight c + total_weight cs"
  by (simp_all add: total_weight_def)

lemma total_weight_nonneg [simp]: "0 \<le> total_weight chs"
proof (induction chs)
  case (Cons c cs)
  then show ?case using weight_pos(2) [of c] by (simp del: weight_pos)
qed simp

text \<open>The targets of one channel: an interval as long as its weight.\<close>

definition hits :: "channel_row list \<Rightarrow> int \<Rightarrow> channel_row \<Rightarrow> int set" where
  "hits chs cur c = {t. cur \<le> t \<and> t < cur + total_weight chs \<and> pick_target chs t cur = Some c}"

lemma pick_target_mem: "pick_target chs t cur = Some c \<Longrightarrow> c \<in> set chs"
  by (induction chs arbitrary: cur) (auto simp: Let_def split: if_splits)

lemma hits_Cons:
  "hits (x # xs) cur c =
     (if x = c then {cur ..< cur + readChannelWeight x} else {}) \<union> hits xs (cur + readChannelWeight x) c"
proof -
  obtain w where w: "readChannelWeight x = w" "0 < w" using weight_pos(2) by blast
  obtain T where T: "total_weight xs = T" "0 \<le> T" using total_weight_nonneg by blast
  show ?thesis
  proof (cases "x = c")
    case True
    show ?thesis using w(2) T(2) by (auto simp: hits_def w(1) [unfolded True] T(1) Let_def True)
  next
    case False
    then show ?thesis using w(2) T(2) by (auto simp: hits_def w(1) T(1) Let_def split: if_splits)
  qed
qed

lemma card_hits: "distinct chs \<Longrightarrow> c \<in> set chs \<Longrightarrow> card (hits chs cur c) = nat (readChannelWeight c)"
proof (induction chs arbitrary: cur)
  case (Cons x xs)
  show ?case
  proof (cases "x = c")
    case True
    with Cons.prems have "hits xs (cur + readChannelWeight x) c = {}"
      by (auto simp: hits_def dest: pick_target_mem)
    with True show ?thesis by (simp add: hits_Cons)
  next
    case False
    with Cons show ?thesis by (simp add: hits_Cons)
  qed
qed simp

text \<open>Any \<open>T\<close> consecutive counters meet every residue once.\<close>

lemma residues_once:
  fixes a :: int
  assumes "0 < T"
  shows "inj_on (\<lambda>k. (a + int k) mod T) {..<nat T} \<and> (\<lambda>k. (a + int k) mod T) ` {..<nat T} = {0..<T}"
proof -
  let ?f = "\<lambda>k. (a + int k) mod T"
  have inj: "inj_on ?f {..<nat T}"
  proof (rule inj_onI)
    fix i j assume "i \<in> {..<nat T}" "j \<in> {..<nat T}" "?f i = ?f j"
    then have "T dvd (a + int i) - (a + int j)" by (simp add: mod_eq_dvd_iff)
    then have "T dvd int i - int j" by simp
    moreover have "\<bar>int i - int j\<bar> < T" using \<open>i \<in> _\<close> \<open>j \<in> _\<close> by auto
    ultimately show "i = j" using zdvd_imp_le [of T "\<bar>int i - int j\<bar>"] by fastforce
  qed
  have sub: "?f ` {..<nat T} \<subseteq> {0..<T}" using assms by auto
  have "card (?f ` {..<nat T}) = card {0..<T}" using inj assms by (simp add: card_image)
  then show ?thesis using inj sub card_subset_eq by blast
qed

text \<open>The channels that consecutive picks from the same list give.\<close>

fun picks :: "nat \<Rightarrow> channel_row list \<Rightarrow> manager \<Rightarrow> channel_row list" where
  "picks 0 chs m = []"
| "picks (Suc n) chs m = (case pickWeightedChannel chs m of (ch, m') \<Rightarrow> ch # picks n chs m')"

lemma pick_at:
  assumes "2 \<le> length chs" "0 \<le> mg_index m" "mg_index m + 1 < 2 ^ 64"
  shows "pickWeightedChannel chs m =
    (the (pick_target chs ((mg_index m + 1) mod total_weight chs) 0), m\<lparr>mg_index := mg_index m + 1\<rparr>)"
proof -
  have "chs \<noteq> []" using assms(1) by auto
  from total_weight_pos [OF this] have pos: "0 < total_weight chs" by (simp add: total_weight_def)
  then obtain c where "pick_target chs ((mg_index m + 1) mod total_weight chs) 0 = Some c"
    using pick_target_in [of 0 "(mg_index m + 1) mod total_weight chs" chs] by (auto simp: total_weight_def)
  with pos assms show ?thesis
    by (simp add: pickWeightedChannel_def next_index_def Let_def total_weight_def)
qed

lemma picks_eq:
  assumes "2 \<le> length chs" "0 \<le> mg_index m" "mg_index m + int n < 2 ^ 64"
  shows "picks n chs m =
    map (\<lambda>k. the (pick_target chs ((mg_index m + 1 + int k) mod total_weight chs) 0)) [0..<n]"
  using assms(2,3)
proof (induction n arbitrary: m)
  case (Suc n)
  have "picks n chs (m\<lparr>mg_index := mg_index m + 1\<rparr>) =
      map (\<lambda>k. the (pick_target chs ((mg_index m + 1 + 1 + int k) mod total_weight chs) 0)) [0..<n]"
    using Suc.IH [of "m\<lparr>mg_index := mg_index m + 1\<rparr>"] Suc.prems by simp
  then show ?case
    using Suc.prems pick_at [OF assms(1), of m]
    by (simp add: upt_conv_Cons map_Suc_upt [symmetric] algebra_simps del: upt_Suc)
qed simp

text \<open>
  C13. Weighted fairness: over as many consecutive picks as the weights add up to, from a fixed
  list of at least two different channels, every channel is picked exactly as often as its weight
  says, wherever the shared counter starts, short of the wrap-around of its 64 bits.
\<close>

theorem weighted_fairness:
  assumes "2 \<le> length chs" "distinct chs" "ch \<in> set chs"
    and "0 \<le> mg_index m" "mg_index m + sum_list (map readChannelWeight chs) < 2 ^ 64"
  shows "count_list (picks (nat (sum_list (map readChannelWeight chs))) chs m) ch =
    nat (readChannelWeight ch)"
proof -
  let ?T = "total_weight chs" and ?a = "mg_index m + 1"
  let ?f = "\<lambda>k. (?a + int k) mod ?T"
  have "chs \<noteq> []" using assms(1) by auto
  from total_weight_pos [OF this] have pos: "0 < ?T" by (simp add: total_weight_def)
  have some: "pick_target chs t 0 \<noteq> None" if "t \<in> {0..<?T}" for t
    using pick_target_in [of 0 t chs] that by (auto simp: total_weight_def)
  have eq: "picks (nat ?T) chs m = map (\<lambda>k. the (pick_target chs (?f k) 0)) [0..<nat ?T]"
    using picks_eq [of chs m "nat ?T"] assms pos by (simp add: total_weight_def)
  have hit: "the (pick_target chs (?f k) 0) = ch \<longleftrightarrow> ?f k \<in> hits chs 0 ch" for k
    using some [of "?f k"] pos by (auto simp: hits_def)
  have "count_list (picks (nat ?T) chs m) ch = length (filter (\<lambda>k. ?f k \<in> hits chs 0 ch) [0..<nat ?T])"
    by (simp add: eq count_list_eq_length_filter filter_map o_def hit [symmetric]
        eq_commute [of ch])
  also have "\<dots> = card {k \<in> {..<nat ?T}. ?f k \<in> hits chs 0 ch}"
  proof -
    have "{k. ?f k \<in> hits chs 0 ch} \<inter> set [0..<nat ?T] = {k \<in> {..<nat ?T}. ?f k \<in> hits chs 0 ch}"
      by (auto simp only: set_upt atLeast0LessThan)
    then show ?thesis using distinct_length_filter [OF distinct_upt] by metis
  qed
  also have "\<dots> = card (?f ` {k \<in> {..<nat ?T}. ?f k \<in> hits chs 0 ch})"
    using residues_once [OF pos, of ?a] by (intro card_image [symmetric]) (auto intro: inj_on_subset)
  also have "?f ` {k \<in> {..<nat ?T}. ?f k \<in> hits chs 0 ch} = hits chs 0 ch"
  proof -
    have "hits chs 0 ch \<subseteq> ?f ` {..<nat ?T}"
      using residues_once [OF pos, of ?a] by (auto simp: hits_def)
    then show ?thesis by blast
  qed
  finally show ?thesis using card_hits [OF assms(2,3)] by (simp add: total_weight_def)
qed

theorem weighted_fairness_witness:
  "count_list (picks 5 [witness_channel 2, witness_channel 3] init_manager) (witness_channel 3) = 3"
  using weighted_fairness [of "[witness_channel 2, witness_channel 3]" "witness_channel 3" init_manager]
  by (simp add: witness_channel_def readChannelWeight_def init_manager_def)

section \<open>The probe that nobody makes\<close>

text \<open>A channel whose cooldown is over when the loop comes to it has its probe taken.\<close>

definition probing :: "int \<Rightarrow> breakers \<Rightarrow> bool" where
  "probing cid bs \<longleftrightarrow> (\<exists>cb. bs cid = Some cb \<and> cb_state cb = CircuitHalfOpen \<and> cb_probe cb)"

definition cooled :: "int \<Rightarrow> int \<Rightarrow> breakers \<Rightarrow> bool" where
  "cooled now cid bs \<longleftrightarrow> (\<exists>cb. bs cid = Some cb \<and> cb_state cb = CircuitOpen \<and>
     since_at_least now (cb_last_failure cb) cooldownDuration)"

lemma probing_cooling: "probing cid bs \<Longrightarrow> cooling now cid bs"
  by (auto simp: probing_def cooling_def)

lemma probing_stays: "probing cid bs \<Longrightarrow> probing cid (snd (isCircuitBlocked now c bs))"
  using cooling_blocked [OF probing_cooling, of cid bs now] other_channel_untouched(1) [of cid c now bs]
  by (cases "c = cid") (auto simp: probing_def)

lemma cooled_taken: "cooled now cid bs \<Longrightarrow> probing cid (snd (isCircuitBlocked now cid bs))"
  by (auto simp: cooled_def isCircuitBlocked_def probing_def)

lemma cooled_other: "c \<noteq> cid \<Longrightarrow> cooled now cid bs \<Longrightarrow> cooled now cid (snd (isCircuitBlocked now c bs))"
  using other_channel_untouched(1) [of cid c now bs] by (simp add: cooled_def)

lemma available_snd:
  "snd (available_channels reg now model async req excl (c # cs) bs) =
     (if c_id c \<in> set excl then snd (available_channels reg now model async req excl cs bs)
      else snd (available_channels reg now model async req excl cs (snd (isCircuitBlocked now (c_id c) bs))))"
  by (cases "isCircuitBlocked now (c_id c) bs";
      cases "available_channels reg now model async req excl cs (snd (isCircuitBlocked now (c_id c) bs))")
    (auto simp: available_channels.simps(2))

lemma available_keeps_probing:
  "probing cid bs \<Longrightarrow> probing cid (snd (available_channels reg now model async req excl chs bs))"
  by (induction chs arbitrary: bs) (auto simp: available_snd probing_stays)

lemma available_takes_probe:
  "cooled now (c_id ch) bs \<Longrightarrow> ch \<in> set chs \<Longrightarrow> c_id ch \<notin> set excl \<Longrightarrow>
   probing (c_id ch) (snd (available_channels reg now model async req excl chs bs))"
proof (induction chs arbitrary: bs)
  case (Cons c cs)
  show ?case
  proof (cases "c_id c = c_id ch")
    case True
    then show ?thesis using Cons.prems cooled_taken [OF Cons.prems(1)]
      by (simp add: available_snd available_keeps_probing)
  next
    case False
    then have "ch \<in> set cs" using Cons.prems by auto
    then show ?thesis using Cons False cooled_other [OF False Cons.prems(1)] by (simp add: available_snd)
  qed
qed simp

lemma getNext_breakers:
  assumes "mg_channels m \<noteq> []"
  shows "mg_breakers (snd (getNextChannel reg now model async req excl m)) =
    snd (available_channels reg now model async req excl (mg_channels m) (mg_breakers m))"
proof -
  obtain avail bs where av: "available_channels reg now model async req excl (mg_channels m)
      (mg_breakers m) = (avail, bs)" by fastforce
  obtain c m2 where pk: "pickWeightedChannel avail (m\<lparr>mg_breakers := bs\<rparr>) = (c, m2)" by fastforce
  show ?thesis using assms av pk pickWeighted_in [OF _ pk] by (auto simp: getNextChannel_def Let_def)
qed

text \<open>
  A request for one model can take the probe of a channel that does not serve that model: the
  channel, open and cooled down, is left half open with its probe taken though it is not chosen,
  and from then on no request is given it, for whatever model and at whatever time, until a report
  or a reset by hand.
\<close>

lemma probe_taken_by_other_model:
  assumes "ch \<in> set (mg_channels m)" "c_id ch \<notin> set excl" "cooled now (c_id ch) (mg_breakers m)"
    and "\<not> fits_request reg model async req ch"
    and "m' = snd (getNextChannel reg now model async req excl m)"
  shows "fst (getNextChannel reg now model async req excl m) \<noteq> Some ch \<and>
    fst (getNextChannel reg later model2 async2 req2 excl2 m') \<noteq> Some ch"
proof -
  let ?g = "getNextChannel reg now model async req excl m"
  have "mg_channels m \<noteq> []" using assms(1) by auto
  then have pr: "probing (c_id ch) (mg_breakers m')"
    using available_takes_probe [OF assms(3,1,2)] getNext_breakers assms(5) by metis
  have one: "fst ?g \<noteq> Some ch"
    using available_sound chosen_from_available assms(4) by (metis prod.collapse)
  have two: "fst (getNextChannel reg later model2 async2 req2 excl2 m') \<noteq> Some ch"
    using available_not_cooling [OF probing_cooling [OF pr]] chosen_from_available by (metis prod.collapse)
  from one two show ?thesis ..
qed

lemma probe_taken_by_other_model_witness:
  "let m = witness_pool\<lparr>mg_breakers := fail_at 2 [1, 2, 3, 4, 5] (\<lambda>_. None)\<rparr>;
       m' = snd (getNextChannel catalog (10 ^ 12) ''claude'' False no_caps [] m)
   in fst (getNextChannel catalog (10 ^ 15) ''gpt-4o'' False no_caps [] m') \<noteq> Some (witness_channel 2)"
proof -
  let ?m = "witness_pool\<lparr>mg_breakers := fail_at 2 [1, 2, 3, 4, 5] (\<lambda>_. None)\<rparr>"
  have a: "witness_channel 2 \<in> set (mg_channels ?m)" "c_id (witness_channel 2) \<notin> set []"
    by (simp_all add: witness_pool_def loadChannels_def)
  have b: "cooled (10 ^ 12) (c_id (witness_channel 2)) (mg_breakers ?m)"
    by (simp add: cooled_def fail_at_def markChannelFailed_def getOrCreateBreaker_def new_breaker_def
        failureThreshold_def in_i64_def Let_def witness_channel_def since_at_least_def cooldownDuration_def)
  have c: "\<not> fits_request catalog ''claude'' False no_caps (witness_channel 2)" by code_simp
  from probe_taken_by_other_model [OF a b c refl] show ?thesis by (simp add: Let_def)
qed

end
