(* ===== verification/World.thy ===== *)
theory World
  imports Store LuaScripts Manager
begin

text \<open>
  The state that the gateway's components share, and the calls that leave the process. Every
  call to Redis, PostgreSQL or the task queue takes one entry of the fault list: \<open>Fine\<close>, the
  call does what it does; \<open>Refused\<close>, nothing happens and the caller gets an error; \<open>Lost\<close>, the
  effect happens but the reply is lost, so the caller gets an error all the same. An empty list
  means that nothing fails. Theorems that quantify over the fault list hold for every pattern of
  failures. \<open>w_now\<close> is the clock, in nanoseconds since the epoch.
\<close>

datatype fault = Fine | Refused | Lost

record 'r world =
  w_redis :: 'r
  w_redis_on :: bool
  w_asynq_on :: bool
  w_db :: db
  w_queue :: "task list"
  w_faults :: "fault list"
  w_now :: int
  w_uuids :: "string list"
  w_models :: "string \<Rightarrow> model_row option"
  w_manager :: manager
definition next_fault :: "'r world \<Rightarrow> fault \<times> 'r world" where
  "next_fault w = (case w_faults w of [] \<Rightarrow> (Fine, w) | f # fs \<Rightarrow> (f, w\<lparr>w_faults := fs\<rparr>))"

text \<open>A script or command of Redis; \<open>None\<close> is the error the client sees.\<close>

definition redis_call :: "('r \<Rightarrow> 'a option \<times> 'r) \<Rightarrow> 'r world \<Rightarrow> 'a option \<times> 'r world" where
  "redis_call f w = (case next_fault w of
      (Fine, w1) \<Rightarrow> (case f (w_redis w1) of (a, r) \<Rightarrow> (a, w1\<lparr>w_redis := r\<rparr>))
    | (Refused, w1) \<Rightarrow> (None, w1)
    | (Lost, w1) \<Rightarrow> (case f (w_redis w1) of (a, r) \<Rightarrow> (None, w1\<lparr>w_redis := r\<rparr>)))"

text \<open>A statement outside a transaction, which commits by itself.\<close>

definition db_call :: "(db \<Rightarrow> ('a \<times> db) option) \<Rightarrow> 'r world \<Rightarrow> 'a option \<times> 'r world" where
  "db_call f w = (case next_fault w of
      (Fine, w1) \<Rightarrow> (case f (w_db w1) of None \<Rightarrow> (None, w1) | Some (a, d) \<Rightarrow> (Some a, w1\<lparr>w_db := d\<rparr>))
    | (Refused, w1) \<Rightarrow> (None, w1)
    | (Lost, w1) \<Rightarrow> (case f (w_db w1) of None \<Rightarrow> (None, w1) | Some (a, d) \<Rightarrow> (None, w1\<lparr>w_db := d\<rparr>)))"

definition db_query :: "(db \<Rightarrow> 'a option) \<Rightarrow> 'r world \<Rightarrow> 'a option \<times> 'r world" where
  "db_query f w = db_call (\<lambda>d. map_option (\<lambda>a. (a, d)) (f d)) w"

definition db_update :: "(db \<Rightarrow> db option) \<Rightarrow> 'r world \<Rightarrow> unit option \<times> 'r world" where
  "db_update f w = db_call (\<lambda>d. map_option (\<lambda>d'. ((), d')) (f d)) w"

text \<open>
  A statement inside a transaction works on the transaction's own copy of the tables, which the
  caller threads; an error makes every caller roll back, so a lost reply is no different from a
  refusal. Begin and commit are calls of their own.
\<close>

definition tx_call :: "'a option \<Rightarrow> 'r world \<Rightarrow> 'a option \<times> 'r world" where
  "tx_call a w = (case next_fault w of (f, w1) \<Rightarrow> (if f = Fine then a else None, w1))"

definition tx_begin :: "'r world \<Rightarrow> db option \<times> 'r world" where
  "tx_begin w = tx_call (Some (w_db w)) w"

definition tx_commit :: "db \<Rightarrow> 'r world \<Rightarrow> bool \<times> 'r world" where
  "tx_commit d w = (case next_fault w of
      (Fine, w1) \<Rightarrow> (True, w1\<lparr>w_db := d\<rparr>)
    | (Refused, w1) \<Rightarrow> (False, w1)
    | (Lost, w1) \<Rightarrow> (False, w1\<lparr>w_db := d\<rparr>))"

text \<open>\<open>AsynqClient.EnqueueContext\<close>: the queue is at the client's far side, an environment.\<close>

definition enqueue :: "task \<Rightarrow> 'r world \<Rightarrow> bool \<times> 'r world" where
  "enqueue t w = (case next_fault w of
      (Fine, w1) \<Rightarrow> (True, w1\<lparr>w_queue := w_queue w1 @ [t]\<rparr>)
    | (Refused, w1) \<Rightarrow> (False, w1)
    | (Lost, w1) \<Rightarrow> (False, w1\<lparr>w_queue := w_queue w1 @ [t]\<rparr>))"

text \<open>A random UUID comes from outside too.\<close>

definition new_uuid :: "'r world \<Rightarrow> string \<times> 'r world" where
  "new_uuid w = (case w_uuids w of [] \<Rightarrow> ([], w) | u # us \<Rightarrow> (u, w\<lparr>w_uuids := us\<rparr>))"

section \<open>Calls that do not fail\<close>

lemma next_fault_none [simp]: "w_faults w = [] \<Longrightarrow> next_fault w = (Fine, w)"
  by (simp add: next_fault_def)

lemma redis_call_fine [simp]:
  "w_faults w = [] \<Longrightarrow> redis_call f w =
     (fst (f (w_redis w)), w\<lparr>w_redis := snd (f (w_redis w))\<rparr>)"
  by (simp add: redis_call_def split: prod.splits)

lemma db_call_fine [simp]:
  "w_faults w = [] \<Longrightarrow> db_call f w =
     (case f (w_db w) of None \<Rightarrow> (None, w) | Some (a, d) \<Rightarrow> (Some a, w\<lparr>w_db := d\<rparr>))"
  by (simp add: db_call_def)

lemma db_query_fine [simp]: "w_faults w = [] \<Longrightarrow> db_query f w = (f (w_db w), w)"
  by (simp add: db_query_def split: option.splits)

lemma db_update_fine [simp]:
  "w_faults w = [] \<Longrightarrow> db_update f w =
     (case f (w_db w) of None \<Rightarrow> (None, w) | Some d \<Rightarrow> (Some (), w\<lparr>w_db := d\<rparr>))"
  by (simp add: db_update_def split: option.splits)

lemma tx_call_fine [simp]: "w_faults w = [] \<Longrightarrow> tx_call a w = (a, w)"
  by (simp add: tx_call_def)

lemma tx_begin_fine [simp]: "w_faults w = [] \<Longrightarrow> tx_begin w = (Some (w_db w), w)"
  by (simp add: tx_begin_def)

lemma tx_commit_fine [simp]: "w_faults w = [] \<Longrightarrow> tx_commit d w = (True, w\<lparr>w_db := d\<rparr>)"
  by (simp add: tx_commit_def)

lemma enqueue_fine [simp]:
  "w_faults w = [] \<Longrightarrow> enqueue t w = (True, w\<lparr>w_queue := w_queue w @ [t]\<rparr>)"
  by (simp add: enqueue_def)

section \<open>What a call leaves alone\<close>

definition this_fault :: "'r world \<Rightarrow> fault" where
  "this_fault w = (case w_faults w of [] \<Rightarrow> Fine | f # fs \<Rightarrow> f)"

lemma next_fault_eq: "next_fault w = (this_fault w, w\<lparr>w_faults := tl (w_faults w)\<rparr>)"
  by (cases w) (simp add: next_fault_def this_fault_def split: list.splits)

lemma db_update_done: "db_update f w = (Some u, w') \<Longrightarrow> f (w_db w) = Some (w_db w')"
  by (auto simp: db_update_def db_call_def next_fault_eq split: prod.splits fault.splits option.splits)

named_theorems frame "parts of the world that a call does not touch"

lemma next_fault_frame [frame]:
  assumes "next_fault w = (f, w')"
  shows "w_redis w' = w_redis w" "w_db w' = w_db w" "w_queue w' = w_queue w"
    "w_now w' = w_now w" "w_uuids w' = w_uuids w" "w_redis_on w' = w_redis_on w"
    "w_asynq_on w' = w_asynq_on w"
  using assms by (auto simp: next_fault_def split: list.splits)

lemma tx_call_frame [frame]:
  assumes "tx_call a w = (b, w')"
  shows "w_redis w' = w_redis w" "w_db w' = w_db w" "w_queue w' = w_queue w"
    "w_now w' = w_now w" "w_uuids w' = w_uuids w" "w_redis_on w' = w_redis_on w"
    "w_asynq_on w' = w_asynq_on w"
  using assms by (auto simp: tx_call_def frame split: prod.splits)

lemma tx_call_value: "tx_call a w = (b, w') \<Longrightarrow> b = a \<or> b = None"
  by (auto simp: tx_call_def split: prod.splits if_splits)

lemma tx_begin_frame [frame]:
  assumes "tx_begin w = (b, w')"
  shows "w_redis w' = w_redis w" "w_db w' = w_db w" "w_queue w' = w_queue w"
    "w_now w' = w_now w" "w_uuids w' = w_uuids w" "b = Some (w_db w) \<or> b = None"
  using assms tx_call_value [of _ w b w'] by (auto simp: tx_begin_def frame)

lemma tx_commit_frame [frame]:
  assumes "tx_commit d w = (b, w')"
  shows "w_redis w' = w_redis w" "w_queue w' = w_queue w" "w_now w' = w_now w"
    "w_uuids w' = w_uuids w" "w_db w' = d \<or> w_db w' = w_db w"
    "b \<Longrightarrow> w_db w' = d"
  using assms by (auto simp: tx_commit_def frame split: prod.splits fault.splits)

lemma new_uuid_frame [frame]:
  assumes "new_uuid w = (u, w')"
  shows "w_redis w' = w_redis w" "w_db w' = w_db w" "w_queue w' = w_queue w"
    "w_now w' = w_now w" "w_faults w' = w_faults w"
  using assms by (auto simp: new_uuid_def split: list.splits)

lemma redis_call_frame [frame]:
  assumes "redis_call f w = (b, w')"
  shows "w_db w' = w_db w" "w_queue w' = w_queue w" "w_now w' = w_now w"
  using assms by (auto simp: redis_call_def frame split: prod.splits fault.splits)

lemma db_call_frame [frame]:
  assumes "db_call f w = (b, w')"
  shows "w_redis w' = w_redis w" "w_queue w' = w_queue w" "w_now w' = w_now w"
  using assms by (auto simp: db_call_def frame split: prod.splits fault.splits option.splits)

lemma enqueue_frame [frame]:
  assumes "enqueue t w = (b, w')"
  shows "w_redis w' = w_redis w" "w_db w' = w_db w" "w_now w' = w_now w"
    "b \<Longrightarrow> w_queue w' = w_queue w @ [t]" "set (w_queue w) \<subseteq> set (w_queue w')"
  using assms by (auto simp: enqueue_def frame split: prod.splits fault.splits)

lemma db_update_effect:
  "w_db (snd (db_update f w)) = w_db w \<or> f (w_db w) = Some (w_db (snd (db_update f w)))"
  by (auto simp: db_update_def db_call_def next_fault_eq split: fault.splits option.splits)

lemma db_update_others [simp]:
  "w_queue (snd (db_update f w)) = w_queue w" "w_redis (snd (db_update f w)) = w_redis w"
  "w_now (snd (db_update f w)) = w_now w"
  by (auto simp: db_update_def db_call_def next_fault_eq split: fault.splits option.splits)

end
