(* ===== verification/Billing.thy ===== *)
theory Billing
  imports World
begin

text \<open>
  internal/billing: the pre-deduction of an estimate from the user's three balance pools in
  Redis, its refund and settlement, the balance cache, and the hand-over of billing records to
  the task queue with the outbox as fall-back. \<open>R\<close> is the Redis API, the world is threaded, and
  a Go error is a value of \<open>billing_error\<close> or \<open>False\<close>.
\<close>

section \<open>Keys\<close>

definition subBalanceKey :: "int \<Rightarrow> string" where
  "subBalanceKey uid = ''sub_balance:'' @ show_int uid"

definition grantBalanceKey :: "int \<Rightarrow> string" where
  "grantBalanceKey uid = ''grant_balance:'' @ show_int uid"

definition cashBalanceKey :: "int \<Rightarrow> string" where
  "cashBalanceKey uid = ''cash_balance:'' @ show_int uid"

definition balanceKeys3 :: "int \<Rightarrow> string list" where
  "balanceKeys3 uid = [subBalanceKey uid, grantBalanceKey uid, cashBalanceKey uid]"

text \<open>No two pools share a key, neither of one user nor of two.\<close>

lemma balance_keys_distinct: "three_keys (balanceKeys3 uid)"
  by (simp add: three_keys_def balanceKeys3_def subBalanceKey_def grantBalanceKey_def
      cashBalanceKey_def)

lemma balance_keys_disjoint:
  "uid \<noteq> uid' \<Longrightarrow> set (balanceKeys3 uid) \<inter> set (balanceKeys3 uid') = {}"
  by (auto simp: balanceKeys3_def subBalanceKey_def grantBalanceKey_def cashBalanceKey_def)

section \<open>The balance cache\<close>

datatype billing_error =
    RedisNotInitialized
  | ScriptFailed
  | UnexpectedResult
  | LoadFailed
  | InsufficientBalance
  | UnsupportedBalanceType

text \<open>
  A pipeline sends its three commands together and reports an error if one of them fails; a
  connection that breaks leaves a prefix of them executed.
\<close>

definition syncUserBalanceCache ::
  "'r redis_api \<Rightarrow> int \<Rightarrow> int \<times> int \<times> int \<Rightarrow> 'r world \<Rightarrow> bool \<times> 'r world" where
  "syncUserBalanceCache R uid b w = (case b of (s, g, c) \<Rightarrow>
     if \<not> w_redis_on w then (False, w)
     else
       let set_call = (\<lambda>k v. redis_call (\<lambda>r. (Some (), rd_set R k (show_int v) r)))
       in case set_call (subBalanceKey uid) s w of
            (None, w1) \<Rightarrow> (False, w1)
          | (Some _, w1) \<Rightarrow>
            (case set_call (grantBalanceKey uid) g w1 of
               (None, w2) \<Rightarrow> (False, w2)
             | (Some _, w2) \<Rightarrow>
               (case set_call (cashBalanceKey uid) c w2 of
                  (None, w3) \<Rightarrow> (False, w3)
                | (Some _, w3) \<Rightarrow> (True, w3))))"

definition loadBalanceToCache :: "'r redis_api \<Rightarrow> int \<Rightarrow> 'r world \<Rightarrow> bool \<times> 'r world" where
  "loadBalanceToCache R uid w =
     (case db_query (getUserBalances uid) w of
        (None, w1) \<Rightarrow> (False, w1)
      | (Some b, w1) \<Rightarrow> syncUserBalanceCache R uid b w1)"

definition getUserBalance ::
  "'r redis_api \<Rightarrow> int \<Rightarrow> 'r world \<Rightarrow> (int \<times> int \<times> int) option \<times> 'r world" where
  "getUserBalance R uid w =
     (let (cached, w1) =
        (if w_redis_on w
         then redis_call (\<lambda>r. (Some (rd_get R r (subBalanceKey uid), rd_get R r (grantBalanceKey uid),
                                     rd_get R r (cashBalanceKey uid)), r)) w
         else (None, w));
          hit = (case cached of
              Some (Some s, Some g, Some c) \<Rightarrow>
                (case (parse_int 64 s, parse_int 64 g, parse_int 64 c) of
                   (Some p, Some q, Some r) \<Rightarrow> Some (p, q, r)
                 | _ \<Rightarrow> None)
            | _ \<Rightarrow> None)
      in case hit of
           Some b \<Rightarrow> (Some b, w1)
         | None \<Rightarrow>
             (case db_query (getUserBalances uid) w1 of
                (None, w2) \<Rightarrow> (None, w2)
              | (Some b, w2) \<Rightarrow> (Some b, snd (syncUserBalanceCache R uid b w2))))"

definition creditBalanceCache ::
  "'r redis_api \<Rightarrow> int \<Rightarrow> string \<Rightarrow> int \<Rightarrow> 'r world \<Rightarrow> (billing_error + unit) \<times> 'r world" where
  "creditBalanceCache R uid balance_type delta w =
     (if \<not> w_redis_on w then (Inl RedisNotInitialized, w)
      else case (if balance_type = ''grant'' then Some (grantBalanceKey uid)
                 else if balance_type = ''cash'' then Some (cashBalanceKey uid) else None) of
             None \<Rightarrow> (Inl UnsupportedBalanceType, w)
           | Some key \<Rightarrow>
               (case redis_call (lua_credit_cache R key delta) w of
                  (None, w1) \<Rightarrow> (Inl ScriptFailed, w1)
                | (Some _, w1) \<Rightarrow> (Inr (), w1)))"

section \<open>Pre-deduction\<close>

text \<open>The closure \<open>run\<close>: a reply that is not an array of four is an error.\<close>

definition run_pre_deduct ::
  "'r redis_api \<Rightarrow> int \<Rightarrow> int \<Rightarrow> string \<Rightarrow> 'r world \<Rightarrow> int list option \<times> 'r world" where
  "run_pre_deduct R uid cost policy w =
     (case redis_call (lua_pre_deduct R (balanceKeys3 uid) cost policy) w of
        (None, w1) \<Rightarrow> (None, w1)
      | (Some arr, w1) \<Rightarrow> (if length arr < 4 then None else Some arr, w1))"

text \<open>
  After a reload the script runs again; a second reply -2 is not tested for, so it falls
  through to the success branch.
\<close>

definition pre_deduct_reply :: "int list \<Rightarrow> billing_error + deduction" where
  "pre_deduct_reply arr =
     (if arr ! 0 = - 1 then Inl InsufficientBalance
      else Inr \<lparr>d_sub = arr ! 1, d_grant = arr ! 2, d_cash = arr ! 3\<rparr>)"

definition preDeduct ::
  "'r redis_api \<Rightarrow> int \<Rightarrow> int \<Rightarrow> string \<Rightarrow> 'r world \<Rightarrow> (billing_error + deduction) \<times> 'r world" where
  "preDeduct R uid cost policy w =
     (let policy = (if policy = '''' then ''all'' else policy) in
      case run_pre_deduct R uid cost policy w of
        (None, w1) \<Rightarrow> (Inl ScriptFailed, w1)
      | (Some arr, w1) \<Rightarrow>
          if arr ! 0 = - 2 then
            (case loadBalanceToCache R uid w1 of
               (False, w2) \<Rightarrow> (Inl LoadFailed, w2)
             | (True, w2) \<Rightarrow>
                 (case run_pre_deduct R uid cost policy w2 of
                    (None, w3) \<Rightarrow> (Inl ScriptFailed, w3)
                  | (Some arr', w3) \<Rightarrow> (pre_deduct_reply arr', w3)))
          else (pre_deduct_reply arr, w1))"

section \<open>Refund and settlement\<close>

text \<open>
  The billing record of a refund: nothing was consumed. It goes to the queue, and to the outbox
  when the queue does not take it and there is a request id to find it by.
\<close>

definition refund_record :: "int \<Rightarrow> deduction \<Rightarrow> settlement_request \<Rightarrow> settlement_request" where
  "refund_record amount d req = req\<lparr>s_log_type := ''refund'', s_actual_cost := 0,
     s_pre_deducted := amount, s_sub_deducted := d_sub d, s_grant_deducted := d_grant d,
     s_cash_deducted := d_cash d\<rparr>"

definition refund ::
  "'r redis_api \<Rightarrow> int \<Rightarrow> int \<Rightarrow> deduction \<Rightarrow> settlement_request \<Rightarrow> 'r world \<Rightarrow> 'r world" where
  "refund R uid amount d req w =
     (if amount \<le> 0 then w
      else
        let w1 = snd (redis_call
              (lua_refund R (balanceKeys3 uid) amount (d_sub d) (d_grant d) (d_cash d)) w);
            rec = refund_record amount d req
        in case enqueue (TaskRecordBillingLog (Some rec)) w1 of
             (True, w2) \<Rightarrow> w2
           | (False, w2) \<Rightarrow>
               if s_request_id rec \<noteq> ''''
               then snd (db_update (insertSettlementOutbox (w_now w2) (s_request_id rec) (Some rec)) w2)
               else w2)"

definition settle_policy :: "string \<Rightarrow> 'r world \<Rightarrow> string \<times> 'r world" where
  "settle_policy model w =
     (case db_query (getModelByName model) w of
        (Some m, w1) \<Rightarrow> (if m_billing_policy m \<noteq> '''' then m_billing_policy m else ''all'', w1)
      | (None, w1) \<Rightarrow> (''all'', w1))"

definition settle_redis ::
  "'r redis_api \<Rightarrow> settlement_request \<Rightarrow> 'r world \<Rightarrow> 'r world" where
  "settle_redis R req w =
     (let diff = wrap64 (s_pre_deducted req - s_actual_cost req);
          ks = balanceKeys3 (s_user req) in
      if diff > 0 then
        snd (redis_call (lua_refund R ks diff (s_sub_deducted req) (s_grant_deducted req)
               (s_cash_deducted req)) w)
      else if diff < 0 then
        (case settle_policy (s_model req) w of
           (policy, w1) \<Rightarrow> snd (redis_call (lua_compensate R ks (wrap64 (- diff)) policy) w1))
      else w)"

definition settle ::
  "'r redis_api \<Rightarrow> settlement_request \<Rightarrow> 'r world \<Rightarrow> bool \<times> 'r world" where
  "settle R req w =
     (let w1 = settle_redis R req w in
      case enqueue (TaskRecordBillingLog (Some req)) w1 of
        (True, w2) \<Rightarrow> (True, w2)
      | (False, w2) \<Rightarrow>
          if s_request_id req \<noteq> '''' then
            (case db_update (insertSettlementOutbox (w_now w2) (s_request_id req) (Some req)) w2 of
               (Some _, w3) \<Rightarrow> (True, w3)
             | (None, w3) \<Rightarrow> (False, w3))
          else (False, w2))"

definition enqueueRequestLog :: "request_log_request \<Rightarrow> 'r world \<Rightarrow> 'r world" where
  "enqueueRequestLog req w =
     (if \<not> w_asynq_on w then w else snd (enqueue (TaskRecordRequestLog (Some req)) w))"

section \<open>The outbox relay\<close>

definition relay_row :: "outbox_row \<Rightarrow> 'r world \<Rightarrow> 'r world" where
  "relay_row row w =
     (case enqueue (TaskRecordBillingLog (ob_payload row)) w of
        (False, w1) \<Rightarrow> snd (db_update (incrementSettlementOutboxAttempts (ob_id row)) w1)
      | (True, w1) \<Rightarrow>
          snd (db_update (\<lambda>d. Some (markSettlementOutboxProcessed (w_now w1) (ob_id row) d)) w1))"

definition drainSettlementOutbox :: "'r world \<Rightarrow> 'r world" where
  "drainSettlementOutbox w =
     (case db_query (\<lambda>d. Some (listPendingSettlementOutbox 100 d)) w of
        (None, w1) \<Rightarrow> w1
      | (Some rows, w1) \<Rightarrow> fold relay_row rows w1)"

section \<open>Pre-deduction takes the cost and nothing else\<close>

definition deduction_of :: "int list \<Rightarrow> deduction" where
  "deduction_of ts = \<lparr>d_sub = ts ! 0, d_grant = ts ! 1, d_cash = ts ! 2\<rparr>"

text \<open>What a user's request has drawn: the waterfall over the pools that the policy admits.\<close>

definition drawn :: "string \<Rightarrow> int \<times> int \<times> int \<Rightarrow> int \<Rightarrow> int list" where
  "drawn policy b cost = waterfall cost (usable policy b)"

lemma drawn_sum:
  assumes "0 \<le> cost" "cost \<le> sum_list (usable policy b)"
  shows "sum_list (drawn policy b cost) = cost"
proof -
  obtain s g c where "b = (s, g, c)" by (cases b)
  then have "sum_list (usable policy b) \<le> capacity (usable policy b)" by (simp add: usable_def)
  with assms show ?thesis by (simp add: drawn_def waterfall_sum)
qed

lemma drawn_nonneg: "0 \<le> drawn policy b cost ! 0" "0 \<le> drawn policy b cost ! 1"
  "0 \<le> drawn policy b cost ! 2"
  by (cases b; simp add: drawn_def usable_def)+

lemma usable_all: "usable (if policy = '''' then ''all'' else policy) b = usable policy b"
  by (cases b) (simp add: usable_def)

context redis_server
begin

lemma run_pre_deduct_taken:
  assumes "w_faults w = []" "pools_are R (balanceKeys3 uid) (w_redis w) b" "exact_pools b"
    "exact cost" "cost \<le> sum_list (usable policy b)"
  obtains r' where "run_pre_deduct R uid cost policy w =
      (Some (1 # drawn policy b cost), w\<lparr>w_redis := r'\<rparr>)"
    and "pools_are R (balanceKeys3 uid) r' (minus_pools b (drawn policy b cost))"
    and "same_elsewhere R (balanceKeys3 uid) (w_redis w) r'"
proof -
  have len: "length (drawn policy b cost) = 3" by (cases b) (simp add: drawn_def usable_def)
  obtain r' where "lua_pre_deduct R (balanceKeys3 uid) cost policy (w_redis w) =
      (Some (1 # waterfall cost (usable policy b)), r')"
    and "pools_are R (balanceKeys3 uid) r' (minus_pools b (waterfall cost (usable policy b)))"
    and "same_elsewhere R (balanceKeys3 uid) (w_redis w) r'"
    by (rule pre_deduct_taken [OF balance_keys_distinct assms(2-5)])
  with assms(1) len show thesis
    by (intro that [of r']) (simp_all add: run_pre_deduct_def drawn_def)
qed

lemma preDeduct_taken:
  assumes "w_faults w = []" "pools_are R (balanceKeys3 uid) (w_redis w) b" "exact_pools b"
    "exact cost" "cost \<le> sum_list (usable policy b)"
  obtains r' where "preDeduct R uid cost policy w =
      (Inr (deduction_of (drawn policy b cost)), w\<lparr>w_redis := r'\<rparr>)"
    and "pools_are R (balanceKeys3 uid) r' (minus_pools b (drawn policy b cost))"
    and "same_elsewhere R (balanceKeys3 uid) (w_redis w) r'"
proof -
  let ?p = "if policy = '''' then ''all'' else policy"
  have d: "drawn ?p b cost = drawn policy b cost" by (simp only: drawn_def usable_all)
  have "cost \<le> sum_list (usable ?p b)" using assms(5) by (simp only: usable_all)
  from run_pre_deduct_taken [OF assms(1-4) this] obtain r' where
    "run_pre_deduct R uid cost ?p w = (Some (1 # drawn ?p b cost), w\<lparr>w_redis := r'\<rparr>)"
    "pools_are R (balanceKeys3 uid) r' (minus_pools b (drawn ?p b cost))"
    "same_elsewhere R (balanceKeys3 uid) (w_redis w) r'" by metis
  with d show thesis
    by (intro that [of r'])
      (simp_all add: preDeduct_def pre_deduct_reply_def deduction_of_def Let_def)
qed

lemma sync_spec:
  assumes "w_faults w = []" "w_redis_on w"
  obtains r' where "syncUserBalanceCache R uid b w = (True, w\<lparr>w_redis := r'\<rparr>)"
    and "pools_are R (balanceKeys3 uid) r' b"
    and "same_elsewhere R (balanceKeys3 uid) (w_redis w) r'"
proof -
  obtain s g c where b: "b = (s, g, c)" by (cases b)
  let ?r = "rd_set R (cashBalanceKey uid) (show_int c) (rd_set R (grantBalanceKey uid) (show_int g)
      (rd_set R (subBalanceKey uid) (show_int s) (w_redis w)))"
  have d: "three_keys [subBalanceKey uid, grantBalanceKey uid, cashBalanceKey uid]"
    using balance_keys_distinct by (simp add: balanceKeys3_def)
  show thesis
    using assms d
    by (intro that [of ?r])
      (auto simp: syncUserBalanceCache_def b pools_are_def holds_def get_set balanceKeys3_def
        three_keys_def same_elsewhere_def)
qed

lemma preDeduct_reloaded:
  assumes "w_faults w = []" "w_redis_on w" "getUserBalances uid (w_db w) = Some b"
    and "\<exists>k \<in> set (balanceKeys3 uid). rd_get R (w_redis w) k = None"
    and "exact_pools b" "exact cost" "cost \<le> sum_list (usable policy b)"
  obtains r' where "preDeduct R uid cost policy w =
      (Inr (deduction_of (drawn policy b cost)), w\<lparr>w_redis := r'\<rparr>)"
    and "pools_are R (balanceKeys3 uid) r' (minus_pools b (drawn policy b cost))"
    and "same_elsewhere R (balanceKeys3 uid) (w_redis w) r'"
proof -
  let ?ks = "balanceKeys3 uid" and ?p = "if policy = '''' then ''all'' else policy"
  have miss: "run_pre_deduct R uid cost ?p w = (Some [- 2, 0, 0, 0], w)"
    using pre_deduct_miss [of "w_redis w" ?ks cost ?p] assms(1,4)
    by (auto simp: run_pre_deduct_def balanceKeys3_def)
  obtain r1 where sync: "syncUserBalanceCache R uid b w = (True, w\<lparr>w_redis := r1\<rparr>)"
    and p1: "pools_are R ?ks r1 b" and e1: "same_elsewhere R ?ks (w_redis w) r1"
    by (rule sync_spec [OF assms(1,2), of uid b])
  then have load: "loadBalanceToCache R uid w = (True, w\<lparr>w_redis := r1\<rparr>)"
    using assms(1,3) by (simp add: loadBalanceToCache_def)
  have d: "drawn ?p b cost = drawn policy b cost" by (simp only: drawn_def usable_all)
  have le: "cost \<le> sum_list (usable ?p b)" using assms(7) by (simp only: usable_all)
  have f: "w_faults (w\<lparr>w_redis := r1\<rparr>) = []" and p1': "pools_are R ?ks (w_redis (w\<lparr>w_redis := r1\<rparr>)) b"
    using assms(1) p1 by simp_all
  obtain r' where
    "run_pre_deduct R uid cost ?p (w\<lparr>w_redis := r1\<rparr>) =
       (Some (1 # drawn ?p b cost), w\<lparr>w_redis := r1\<rparr>\<lparr>w_redis := r'\<rparr>)"
    "pools_are R ?ks r' (minus_pools b (drawn ?p b cost))"
    "same_elsewhere R ?ks (w_redis (w\<lparr>w_redis := r1\<rparr>)) r'"
    by (rule run_pre_deduct_taken [OF f p1' assms(5,6) le])
  with d miss load e1 show thesis
    by (intro that [of r'])
      (simp_all add: preDeduct_def pre_deduct_reply_def deduction_of_def Let_def
        same_elsewhere_def)
qed

end

section \<open>Settlement nets the charge to what was consumed\<close>

lemma sum3_capacity: "0 \<le> p \<Longrightarrow> 0 \<le> g \<Longrightarrow> 0 \<le> c \<Longrightarrow> capacity [p, g, c] = p + g + c"
  by simp

lemma given_complement:
  assumes "0 \<le> p" "0 \<le> g" "0 \<le> c" "0 \<le> a" "a \<le> p + g + c"
  shows "given (p + g + c - a) (p, g, c) =
    [p - waterfall a [p, g, c] ! 0, g - waterfall a [p, g, c] ! 1, c - waterfall a [p, g, c] ! 2]"
proof -
  have "map2 (+) (waterfall a [p, g, c])
      (rev (waterfall (capacity [p, g, c] - a) (rev [p, g, c]))) = [p, g, c]"
    using assms by (intro waterfall_complement) auto
  then show ?thesis
    using assms by (simp add: given_def sum3_capacity del: capacity_simps)
qed

definition settle_policy_of :: "string \<Rightarrow> db \<Rightarrow> string" where
  "settle_policy_of model d = (case getModelByName model d of
      Some m \<Rightarrow> if m_billing_policy m \<noteq> '''' then m_billing_policy m else ''all''
    | None \<Rightarrow> ''all'')"

lemma settle_policy_fine:
  "w_faults w = [] \<Longrightarrow> settle_policy model w = (settle_policy_of model (w_db w), w)"
  by (auto simp: settle_policy_def settle_policy_of_def split: option.splits)

context redis_server
begin

lemma settle_redis_over:
  assumes "w_faults w = []" "pools_are R (balanceKeys3 (s_user req)) (w_redis w) (s, g, c)"
    and d: "s_sub_deducted req = pd" "s_grant_deducted req = gd" "s_cash_deducted req = cd"
    and nn: "0 \<le> pd" "0 \<le> gd" "0 \<le> cd" and pre: "s_pre_deducted req = pd + gd + cd"
    and act: "0 \<le> s_actual_cost req" "s_actual_cost req \<le> pd + gd + cd"
    and ex: "exact s" "exact g" "exact c" "exact (pd + gd + cd)" "exact (s + pd)" "exact (g + gd)"
      "exact (c + cd)"
    and k: "k = waterfall (s_actual_cost req) [pd, gd, cd]"
  obtains r' where "settle_redis R req w = w\<lparr>w_redis := r'\<rparr>"
    and "pools_are R (balanceKeys3 (s_user req)) r'
           (s + pd - k ! 0, g + gd - k ! 1, c + cd - k ! 2)"
    and "same_elsewhere R (balanceKeys3 (s_user req)) (w_redis w) r'"
proof -
  let ?ks = "balanceKeys3 (s_user req)" and ?diff = "pd + gd + cd - s_actual_cost req"
  have e: "exact pd" "exact gd" "exact cd" "exact ?diff"
    using nn ex(4) act by (auto simp: exact_def)
  have w64: "wrap64 (s_pre_deducted req - s_actual_cost req) = ?diff"
    using e pre by simp
  have gv: "given ?diff (pd, gd, cd) = [pd - k ! 0, gd - k ! 1, cd - k ! 2]"
    using nn act k by (simp add: given_complement)
  obtain r' where rf: "lua_refund R ?ks ?diff pd gd cd (w_redis w) = (Some 1, r')"
    and p: "pools_are R ?ks r' (plus_pools (s, g, c) (given ?diff (pd, gd, cd)))"
    and el: "same_elsewhere R ?ks (w_redis w) r'"
    by (rule refund_given [OF balance_keys_distinct assms(2) e(4) refl ex(1-3) e(1-3)])
      (use nn ex in simp_all)
  show thesis
  proof (cases "?diff > 0")
    case True
    then have "settle_redis R req w = w\<lparr>w_redis := r'\<rparr>"
      using assms(1) rf w64 d by (simp add: settle_redis_def Let_def)
    with p el gv show thesis by (intro that [of r']) (simp_all add: plus_pools_def algebra_simps)
  next
    case False
    then have z: "?diff = 0" using act by simp
    then have "settle_redis R req w = w" using w64 by (simp add: settle_redis_def Let_def)
    moreover have "pd - k ! 0 = 0" "gd - k ! 1 = 0" "cd - k ! 2 = 0"
      using gv z by (simp_all add: given_def share_def)
    ultimately show thesis using assms(2)
      by (intro that [of "w_redis w"]) (simp_all add: same_elsewhere_def)
  qed
qed

lemma settle_redis_under:
  assumes "w_faults w = []" "pools_are R (balanceKeys3 (s_user req)) (w_redis w) b" "exact_pools b"
    and "s_pre_deducted req < s_actual_cost req"
    and "exact (s_pre_deducted req)" "exact (s_actual_cost req)"
    and "exact (s_actual_cost req - s_pre_deducted req)"
  obtains r' where "settle_redis R req w = w\<lparr>w_redis := r'\<rparr>"
    and "pools_are R (balanceKeys3 (s_user req)) r'
           (minus_pools b (drawn (settle_policy_of (s_model req) (w_db w)) b
              (s_actual_cost req - s_pre_deducted req)))"
    and "same_elsewhere R (balanceKeys3 (s_user req)) (w_redis w) r'"
proof -
  let ?ks = "balanceKeys3 (s_user req)" and ?short = "s_actual_cost req - s_pre_deducted req"
  let ?p = "settle_policy_of (s_model req) (w_db w)"
  have e: "exact (- ?short)" using assms(7) by (simp add: exact_def)
  have w64: "wrap64 (s_pre_deducted req - s_actual_cost req) = - ?short"
    using exact_in_i64 [OF e] by simp
  have w64': "wrap64 (- (- ?short)) = ?short" using exact_in_i64 [OF assms(7)] by simp
  obtain r' where cp: "lua_compensate R ?ks ?short ?p (w_redis w) =
      (Some (waterfall ?short (usable ?p b)), r')"
    and p: "pools_are R ?ks r' (minus_pools b (waterfall ?short (usable ?p b)))"
    and el: "same_elsewhere R ?ks (w_redis w) r'"
    by (rule compensate_taken [OF balance_keys_distinct assms(2,3,7)])
  have "settle_redis R req w = w\<lparr>w_redis := r'\<rparr>"
    using assms(1,4) cp w64 w64' by (simp add: settle_redis_def Let_def settle_policy_fine)
  with p el show thesis by (intro that [of r']) (simp_all add: drawn_def)
qed

end

section \<open>No settlement is lost\<close>

lemma insertSettlementOutbox_row:
  "insertSettlementOutbox now rid p d = Some d' \<Longrightarrow>
     \<exists>b \<in> set (settlement_outbox d'). ob_request_id b = rid"
  by (auto simp: insertSettlementOutbox_def list_ex_iff split: if_splits)

lemma settle_fine:
  assumes "w_faults w = []" "settle_redis R req w = w\<lparr>w_redis := r\<rparr>"
  shows "settle R req w = (True, w\<lparr>w_redis := r, w_queue := w_queue w @ [TaskRecordBillingLog (Some req)]\<rparr>)"
  using assms by (simp add: settle_def)

text \<open>
  C9. Whatever fails: when \<open>Settle\<close> reports success, the billing record is in the task queue or
  the outbox has a row under its request id.
\<close>

theorem settle_not_lost:
  assumes "settle R req w = (True, w')"
  shows "TaskRecordBillingLog (Some req) \<in> set (w_queue w') \<or>
    (\<exists>b \<in> set (settlement_outbox (w_db w')). ob_request_id b = s_request_id req)"
proof -
  obtain ok w2 where e: "enqueue (TaskRecordBillingLog (Some req)) (settle_redis R req w) = (ok, w2)"
    by fastforce
  show ?thesis
  proof (cases ok)
    case True
    with e assms show ?thesis
      using enqueue_frame(4) [OF e] by (auto simp: settle_def)
  next
    case False
    with e assms have "\<exists>u. db_update (insertSettlementOutbox (w_now w2) (s_request_id req) (Some req)) w2
        = (Some u, w')"
      by (auto simp: settle_def split: if_splits option.splits prod.splits)
    then show ?thesis
      using insertSettlementOutbox_row db_update_done by blast
  qed
qed

section \<open>The relay delivers what the outbox holds\<close>

text \<open>
  \<open>delivered_or_old d w\<close>: every row that is marked processed was so in \<open>d\<close>, or its payload is in
  the queue. It is the invariant of the relay's loop.
\<close>

definition outbox_ids :: "db \<Rightarrow> int list" where
  "outbox_ids d = map ob_id (settlement_outbox d)"

definition same_outbox :: "db \<Rightarrow> db \<Rightarrow> bool" where
  "same_outbox d d' \<longleftrightarrow>
     list_all2 (\<lambda>b b'. ob_id b' = ob_id b \<and> ob_payload b' = ob_payload b \<and>
                       ob_request_id b' = ob_request_id b \<and> ob_created b' = ob_created b)
       (settlement_outbox d) (settlement_outbox d')"

definition delivered_or_old :: "db \<Rightarrow> 'r world \<Rightarrow> bool" where
  "delivered_or_old d w \<longleftrightarrow>
     list_all2 (\<lambda>b b'. ob_processed b' = ob_processed b \<or>
                       TaskRecordBillingLog (ob_payload b') \<in> set (w_queue w))
       (settlement_outbox d) (settlement_outbox (w_db w))"

lemma update_where_rows:
  "update_where P f rows = Some rows' \<Longrightarrow> (\<And>r r'. P r \<Longrightarrow> f r = Some r' \<Longrightarrow> Q r r') \<Longrightarrow>
   (\<And>r. \<not> P r \<Longrightarrow> Q r r) \<Longrightarrow> list_all2 Q rows rows'"
  by (induction rows arbitrary: rows') (auto split: option.splits if_splits)

lemma increment_same:
  assumes "incrementSettlementOutboxAttempts i d = Some d'"
  shows "list_all2 (\<lambda>b b'. ob_id b' = ob_id b \<and> ob_payload b' = ob_payload b \<and>
      ob_request_id b' = ob_request_id b \<and> ob_created b' = ob_created b \<and>
      ob_processed b' = ob_processed b)
    (settlement_outbox d) (settlement_outbox d')"
proof -
  from assms obtain os where d': "d' = d\<lparr>settlement_outbox := os\<rparr>" and
    up: "update_where (\<lambda>b. ob_id b = i) (\<lambda>b. if in_i32 (ob_attempts b + 1)
        then Some (b\<lparr>ob_attempts := ob_attempts b + 1\<rparr>) else None) (settlement_outbox d) = Some os"
    by (auto simp: incrementSettlementOutboxAttempts_def)
  have "list_all2 (\<lambda>b b'. ob_id b' = ob_id b \<and> ob_payload b' = ob_payload b \<and>
      ob_request_id b' = ob_request_id b \<and> ob_created b' = ob_created b \<and>
      ob_processed b' = ob_processed b) (settlement_outbox d) os"
    by (rule update_where_rows [OF up]) (auto split: if_splits)
  with d' show ?thesis by simp
qed

text \<open>One row: what the three outcomes of its delivery leave.\<close>

lemma relay_row_cases:
  obtains
    (kept) "w_db (relay_row row w) = w_db w" "set (w_queue w) \<subseteq> set (w_queue (relay_row row w))"
  | (retried) "incrementSettlementOutboxAttempts (ob_id row) (w_db w) = Some (w_db (relay_row row w))"
      "set (w_queue w) \<subseteq> set (w_queue (relay_row row w))"
  | (marked) "w_db (relay_row row w) = markSettlementOutboxProcessed (w_now w) (ob_id row) (w_db w)"
      "w_queue (relay_row row w) = w_queue w @ [TaskRecordBillingLog (ob_payload row)]"
proof -
  obtain ok w1 where e: "enqueue (TaskRecordBillingLog (ob_payload row)) w = (ok, w1)" by fastforce
  note fr = enqueue_frame [OF e]
  show thesis
  proof (cases ok)
    case True
    have "relay_row row w =
        snd (db_update (\<lambda>d. Some (markSettlementOutboxProcessed (w_now w1) (ob_id row) d)) w1)"
      using e True by (simp add: relay_row_def)
    with True fr show thesis
      using db_update_effect [of "\<lambda>d. Some (markSettlementOutboxProcessed (w_now w1) (ob_id row) d)" w1]
        kept marked by auto
  next
    case False
    have "relay_row row w = snd (db_update (incrementSettlementOutboxAttempts (ob_id row)) w1)"
      using e False by (simp add: relay_row_def)
    with fr show thesis
      using db_update_effect [of "incrementSettlementOutboxAttempts (ob_id row)" w1]
        retried kept by auto
  qed
qed

lemma relay_row_inv:
  assumes "same_outbox d (w_db w)" "delivered_or_old d w" "row \<in> set (settlement_outbox d)"
    and dist: "distinct (outbox_ids d)"
  shows "same_outbox d (w_db (relay_row row w))" "delivered_or_old d (relay_row row w)"
proof -
  let ?o = "settlement_outbox d" and ?w = "relay_row row w"
  have "same_outbox d (w_db ?w) \<and> delivered_or_old d ?w"
  proof (cases rule: relay_row_cases [of row w])
    case kept
    with assms(1,2) show ?thesis
      by (auto simp: delivered_or_old_def elim!: list_all2_mono)
  next
    case retried
    note inc = increment_same [OF retried(1)]
    have "list_all2 (\<lambda>b b'. ob_id b' = ob_id b \<and> ob_payload b' = ob_payload b \<and>
        ob_request_id b' = ob_request_id b \<and> ob_created b' = ob_created b)
        ?o (settlement_outbox (w_db ?w))"
      using assms(1) [unfolded same_outbox_def] inc by (rule list_all2_trans [rotated]) auto
    moreover have "list_all2 (\<lambda>b b'. ob_processed b' = ob_processed b \<or>
        TaskRecordBillingLog (ob_payload b') \<in> set (w_queue ?w)) ?o (settlement_outbox (w_db ?w))"
      using assms(2) [unfolded delivered_or_old_def] inc
      by (rule list_all2_trans [rotated]) (use retried(2) in auto)
    ultimately show ?thesis by (simp add: same_outbox_def delivered_or_old_def)
  next
    case marked
    have key: "ob_payload b = ob_payload row" if "b \<in> set ?o" "ob_id b = ob_id row" for b
      using that assms(3) dist by (metis distinct_map inj_onD outbox_ids_def)
    have "same_outbox d (w_db ?w)"
      using assms(1) by (auto simp: same_outbox_def marked(1) markSettlementOutboxProcessed_def
          list.rel_map elim!: list_all2_mono)
    moreover have "list_all2 (\<lambda>b b'. ob_processed b' = ob_processed b \<or>
        TaskRecordBillingLog (ob_payload b') \<in> set (w_queue ?w)) ?o (settlement_outbox (w_db ?w))"
    proof (rule list_all2_all_nthI)
      show "length ?o = length (settlement_outbox (w_db ?w))"
        using assms(1) by (simp add: same_outbox_def marked(1) markSettlementOutboxProcessed_def
            list_all2_lengthD)
    next
      fix n
      assume n: "n < length ?o"
      let ?b = "?o ! n" and ?b1 = "settlement_outbox (w_db w) ! n"
      have len: "length ?o = length (settlement_outbox (w_db w))"
        using assms(1) by (simp add: same_outbox_def list_all2_lengthD)
      have same: "ob_id ?b1 = ob_id ?b" "ob_payload ?b1 = ob_payload ?b"
        using assms(1) n by (auto simp: same_outbox_def dest: list_all2_nthD)
      have old: "ob_processed ?b1 = ob_processed ?b \<or>
          TaskRecordBillingLog (ob_payload ?b1) \<in> set (w_queue w)"
        using assms(2) n by (auto simp: delivered_or_old_def dest: list_all2_nthD)
      have "ob_payload ?b = ob_payload row" if "ob_id ?b = ob_id row"
        using that key n by simp
      then show "ob_processed (settlement_outbox (w_db ?w) ! n) = ob_processed ?b \<or>
          TaskRecordBillingLog (ob_payload (settlement_outbox (w_db ?w) ! n)) \<in> set (w_queue ?w)"
        using n len same old by (auto simp: marked markSettlementOutboxProcessed_def)
    qed
    ultimately show ?thesis by (simp add: delivered_or_old_def)
  qed
  then show "same_outbox d (w_db ?w)" "delivered_or_old d ?w" by simp_all
qed

lemma relay_rows_inv:
  assumes "same_outbox d (w_db w)" "delivered_or_old d w" "set rows \<subseteq> set (settlement_outbox d)"
    and "distinct (outbox_ids d)"
  shows "same_outbox d (w_db (fold relay_row rows w)) \<and> delivered_or_old d (fold relay_row rows w)"
  using assms
proof (induction rows arbitrary: w)
  case (Cons r rs)
  then show ?case using relay_row_inv [of d w r] by simp
qed simp

text \<open>
  C10. Whatever fails: after a run of the relay, every outbox row that it marked as processed
  has its payload in the task queue. (The row numbers are the table's primary key.)
\<close>

theorem relay_marks_only_delivered:
  assumes "distinct (outbox_ids (w_db w))"
    and "b' \<in> set (settlement_outbox (w_db (drainSettlementOutbox w)))" "ob_processed b' \<noteq> None"
  shows "(\<exists>b \<in> set (settlement_outbox (w_db w)). ob_id b = ob_id b' \<and> ob_processed b = ob_processed b')
    \<or> TaskRecordBillingLog (ob_payload b') \<in> set (w_queue (drainSettlementOutbox w))"
proof -
  obtain rows w1 where q: "db_query (\<lambda>d. Some (listPendingSettlementOutbox 100 d)) w = (rows, w1)"
    by fastforce
  have w1: "w_db w1 = w_db w" "rows = None \<or> rows = Some (listPendingSettlementOutbox 100 (w_db w))"
    using q by (auto simp: db_query_def db_call_def next_fault_eq split: fault.splits)
  have refl: "same_outbox (w_db w) (w_db w1)" "delivered_or_old (w_db w) w1"
    using w1 by (simp_all add: same_outbox_def delivered_or_old_def list.rel_refl)
  have "same_outbox (w_db w) (w_db (drainSettlementOutbox w)) \<and>
      delivered_or_old (w_db w) (drainSettlementOutbox w)"
  proof (cases rows)
    case None
    with q refl show ?thesis by (simp add: drainSettlementOutbox_def)
  next
    case (Some rs)
    then have "set rs \<subseteq> set (settlement_outbox (w_db w))"
      using w1 by (auto simp: listPendingSettlementOutbox_def dest!: in_set_takeD)
    with q refl Some assms(1) show ?thesis
      by (simp add: drainSettlementOutbox_def relay_rows_inv)
  qed
  then obtain b where "b \<in> set (settlement_outbox (w_db w))" "ob_id b' = ob_id b"
    "ob_processed b' = ob_processed b \<or>
     TaskRecordBillingLog (ob_payload b') \<in> set (w_queue (drainSettlementOutbox w))"
    using assms(2) unfolding same_outbox_def delivered_or_old_def list_all2_conv_all_nth
    by (metis in_set_conv_nth)
  then show ?thesis by auto
qed

text \<open>
  A world for the witnesses: the in-memory keyspace, one user with the given pools in the
  database, and no faults.
\<close>

definition witness_user :: "int \<Rightarrow> int \<times> int \<times> int \<Rightarrow> user_row" where
  "witness_user uid b = (case b of (s, g, c) \<Rightarrow> \<lparr>u_id = uid, u_cash = Some c, u_grant = Some g,
     u_tier = Some 0, u_status = Some 1, u_sub = s, u_sub_expires = None\<rparr>)"

definition witness_world :: "(string \<times> string) list \<Rightarrow> db \<Rightarrow> fault list \<Rightarrow> keyspace world" where
  "witness_world kvs d fs = \<lparr>w_redis = map_of kvs, w_redis_on = True, w_asynq_on = True, w_db = d,
     w_queue = [], w_faults = fs, w_now = 1000, w_uuids = [], w_models = (\<lambda>_. None),
     w_manager = init_manager\<rparr>"

definition cached :: "int \<Rightarrow> int \<times> int \<times> int \<Rightarrow> (string \<times> string) list" where
  "cached uid b = (case b of (s, g, c) \<Rightarrow> [(subBalanceKey uid, show_int s),
     (grantBalanceKey uid, show_int g), (cashBalanceKey uid, show_int c)])"

lemma witness_world_simps [simp]:
  "w_redis (witness_world kvs d fs) = map_of kvs" "w_redis_on (witness_world kvs d fs)"
  "w_db (witness_world kvs d fs) = d" "w_queue (witness_world kvs d fs) = []"
  "w_faults (witness_world kvs d fs) = fs" "w_asynq_on (witness_world kvs d fs)"
  "w_models (witness_world kvs d fs) = (\<lambda>_. None)" "w_manager (witness_world kvs d fs) = init_manager"
  by (simp_all add: witness_world_def)

lemma cached_pools [simp]: "pools_are mem_redis (balanceKeys3 uid) (map_of (cached uid b)) b"
  by (cases b) (simp add: pools_are_def holds_def cached_def balanceKeys3_def subBalanceKey_def
      grantBalanceKey_def cashBalanceKey_def)

theorem relay_marks_only_delivered_witness:
  "let row = \<lparr>ob_id = 1, ob_request_id = ''r1'', ob_payload = None, ob_attempts = 0,
         ob_created = 5, ob_processed = None\<rparr>;
       w = witness_world [] (empty_db\<lparr>settlement_outbox := [row]\<rparr>) [] in
   TaskRecordBillingLog None \<in> set (w_queue (drainSettlementOutbox w))"
proof -
  let ?row = "\<lparr>ob_id = 1, ob_request_id = ''r1'', ob_payload = None, ob_attempts = 0,
         ob_created = 5, ob_processed = None\<rparr>"
  let ?w = "witness_world [] (empty_db\<lparr>settlement_outbox := [?row]\<rparr>) []"
  let ?row' = "?row\<lparr>ob_processed := Some 1000\<rparr>"
  have "?row' \<in> set (settlement_outbox (w_db (drainSettlementOutbox ?w)))"
    by (simp add: drainSettlementOutbox_def relay_row_def listPendingSettlementOutbox_def
        markSettlementOutboxProcessed_def witness_world_def)
  from relay_marks_only_delivered [OF _ this] show ?thesis
    by (simp add: outbox_ids_def)
qed

section \<open>What the user pays\<close>

context redis_server
begin

lemma run_pre_deduct_short:
  assumes "w_faults w = []" "pools_are R (balanceKeys3 uid) (w_redis w) b" "exact_pools b"
    "exact cost" "sum_list (usable policy b) < cost"
  shows "run_pre_deduct R uid cost policy w = (Some [- 1, 0, 0, 0], w)"
  using pre_deduct_insufficient [OF assms(2-5)] assms(1) by (simp add: run_pre_deduct_def)

lemma preDeduct_short:
  assumes "w_faults w = []" "pools_are R (balanceKeys3 uid) (w_redis w) b" "exact_pools b"
    "exact cost" "sum_list (usable policy b) < cost"
  shows "preDeduct R uid cost policy w = (Inl InsufficientBalance, w)"
proof -
  let ?p = "if policy = '''' then ''all'' else policy"
  have "sum_list (usable ?p b) < cost" using assms(5) by (simp only: usable_all)
  from run_pre_deduct_short [OF assms(1-4) this] show ?thesis
    by (simp add: preDeduct_def pre_deduct_reply_def Let_def)
qed

lemma preDeduct_reloaded_short:
  assumes "w_faults w = []" "w_redis_on w" "getUserBalances uid (w_db w) = Some b"
    and "\<exists>k \<in> set (balanceKeys3 uid). rd_get R (w_redis w) k = None"
    and "exact_pools b" "exact cost" "sum_list (usable policy b) < cost"
  obtains r' where "preDeduct R uid cost policy w = (Inl InsufficientBalance, w\<lparr>w_redis := r'\<rparr>)"
    and "pools_are R (balanceKeys3 uid) r' b"
    and "same_elsewhere R (balanceKeys3 uid) (w_redis w) r'"
proof -
  let ?ks = "balanceKeys3 uid" and ?p = "if policy = '''' then ''all'' else policy"
  have miss: "run_pre_deduct R uid cost ?p w = (Some [- 2, 0, 0, 0], w)"
    using pre_deduct_miss [of "w_redis w" ?ks cost ?p] assms(1,4)
    by (auto simp: run_pre_deduct_def balanceKeys3_def)
  obtain r1 where sync: "syncUserBalanceCache R uid b w = (True, w\<lparr>w_redis := r1\<rparr>)"
    and p1: "pools_are R ?ks r1 b" and e1: "same_elsewhere R ?ks (w_redis w) r1"
    by (rule sync_spec [OF assms(1,2), of uid b])
  have load: "loadBalanceToCache R uid w = (True, w\<lparr>w_redis := r1\<rparr>)"
    using sync assms(1,3) by (simp add: loadBalanceToCache_def)
  have "sum_list (usable ?p b) < cost" using assms(7) by (simp only: usable_all)
  then have "run_pre_deduct R uid cost ?p (w\<lparr>w_redis := r1\<rparr>) =
      (Some [- 1, 0, 0, 0], w\<lparr>w_redis := r1\<rparr>)"
    using assms(1,5,6) p1 by (intro run_pre_deduct_short) simp_all
  with miss load p1 e1 show thesis
    by (intro that [of r1]) (simp_all add: preDeduct_def pre_deduct_reply_def Let_def)
qed

end

text \<open>
  The user's balances before a request: in the cache, or in the database when a pool is missing
  from the cache.
\<close>

definition balances_before :: "'r redis_api \<Rightarrow> int \<Rightarrow> 'r world \<Rightarrow> int \<times> int \<times> int \<Rightarrow> bool" where
  "balances_before R uid w b \<longleftrightarrow>
     pools_are R (balanceKeys3 uid) (w_redis w) b \<or>
     ((\<exists>k \<in> set (balanceKeys3 uid). rd_get R (w_redis w) k = None) \<and> w_redis_on w \<and>
      getUserBalances uid (w_db w) = Some b)"

text \<open>One call without failures: only the three pools change, and only when they cover the cost.\<close>

lemma preDeduct_outcome:
  assumes "redis_server R" "w_faults w = []" "balances_before R uid w b" "exact_pools b" "exact cost"
  obtains r where "preDeduct R uid cost policy w =
      (if cost \<le> sum_list (usable policy b) then Inr (deduction_of (drawn policy b cost))
       else Inl InsufficientBalance, w\<lparr>w_redis := r\<rparr>)"
    and "pools_are R (balanceKeys3 uid) r
      (if cost \<le> sum_list (usable policy b) then minus_pools b (drawn policy b cost) else b)"
    and "same_elsewhere R (balanceKeys3 uid) (w_redis w) r"
proof (cases "cost \<le> sum_list (usable policy b)")
  case True
  obtain r where "preDeduct R uid cost policy w =
      (Inr (deduction_of (drawn policy b cost)), w\<lparr>w_redis := r\<rparr>)"
    "pools_are R (balanceKeys3 uid) r (minus_pools b (drawn policy b cost))"
    "same_elsewhere R (balanceKeys3 uid) (w_redis w) r"
    using assms(3) unfolding balances_before_def
    by (metis True assms(1,2,4,5) redis_server.preDeduct_taken redis_server.preDeduct_reloaded)
  with True that show thesis by simp
next
  case False
  then have lt: "sum_list (usable policy b) < cost" by simp
  show thesis
  proof (cases "pools_are R (balanceKeys3 uid) (w_redis w) b")
    case True
    with redis_server.preDeduct_short [OF assms(1,2) True assms(4,5) lt] lt that [of "w_redis w"] show thesis
      by (simp add: same_elsewhere_def)
  next
    case False
    with assms(3) have "w_redis_on w" "getUserBalances uid (w_db w) = Some b"
      "\<exists>k \<in> set (balanceKeys3 uid). rd_get R (w_redis w) k = None"
      by (simp_all add: balances_before_def)
    then obtain r' where "preDeduct R uid cost policy w = (Inl InsufficientBalance, w\<lparr>w_redis := r'\<rparr>)"
      "pools_are R (balanceKeys3 uid) r' b" "same_elsewhere R (balanceKeys3 uid) (w_redis w) r'"
      by (rule redis_server.preDeduct_reloaded_short [OF assms(1,2) _ _ _ assms(4,5) lt])
    with lt that show thesis by simp
  qed
qed

lemma drawn_total:
  assumes "cost \<le> sum_list (usable policy b)" "exact cost" "0 \<le> cost"
  shows "deduction_total (deduction_of (drawn policy b cost)) = cost"
proof -
  obtain x y z where dr: "drawn policy b cost = [x, y, z]"
    by (cases b) (auto simp: drawn_def usable_def)
  have "x + y + z = cost" "0 \<le> x" "0 \<le> y" "0 \<le> z"
    using drawn_sum [OF assms(3,1)] drawn_nonneg [of policy b cost] by (simp_all add: dr)
  then show ?thesis
    using assms(2) by (auto simp: deduction_total_def deduction_of_def dr exact_def in_i64_def)
qed

text \<open>
  C3. Pre-deduction is exact. When the pools that the billing policy admits cover the cost, the
  deduction adds up to the cost, follows the order sub, grant, cash, and is what the three pools
  lose; when they do not, the call reports an insufficient balance and no pool changes. Either
  way no other key, no table and no queue is touched. This holds from a full cache and from a
  cache that has to be reloaded, for amounts up to 2^53.
\<close>

theorem preDeduct_exact:
  assumes "redis_server R" "w_faults w = []" "balances_before R uid w b" "exact_pools b"
    and "exact cost" "0 \<le> cost"
  shows "case preDeduct R uid cost policy w of
      (Inr d, w') \<Rightarrow> cost \<le> sum_list (usable policy b) \<and>
        d = deduction_of (waterfall cost (usable policy b)) \<and> deduction_total d = cost \<and>
        pools_are R (balanceKeys3 uid) (w_redis w')
          (fst b - d_sub d, fst (snd b) - d_grant d, snd (snd b) - d_cash d) \<and>
        same_elsewhere R (balanceKeys3 uid) (w_redis w) (w_redis w') \<and>
        w_db w' = w_db w \<and> w_queue w' = w_queue w
    | (Inl e, w') \<Rightarrow> sum_list (usable policy b) < cost \<and> e = InsufficientBalance \<and>
        pools_are R (balanceKeys3 uid) (w_redis w') b \<and>
        same_elsewhere R (balanceKeys3 uid) (w_redis w) (w_redis w') \<and>
        w_db w' = w_db w \<and> w_queue w' = w_queue w"
  by (rule preDeduct_outcome [OF assms(1-5), of policy])
    (use drawn_total [OF _ assms(5,6), of policy b] in
      \<open>cases b; cases "cost \<le> sum_list (usable policy b)"; simp add: minus_pools_def deduction_of_def drawn_def\<close>)

theorem preDeduct_exact_witness:
  "let w = witness_world (cached 7 (30, 20, 100)) empty_db [] in
   case preDeduct mem_redis 7 60 ''all'' w of
     (Inr d, w') \<Rightarrow> d = \<lparr>d_sub = 30, d_grant = 20, d_cash = 10\<rparr> \<and> deduction_total d = 60 \<and>
       pools_are mem_redis (balanceKeys3 7) (w_redis w') (0, 0, 90)
   | (Inl e, w') \<Rightarrow> False"
  using preDeduct_exact [where w = "witness_world (cached 7 (30, 20, 100)) empty_db []"
      and b = "(30, 20, 100)" and uid = 7 and cost = 60 and policy = "''all''", OF mem.redis_server_axioms]
  by (auto simp: balances_before_def exact_pools_def exact_def usable_def share_def
      deduction_of_def Let_def split: sum.splits prod.splits)

section \<open>The billing policy keeps a pool out\<close>

lemma lua_take_disabled: "lua_take R k b False rem r = (Some (0, rem), r)"
  by (simp add: lua_take_def)

lemma lua_pre_deduct_policy:
  assumes "lua_pre_deduct R ks cost policy r = (Some arr, r')"
  shows "policy = ''grant_only'' \<longrightarrow> arr ! 3 = 0"
    and "policy = ''cash_only'' \<longrightarrow> arr ! 1 = 0 \<and> arr ! 2 = 0"
  using assms
  by (auto simp: lua_pre_deduct_def lua_take3_def policy_uses_def lua_take_disabled Let_def
      split: option.splits if_splits prod.splits)

lemma run_pre_deduct_policy:
  assumes "run_pre_deduct R uid cost policy w = (Some arr, w')"
  shows "(policy = ''grant_only'' \<longrightarrow> arr ! 3 = 0) \<and> (policy = ''cash_only'' \<longrightarrow> arr ! 1 = 0 \<and> arr ! 2 = 0)"
proof -
  obtain r' where "lua_pre_deduct R (balanceKeys3 uid) cost policy (w_redis w) = (Some arr, r')"
    using assms by (auto simp: run_pre_deduct_def redis_call_def next_fault_eq
        split: option.splits prod.splits fault.splits if_splits)
  from lua_pre_deduct_policy [OF this] show ?thesis by blast
qed

text \<open>
  The billing policy is a hard wall: a \<open>grant_only\<close> model never draws on the cash pool and a
  \<open>cash_only\<close> model never on the subscription pools, whatever Redis answers and whatever fails.
\<close>

lemma preDeduct_policy_wall:
  assumes "preDeduct R uid cost policy w = (Inr d, w')"
  shows "(policy = ''grant_only'' \<longrightarrow> d_cash d = 0) \<and>
    (policy = ''cash_only'' \<longrightarrow> d_sub d = 0 \<and> d_grant d = 0)"
proof -
  let ?p = "if policy = '''' then ''all'' else policy"
  have "\<exists>w0 w1 arr. run_pre_deduct R uid cost ?p w0 = (Some arr, w1) \<and> pre_deduct_reply arr = Inr d"
    using assms by (auto simp: preDeduct_def Let_def split: option.splits prod.splits if_splits bool.splits)
  then obtain w0 w1 arr where run: "run_pre_deduct R uid cost ?p w0 = (Some arr, w1)"
    and d: "pre_deduct_reply arr = Inr d" by blast
  have f: "d_sub d = arr ! 1" "d_grant d = arr ! 2" "d_cash d = arr ! 3"
    using d by (auto simp: pre_deduct_reply_def split: if_splits)
  show ?thesis
    using run_pre_deduct_policy [OF run] by (auto simp: f)
qed

lemma preDeduct_policy_wall_witness:
  "\<exists>d w'. preDeduct mem_redis 7 60 ''grant_only''
      (witness_world (cached 7 (30, 40, 100)) empty_db []) = (Inr d, w') \<and> d_cash d = 0"
proof -
  let ?w = "witness_world (cached 7 (30, 40, 100)) empty_db []"
  have "redis_server mem_redis" by (rule mem.redis_server_axioms)
  moreover have "exact_pools (30, 40, 100)" "exact 60" by (simp_all add: exact_pools_def exact_def)
  moreover have "60 \<le> sum_list (usable ''grant_only'' (30, 40, 100))" by (simp add: usable_def)
  ultimately obtain r' where run: "preDeduct mem_redis 7 60 ''grant_only'' ?w =
      (Inr (deduction_of (drawn ''grant_only'' (30, 40, 100) 60)), ?w\<lparr>w_redis := r'\<rparr>)"
    using redis_server.preDeduct_taken [of mem_redis ?w 7 "(30, 40, 100)" 60 "''grant_only''"]
    by auto
  from preDeduct_policy_wall [OF run] run show ?thesis by simp
qed

section \<open>Refund and settlement on the cached balances\<close>

lemma given_all:
  assumes "0 \<le> p" "0 \<le> g" "0 \<le> c"
  shows "given (p + g + c) (p, g, c) = [p, g, c]"
  using given_complement [OF assms order_refl] assms by (simp add: share_def)

lemma refund_fine:
  assumes "w_faults w = []" "0 < amount"
  shows "refund R uid amount d req w =
    w\<lparr>w_redis := snd (lua_refund R (balanceKeys3 uid) amount (d_sub d) (d_grant d) (d_cash d) (w_redis w)),
      w_queue := w_queue w @ [TaskRecordBillingLog (Some (refund_record amount d req))]\<rparr>"
  using assms by (simp add: refund_def Let_def)

lemma refund_full:
  assumes "redis_server R" "w_faults w = []" "pools_are R (balanceKeys3 uid) (w_redis w) (s, g, c)"
    and "exact s" "exact g" "exact c"
    and "0 \<le> d_sub d" "0 \<le> d_grant d" "0 \<le> d_cash d"
    and "exact (d_sub d + d_grant d + d_cash d)" "0 < d_sub d + d_grant d + d_cash d"
    and "exact (s + d_sub d)" "exact (g + d_grant d)" "exact (c + d_cash d)"
    and "w' = refund R uid (deduction_total d) d req w"
  shows "pools_are R (balanceKeys3 uid) (w_redis w') (s + d_sub d, g + d_grant d, c + d_cash d) \<and>
    same_elsewhere R (balanceKeys3 uid) (w_redis w) (w_redis w') \<and> w_db w' = w_db w \<and>
    w_queue w' = w_queue w @ [TaskRecordBillingLog (Some (refund_record (deduction_total d) d req))]"
proof -
  have e: "exact (d_sub d)" "exact (d_grant d)" "exact (d_cash d)" "exact (d_sub d + d_grant d)"
    using assms(7-10) by (auto simp: exact_def)
  have t: "deduction_total d = d_sub d + d_grant d + d_cash d"
    using e assms(10) by (simp add: deduction_total_def)
  have ex: "exact (deduction_total d)" using assms(10) by (simp add: t)
  obtain r' where rf: "lua_refund R (balanceKeys3 uid) (deduction_total d) (d_sub d) (d_grant d)
        (d_cash d) (w_redis w) = (Some 1, r')"
    and p: "pools_are R (balanceKeys3 uid) r'
        (plus_pools (s, g, c) (given (deduction_total d) (d_sub d, d_grant d, d_cash d)))"
    and el: "same_elsewhere R (balanceKeys3 uid) (w_redis w) r'"
    by (rule redis_server.refund_given [OF assms(1) balance_keys_distinct assms(3) ex refl
          assms(4-6) e(1-3)]) (use assms in simp_all)
  have gv: "given (deduction_total d) (d_sub d, d_grant d, d_cash d) = [d_sub d, d_grant d, d_cash d]"
    using given_all [OF assms(7-9)] by (simp add: t)
  have "w' = w\<lparr>w_redis := r',
      w_queue := w_queue w @ [TaskRecordBillingLog (Some (refund_record (deduction_total d) d req))]\<rparr>"
    using refund_fine [OF assms(2), of "deduction_total d" R uid d req] assms(11,15) rf
    by (simp add: t)
  with p gv el show ?thesis by (simp add: plus_pools_def)
qed

text \<open>
  C8. A full refund undoes a pre-deduction: whatever other requests of the user did to the pools
  in between, the three pools get back exactly what the deduction took from each of them, and a
  billing record of type refund and amount 0 goes to the queue.
\<close>

theorem refund_returns_deduction:
  assumes "redis_server R" "w_faults w = []" "pools_are R (balanceKeys3 uid) (w_redis w) (s, g, c)"
    and "exact s" "exact g" "exact c"
    and "0 \<le> d_sub d" "0 \<le> d_grant d" "0 \<le> d_cash d"
    and "exact (d_sub d + d_grant d + d_cash d)" "0 < d_sub d + d_grant d + d_cash d"
    and "exact (s + d_sub d)" "exact (g + d_grant d)" "exact (c + d_cash d)"
    and "w' = refund R uid (deduction_total d) d req w"
  shows "pools_are R (balanceKeys3 uid) (w_redis w') (s + d_sub d, g + d_grant d, c + d_cash d) \<and>
    same_elsewhere R (balanceKeys3 uid) (w_redis w) (w_redis w') \<and> w_db w' = w_db w \<and>
    w_queue w' = w_queue w @ [TaskRecordBillingLog (Some (refund_record (deduction_total d) d req))]"
  by (rule refund_full [OF assms])

definition witness_request :: settlement_request where
  "witness_request = \<lparr>s_user = 7, s_api_key = 3, s_channel = 2, s_model = ''m1'', s_prompt = 10,
     s_completion = 20, s_cache_hit = 0, s_cache_miss = 0, s_pre_deducted = 60,
     s_sub_deducted = 30, s_grant_deducted = 20, s_cash_deducted = 10, s_actual_cost = 45,
     s_log_type = ''consumption'', s_request_id = ''r1''\<rparr>"

lemma witness_request_simps [simp]:
  "s_user witness_request = 7" "s_api_key witness_request = 3" "s_channel witness_request = 2"
  "s_model witness_request = ''m1''" "s_pre_deducted witness_request = 60"
  "s_sub_deducted witness_request = 30" "s_grant_deducted witness_request = 20"
  "s_cash_deducted witness_request = 10" "s_actual_cost witness_request = 45"
  "s_request_id witness_request = ''r1''" "s_log_type witness_request = ''consumption''"
  by (simp_all add: witness_request_def)

theorem refund_returns_deduction_witness:
  "pools_are mem_redis (balanceKeys3 7) (w_redis (refund mem_redis 7
      (deduction_total \<lparr>d_sub = 30, d_grant = 20, d_cash = 10\<rparr>) \<lparr>d_sub = 30, d_grant = 20, d_cash = 10\<rparr>
      witness_request (witness_world (cached 7 (0, 0, 90)) empty_db []))) (30, 20, 100)"
  using refund_returns_deduction [OF mem.redis_server_axioms,
      of "witness_world (cached 7 (0, 0, 90)) empty_db []" 7 0 0 90
        "\<lparr>d_sub = 30, d_grant = 20, d_cash = 10\<rparr>" _ witness_request]
  by (simp add: exact_def)

text \<open>
  C4. Settlement nets the charge. When the estimate covered the actual cost, the pools get back
  what was pre-deducted and not consumed, so that of the deduction only the first \<open>actual\<close> units
  in the order sub, grant, cash stay charged; the billing record goes to the queue. The pools may
  have changed since the pre-deduction.
\<close>

theorem settle_nets_overestimate:
  assumes "redis_server R" "w_faults w = []"
    and "pools_are R (balanceKeys3 (s_user req)) (w_redis w) (s, g, c)" "exact s" "exact g" "exact c"
    and "0 \<le> s_sub_deducted req" "0 \<le> s_grant_deducted req" "0 \<le> s_cash_deducted req"
    and "s_pre_deducted req = s_sub_deducted req + s_grant_deducted req + s_cash_deducted req"
    and "0 \<le> s_actual_cost req" "s_actual_cost req \<le> s_pre_deducted req"
    and "exact (s_pre_deducted req)" "exact (s + s_sub_deducted req)"
      "exact (g + s_grant_deducted req)" "exact (c + s_cash_deducted req)"
    and "k = waterfall (s_actual_cost req)
               [s_sub_deducted req, s_grant_deducted req, s_cash_deducted req]"
  shows "\<exists>w'. settle R req w = (True, w') \<and>
    pools_are R (balanceKeys3 (s_user req)) (w_redis w')
      (s + s_sub_deducted req - k ! 0, g + s_grant_deducted req - k ! 1,
       c + s_cash_deducted req - k ! 2) \<and>
    sum_list k = s_actual_cost req \<and>
    same_elsewhere R (balanceKeys3 (s_user req)) (w_redis w) (w_redis w') \<and>
    w_db w' = w_db w \<and> w_queue w' = w_queue w @ [TaskRecordBillingLog (Some req)]"
proof -
  have sm: "sum_list k = s_actual_cost req"
    using assms(7-12,17) by (simp add: waterfall_sum del: waterfall.simps)
  obtain r' where "settle_redis R req w = w\<lparr>w_redis := r'\<rparr>"
    and "pools_are R (balanceKeys3 (s_user req)) r' (s + s_sub_deducted req - k ! 0,
        g + s_grant_deducted req - k ! 1, c + s_cash_deducted req - k ! 2)"
    and "same_elsewhere R (balanceKeys3 (s_user req)) (w_redis w) r'"
    using redis_server.settle_redis_over [OF assms(1-3) refl refl refl assms(7-11) _ assms(4-6) _ assms(14-17)]
      assms(10,12,13) by auto
  with sm show ?thesis by (simp add: settle_fine [OF assms(2)])
qed

theorem settle_nets_overestimate_witness:
  "\<exists>w'. settle mem_redis witness_request (witness_world (cached 7 (0, 0, 90)) empty_db []) = (True, w')
    \<and> pools_are mem_redis (balanceKeys3 7) (w_redis w') (0, 5, 100)"
  using settle_nets_overestimate [OF mem.redis_server_axioms,
      of "witness_world (cached 7 (0, 0, 90)) empty_db []" witness_request 0 0 90 "[30, 15, 0]"]
  by (auto simp: exact_def share_def)

text \<open>
  When the estimate was too low, settlement takes the rest from the pools that the model's
  billing policy admits, in the order sub, grant, cash, and never more than a pool has: pools
  that were not negative stay so, and the shortfall that is not covered is dropped.
\<close>

lemma settle_underestimate_bounded:
  assumes "redis_server R" "w_faults w = []"
    and "pools_are R (balanceKeys3 (s_user req)) (w_redis w) (s, g, c)" "exact_pools (s, g, c)"
    and "s_pre_deducted req < s_actual_cost req"
    and "exact (s_pre_deducted req)" "exact (s_actual_cost req)"
    and "exact (s_actual_cost req - s_pre_deducted req)"
    and "0 \<le> s" "0 \<le> g" "0 \<le> c"
  shows "\<exists>w' s' g' c'. settle R req w = (True, w') \<and>
    pools_are R (balanceKeys3 (s_user req)) (w_redis w') (s', g', c') \<and>
    0 \<le> s' \<and> s' \<le> s \<and> 0 \<le> g' \<and> g' \<le> g \<and> 0 \<le> c' \<and> c' \<le> c \<and>
    (s - s') + (g - g') + (c - c') =
      min (s_actual_cost req - s_pre_deducted req)
        (sum_list (usable (settle_policy_of (s_model req) (w_db w)) (s, g, c))) \<and>
    same_elsewhere R (balanceKeys3 (s_user req)) (w_redis w) (w_redis w') \<and>
    w_queue w' = w_queue w @ [TaskRecordBillingLog (Some req)]"
proof -
  let ?p = "settle_policy_of (s_model req) (w_db w)"
  let ?short = "s_actual_cost req - s_pre_deducted req"
  obtain r' where sr: "settle_redis R req w = w\<lparr>w_redis := r'\<rparr>"
    and p: "pools_are R (balanceKeys3 (s_user req)) r' (minus_pools (s, g, c) (drawn ?p (s, g, c) ?short))"
    and el: "same_elsewhere R (balanceKeys3 (s_user req)) (w_redis w) r'"
    by (rule redis_server.settle_redis_under [OF assms(1-8)])
  obtain x y z where dr: "drawn ?p (s, g, c) ?short = [x, y, z]"
    by (auto simp: drawn_def usable_def)
  have nn: "0 \<le> x" "0 \<le> y" "0 \<le> z"
    using drawn_nonneg [of ?p "(s, g, c)" ?short] by (simp_all add: dr)
  have le: "drawn ?p (s, g, c) ?short ! i \<le> max 0 (usable ?p (s, g, c) ! i)" if "i < 3" for i
    using waterfall_le [of i "usable ?p (s, g, c)" ?short] that by (simp add: drawn_def usable_def)
  have ub: "x \<le> s" "y \<le> g" "z \<le> c"
    using le [of 0] le [of 1] le [of 2] assms(9-11) by (auto simp: dr usable_def split: if_splits)
  have cap: "capacity (usable ?p (s, g, c)) = sum_list (usable ?p (s, g, c))"
    using assms(9-11) by (simp add: usable_def)
  have "x + y + z = min ?short (sum_list (usable ?p (s, g, c)))"
    using waterfall_sum [of ?short "usable ?p (s, g, c)"] dr assms(5) cap by (simp add: drawn_def)
  with sr p el nn ub show ?thesis
    by (intro exI [of _ "w\<lparr>w_redis := r', w_queue := w_queue w @ [TaskRecordBillingLog (Some req)]\<rparr>"]
        exI [of _ "s - x"] exI [of _ "g - y"] exI [of _ "c - z"])
      (simp add: settle_fine [OF assms(2)] minus_pools_def dr)
qed

lemma settle_underestimate_bounded_witness:
  "\<exists>w' s' g' c'. settle mem_redis (witness_request\<lparr>s_actual_cost := 80\<rparr>)
      (witness_world (cached 7 (4, 0, 9)) empty_db []) = (True, w') \<and>
    pools_are mem_redis (balanceKeys3 7) (w_redis w') (s', g', c') \<and> (4 - s') + (0 - g') + (9 - c') = 13"
  using settle_underestimate_bounded [OF mem.redis_server_axioms,
      of "witness_world (cached 7 (4, 0, 9)) empty_db []" "witness_request\<lparr>s_actual_cost := 80\<rparr>" 4 0 9]
  by (fastforce simp: exact_def exact_pools_def settle_policy_of_def getModelByName_def empty_db_def
      usable_def)

theorem settle_not_lost_witness:
  "\<exists>w'. settle mem_redis (witness_request\<lparr>s_actual_cost := 60\<rparr>)
      (witness_world [] empty_db [Refused, Fine]) = (True, w') \<and>
    (TaskRecordBillingLog (Some (witness_request\<lparr>s_actual_cost := 60\<rparr>)) \<in> set (w_queue w') \<or>
     (\<exists>b \<in> set (settlement_outbox (w_db w')). ob_request_id b = ''r1''))"
proof -
  let ?req = "witness_request\<lparr>s_actual_cost := 60\<rparr>" and ?w = "witness_world [] empty_db [Refused, Fine]"
  have "fst (settle mem_redis ?req ?w)"
    by (simp add: settle_def settle_redis_def Let_def enqueue_def next_fault_def witness_world_def
        db_update_def db_call_def insertSettlementOutbox_def empty_db_def fits_def)
  then obtain w' where run: "settle mem_redis ?req ?w = (True, w')" by (metis prod.collapse)
  from settle_not_lost [OF run] run show ?thesis by auto
qed

section \<open>Crediting the cache\<close>

context redis_server
begin

lemma credit_present:
  assumes "w_faults w = []" "w_redis_on w" "holds R (w_redis w) k n" "in_i64 n" "in_i64 x" "in_i64 (n + x)"
    and "bt = ''cash'' \<and> k = cashBalanceKey uid \<or> bt = ''grant'' \<and> k = grantBalanceKey uid"
  obtains r' where "creditBalanceCache R uid bt x w = (Inr (), w\<lparr>w_redis := r'\<rparr>)"
    and "\<And>k'. rd_get R r' k' = (if k' = k then Some (show_int (n + x)) else rd_get R (w_redis w) k')"
proof -
  obtain r' where i: "rd_incrby R k x (w_redis w) = (Some (n + x), r')"
    and g: "\<And>k'. rd_get R r' k' = (if k' = k then Some (show_int (n + x)) else rd_get R (w_redis w) k')"
    by (rule incrby_holds [OF assms(3-6)]) blast
  have "creditBalanceCache R uid bt x w = (Inr (), w\<lparr>w_redis := r'\<rparr>)"
    using assms(1-3,7) i by (auto simp: creditBalanceCache_def lua_credit_cache_def holds_def)
  with g show thesis by (rule that [rotated])
qed

lemma credit_absent:
  assumes "w_faults w = []" "w_redis_on w" "rd_get R (w_redis w) k = None"
    and "bt = ''cash'' \<and> k = cashBalanceKey uid \<or> bt = ''grant'' \<and> k = grantBalanceKey uid"
  shows "creditBalanceCache R uid bt x w = (Inr (), w)"
  using assms by (auto simp: creditBalanceCache_def lua_credit_cache_def)

end

end
