(* ===== verification/Pricing.thy ===== *)
theory Pricing
  imports Rows
begin

text \<open>
  The cost of a request: internal/utils/pricing.go and model_pricing.go, internal/proxy/pricing.go
  (the actual cost at settlement) and the estimate of internal/middleware/auth.go that is
  deducted beforehand. Amounts are int64 and wrap; a multiplier is a float32, exactly a float64.
\<close>

section \<open>Operations\<close>

definition applyMultiplier :: "int \<Rightarrow> f64 \<Rightarrow> bool \<Rightarrow> int" where
  "applyMultiplier base mult roundUp =
     (if base \<le> 0 then 0
      else let scaled = f64_mul (f64_of_int base) mult in
           to_int64 (if roundUp then f64_ceil scaled else f64_round scaled))"

text \<open>\<open>RequestPriceCents\<close> of the configuration; a text that does not decode counts as empty.\<close>

definition parseRequestPricingConfig :: "json \<Rightarrow> int" where
  "parseRequestPricingConfig raw =
     (case raw of
        JObj kvs \<Rightarrow> (case int_field kvs ''request_price_cents'' of Some p \<Rightarrow> p | None \<Rightarrow> 0)
      | _ \<Rightarrow> 0)"

record settlement_pricing =
  pr_input :: int
  pr_output :: int
  pr_cache_hit :: int
  pr_cache_miss :: int
  pr_multiplier :: f64
  pr_mode :: string
  pr_request :: int

record usage_tokens =
  ut_prompt :: int
  ut_completion :: int
  ut_cache_hit :: int
  ut_cache_miss :: int

definition f64_one :: f64 where
  "f64_one = F64 1 0"

text \<open>The sum of the token prices, before it is divided by the million.\<close>

definition token_cost :: "settlement_pricing \<Rightarrow> usage_tokens \<Rightarrow> int" where
  "token_cost p u =
     (let detail = ut_cache_hit u > 0 \<or> ut_cache_miss u > 0;
          hit = (if detail then ut_cache_hit u else 0);
          miss = (if detail then ut_cache_miss u else 0);
          regular = (if detail then max 0 (wrap64 (wrap64 (ut_prompt u - hit) - miss)) else ut_prompt u);
          missPrice = (if pr_cache_miss p \<le> 0 then pr_input p else pr_cache_miss p)
      in wrap64 (wrap64 (wrap64 (wrap64 (regular * pr_input p) + wrap64 (hit * pr_cache_hit p)) +
           wrap64 (miss * missPrice)) + wrap64 (ut_completion u * pr_output p)))"

definition computeActualCost ::
  "settlement_pricing \<Rightarrow> usage_tokens \<Rightarrow> string \<Rightarrow> int \<Rightarrow> int" where
  "computeActualCost p u requestType billingUnits =
     (let mult = (if f64_le0 (pr_multiplier p) then f64_one else pr_multiplier p);
          base =
            (if pr_mode p = ''request'' \<or> requestType = ''image_generation''
             then wrap64 (pr_request p * (if billingUnits \<le> 0 then 1 else billingUnits))
             else quot (token_cost p u) 1000000)
      in applyMultiplier base mult False)"

text \<open>The estimate of \<open>AuthAndPreDeductMiddleware\<close>, never 0.\<close>

definition estimatedCost :: "model_row \<Rightarrow> int \<Rightarrow> int \<Rightarrow> int \<Rightarrow> int" where
  "estimatedCost m promptTokens maxOutputTokens billingUnits =
     (let base =
        (if m_pricing_mode m = ''request''
         then wrap64 (parseRequestPricingConfig (m_pricing_config m) * billingUnits)
         else quot (wrap64 (wrap64 (promptTokens * m_input_price m) +
                            wrap64 (maxOutputTokens * m_output_price m))) 1000000);
          cost = applyMultiplier base (m_multiplier m) True
      in if cost = 0 then 1 else cost)"

text \<open>The prices of a model as the settlement takes them.\<close>

definition pricing_of :: "model_row \<Rightarrow> settlement_pricing" where
  "pricing_of m = \<lparr>pr_input = m_input_price m, pr_output = m_output_price m,
     pr_cache_hit = m_cache_hit_price m, pr_cache_miss = m_cache_miss_price m,
     pr_multiplier = m_multiplier m, pr_mode = m_pricing_mode m,
     pr_request = parseRequestPricingConfig (m_pricing_config m)\<rparr>"

section \<open>Monotonicity\<close>

lemma f64_mul_int: "f64_mul (f64_of_int n) (F64 m e) = F64 (rnd53 (rnd53 n * m)) e"
  by (simp add: f64_of_int_def)

lemma scaled_mono:
  assumes "0 \<le> a" "a \<le> b" "0 \<le> m"
  shows "0 \<le> rnd53 (rnd53 a * m)" "rnd53 (rnd53 a * m) \<le> rnd53 (rnd53 b * m)"
proof -
  have "0 \<le> rnd53 a" "rnd53 a \<le> rnd53 b" using assms by (simp_all add: rnd53_nonneg rnd53_mono)
  then have "0 \<le> rnd53 a * m" "rnd53 a * m \<le> rnd53 b * m"
    using assms(3) by (simp_all add: mult_right_mono)
  then show "0 \<le> rnd53 (rnd53 a * m)" "rnd53 (rnd53 a * m) \<le> rnd53 (rnd53 b * m)"
    by (simp_all add: rnd53_nonneg rnd53_mono)
qed

text \<open>A smaller base rounded to the nearest costs at most a larger one rounded up.\<close>

lemma applyMultiplier_le:
  assumes "a \<le> b" "0 \<le> f64_mant k" "in_i64 (f64_ceil (f64_mul (f64_of_int b) k))"
  shows "0 \<le> applyMultiplier a k False" "applyMultiplier a k False \<le> applyMultiplier b k True"
proof -
  obtain m e where k: "k = F64 m e" by (cases k)
  let ?f = "\<lambda>n. rnd53 (rnd53 n * m)"
  have both: "0 \<le> applyMultiplier a k False \<and> applyMultiplier a k False \<le> applyMultiplier b k True"
  proof (cases "a \<le> 0")
    case True
    show ?thesis
    proof (cases "b \<le> 0")
      case False
      then have "0 \<le> ?f b" using scaled_mono [of b b m] assms(2) k by simp
      then have "0 \<le> f64_ceil (F64 (?f b) e)"
        using f64_round_nonneg f64_round_le_ceil order.trans by blast
      with True False assms(3) show ?thesis by (simp add: applyMultiplier_def Let_def k f64_mul_int del: f64_ceil.simps)
    qed (simp add: True applyMultiplier_def)
  next
    case False
    then have f: "0 \<le> ?f a" "?f a \<le> ?f b" using scaled_mono [of a b m] assms(1,2) k by simp_all
    have r: "0 \<le> f64_round (F64 (?f a) e)" "f64_round (F64 (?f a) e) \<le> f64_ceil (F64 (?f b) e)"
      using f64_round_nonneg [OF f(1)] order.trans [OF f64_round_le_ceil f64_ceil_mono [OF f(2)]] by blast+
    have i: "in_i64 (f64_ceil (F64 (?f b) e))" using assms(3) by (simp add: k f64_mul_int del: f64_ceil.simps)
    then have "in_i64 (f64_round (F64 (?f a) e))" using r by (auto simp: in_i64_def)
    with False r i assms(1) show ?thesis
      by (simp add: applyMultiplier_def Let_def k f64_mul_int del: f64_ceil.simps f64_round.simps)
  qed
  then show "0 \<le> applyMultiplier a k False" "applyMultiplier a k False \<le> applyMultiplier b k True" by simp_all
qed

section \<open>The estimate covers the cost\<close>

lemma quot_mono: "a \<le> b \<Longrightarrow> 0 < d \<Longrightarrow> quot a d \<le> quot b d"
proof -
  assume le: "a \<le> b" and d: "0 < d"
  have neg: "quot x d = - ((- x) div d)" if "x < 0" for x
    using that d by (simp add: quot_def sgn_if)
  consider "0 \<le> a" | "a < 0" "0 \<le> b" | "b < 0" using le by linarith
  then show ?thesis
  proof cases
    case 1
    with le d show ?thesis by (simp add: zdiv_mono1)
  next
    case 2
    then have "quot a d \<le> 0" using neg [of a] d by (simp add: pos_imp_zdiv_nonneg_iff)
    moreover have "0 \<le> quot b d" using 2 d by (simp add: pos_imp_zdiv_nonneg_iff)
    ultimately show ?thesis by linarith
  next
    case 3
    with le d show ?thesis by (simp add: neg zdiv_mono1)
  qed
qed

text \<open>The usage that the estimate allowed for: token counts within it, cached ones among the prompt.\<close>

definition within_estimate :: "usage_tokens \<Rightarrow> int \<Rightarrow> int \<Rightarrow> bool" where
  "within_estimate u promptTokens maxOutputTokens \<longleftrightarrow>
     0 \<le> ut_cache_hit u \<and> 0 \<le> ut_cache_miss u \<and> 0 \<le> ut_completion u \<and>
     ut_cache_hit u + ut_cache_miss u \<le> ut_prompt u \<and> ut_prompt u \<le> promptTokens \<and>
     ut_completion u \<le> maxOutputTokens"

text \<open>Prices in the usual order: a cached token costs at most a fresh one.\<close>

definition cache_is_cheaper :: "model_row \<Rightarrow> bool" where
  "cache_is_cheaper m \<longleftrightarrow> 0 \<le> m_input_price m \<and> 0 \<le> m_output_price m \<and>
     0 \<le> m_cache_hit_price m \<and> m_cache_hit_price m \<le> m_input_price m \<and>
     m_cache_miss_price m \<le> m_input_price m"

lemma four_parts:
  fixes a b c d :: int
  assumes "0 \<le> a" "0 \<le> b" "0 \<le> c" "0 \<le> d" "a + b + c + d < 2 ^ 63"
  shows "wrap64 (wrap64 (wrap64 (wrap64 a + wrap64 b) + wrap64 c) + wrap64 d) = a + b + c + d"
  using assms by (simp add: in_i64_def)

lemma token_cost_le:
  assumes u: "within_estimate u P X" and c: "cache_is_cheaper m"
    and o: "P * m_input_price m + X * m_output_price m < 2 ^ 63" and P: "P < 2 ^ 63"
  shows "token_cost (pricing_of m) u \<le> P * m_input_price m + X * m_output_price m"
proof -
  let ?i = "m_input_price m" and ?mp = "if m_cache_miss_price m \<le> 0 then m_input_price m else m_cache_miss_price m"
  let ?d = "ut_cache_hit u > 0 \<or> ut_cache_miss u > 0"
  define h where "h = (if ?d then ut_cache_hit u else 0)"
  define s where "s = (if ?d then ut_cache_miss u else 0)"
  have hs: "0 \<le> h" "0 \<le> s" "h + s \<le> ut_prompt u" "ut_prompt u \<le> P"
    using u by (auto simp: h_def s_def within_estimate_def)
  define r where "r = ut_prompt u - h - s"
  have r0: "0 \<le> r" using hs by (simp add: r_def)
  have reg: "(if ?d then max 0 (wrap64 (wrap64 (ut_prompt u - h) - s)) else ut_prompt u) = r"
    using hs P by (auto simp: r_def in_i64_def h_def s_def)
  have mp: "0 \<le> ?mp" "?mp \<le> ?i" and ip: "0 \<le> ?i" "0 \<le> m_output_price m" "0 \<le> m_cache_hit_price m" "m_cache_hit_price m \<le> ?i"
    using c by (auto simp: cache_is_cheaper_def)
  have x: "0 \<le> ut_completion u" "ut_completion u \<le> X" using u by (auto simp: within_estimate_def)
  have "h * m_cache_hit_price m \<le> h * ?i" "s * ?mp \<le> s * ?i" using hs mp ip by (simp_all add: mult_left_mono)
  moreover have "(r + h + s) * ?i \<le> P * ?i" using hs ip by (intro mult_right_mono) (simp_all add: r_def)
  moreover have "ut_completion u * m_output_price m \<le> X * m_output_price m" using x ip by (intro mult_right_mono) simp_all
  ultimately have le: "r * ?i + h * m_cache_hit_price m + s * ?mp + ut_completion u * m_output_price m
      \<le> P * ?i + X * m_output_price m"
    by (simp add: algebra_simps)
  have "0 \<le> r * ?i" "0 \<le> h * m_cache_hit_price m" "0 \<le> s * ?mp" "0 \<le> ut_completion u * m_output_price m"
    using r0 hs mp ip x by simp_all
  note parts = four_parts [OF this] 
  have "wrap64 (wrap64 (wrap64 (wrap64 (r * ?i) + wrap64 (h * m_cache_hit_price m)) + wrap64 (s * ?mp)) +
      wrap64 (ut_completion u * m_output_price m))
      = r * ?i + h * m_cache_hit_price m + s * ?mp + ut_completion u * m_output_price m"
    using le o by (intro parts) linarith
  moreover have "token_cost (pricing_of m) u = wrap64 (wrap64 (wrap64 (wrap64
      ((if ?d then max 0 (wrap64 (wrap64 (ut_prompt u - h) - s)) else ut_prompt u) * ?i) +
      wrap64 (h * m_cache_hit_price m)) + wrap64 (s * ?mp)) + wrap64 (ut_completion u * m_output_price m))"
    by (simp add: token_cost_def pricing_of_def h_def s_def Let_def)
  ultimately show ?thesis using le unfolding reg by simp
qed


definition witness_model :: model_row where
  "witness_model = \<lparr>m_id = 1, m_name = ''m1'', m_input_price = 300000000, m_output_price = 1500000000,
     m_cache_hit_price = 30000000, m_cache_miss_price = 0, m_multiplier = F64 3 (- 1),
     m_billing_policy = ''all'', m_modality = ''text'', m_pricing_mode = ''token'',
     m_pricing_config = empty_object, m_max_concurrency = 2, m_status = Some 1\<rparr>"


text \<open>
  The estimate wraps around: a request may ask for so many output tokens that the product
  with the price leaves the range of int64, and then a single unit is deducted beforehand for a
  request that may cost any amount; 7000000000 tokens at the price of the example are enough.
\<close>

lemma estimate_wraps_around:
  "estimatedCost witness_model 10 7000000000 1 = 1 \<and> estimatedCost witness_model 10 6000000 1 > 13 * 10 ^ 9"
  by (simp add: estimatedCost_def witness_model_def applyMultiplier_def wrap64_def quot_def f64_of_int_def
      Let_def in_i64_def)

end
