(* ===== verification/Http.thy ===== *)
theory Http
  imports Billing Pricing
begin

text \<open>
  What the stages of the gateway pass to each other: a request with its context values
  (internal/reqctx/keys.go), a response, the error body of internal/utils/error.go, and the
  configuration and model cache of internal/config that the stages read. A stage takes the rest
  of the chain as an argument \<open>next\<close>; both thread the world.
\<close>

section \<open>Requests and responses\<close>

text \<open>
  The typed values of a request context. An absent value is \<open>None\<close>; a failed type assertion
  \<open>v, _ := ctx.Value(k).(T)\<close> leaves the zero value of \<open>T\<close>.
\<close>

record request_ctx =
  cx_start :: "int option"
  cx_user :: "int option"
  cx_api_key :: "int option"
  cx_billing :: "bool option"
  cx_model :: "string option"
  cx_public_model :: "string option"
  cx_upstream_model :: "string option"
  cx_request_type :: "string option"
  cx_prompt_tokens :: "int option"
  cx_pre_deducted :: "int option"
  cx_sub :: "int option"
  cx_grant :: "int option"
  cx_cash :: "int option"
  cx_units :: "int option"
  cx_est_tokens :: "int option"
  cx_request_id :: "string option"
  cx_channel :: "int option"
  cx_provider :: "string option"
  cx_payload :: "raw_bytes option"
  cx_tier :: "int option"

definition empty_ctx :: request_ctx where
  "empty_ctx = \<lparr>cx_start = None, cx_user = None, cx_api_key = None, cx_billing = None,
     cx_model = None, cx_public_model = None, cx_upstream_model = None, cx_request_type = None,
     cx_prompt_tokens = None, cx_pre_deducted = None, cx_sub = None, cx_grant = None,
     cx_cash = None, cx_units = None, cx_est_tokens = None, cx_request_id = None,
     cx_channel = None, cx_provider = None, cx_payload = None, cx_tier = None\<rparr>"

definition or_empty :: "string option \<Rightarrow> string" where
  "or_empty s = (case s of None \<Rightarrow> '''' | Some t \<Rightarrow> t)"

definition or_false :: "bool option \<Rightarrow> bool" where
  "or_false b = (case b of None \<Rightarrow> False | Some c \<Rightarrow> c)"

lemma or_simps [simp]: "or_empty None = ''''" "or_empty (Some s) = s" "or_false None = False" "or_false (Some b) = b"
  by (simp_all add: or_empty_def or_false_def)

text \<open>A body is absent, breaks while it is read, or has so many bytes with some content.\<close>

datatype request_body = NilBody | BrokenBody | Body int raw_bytes

record http_request =
  hr_scheme :: string
  hr_host :: string
  hr_path :: string
  hr_query :: string
  hr_headers :: headers
  hr_body :: request_body
  hr_ctx :: request_ctx

record response =
  rs_status :: int
  rs_headers :: headers
  rs_body :: raw_bytes

type_synonym 'r handler = "http_request \<Rightarrow> 'r world \<Rightarrow> response \<times> 'r world"

definition error_body :: "string \<Rightarrow> string \<Rightarrow> string \<Rightarrow> json" where
  "error_body message errType code =
     JObj [(''error'', JObj ([(''message'', JStr message), (''type'', JStr errType)] @
       (if code = '''' then [] else [(''code'', JStr code)])))]"

definition writeOpenAIError :: "int \<Rightarrow> string \<Rightarrow> string \<Rightarrow> string \<Rightarrow> response" where
  "writeOpenAIError status message errType code =
     \<lparr>rs_status = status, rs_headers = [(''content-type'', ''application/json; charset=utf-8'')],
      rs_body = JsonBytes (error_body message errType code)\<rparr>"

section \<open>Configuration\<close>

record tier_limit =
  tl_rpm :: int
  tl_tpm :: int
  tl_model_rpm :: int

record server_config =
  sc_rpm :: int
  sc_tpm :: int
  sc_tiers :: "string \<Rightarrow> tier_limit option"

definition resolveTierLimit :: "server_config \<Rightarrow> int \<Rightarrow> tier_limit" where
  "resolveTierLimit s tier =
     (case sc_tiers s (show_int tier) of
        None \<Rightarrow> \<lparr>tl_rpm = sc_rpm s, tl_tpm = sc_tpm s, tl_model_rpm = 0\<rparr>
      | Some lim \<Rightarrow> lim\<lparr>tl_rpm := (if tl_rpm lim \<le> 0 then sc_rpm s else tl_rpm lim),
                     tl_tpm := (if tl_tpm lim \<le> 0 then sc_tpm s else tl_tpm lim)\<rparr>)"

section \<open>The model cache\<close>

definition loadModel :: "string \<Rightarrow> 'r world \<Rightarrow> model_row option \<times> 'r world" where
  "loadModel name w =
     (case db_query (getModelByName name) w of
        (None, w1) \<Rightarrow> (None, w1)
      | (Some m, w1) \<Rightarrow> (Some m, w1\<lparr>w_models := (w_models w1)(name \<mapsto> m)\<rparr>))"

definition loadAllModels :: "'r world \<Rightarrow> bool \<times> 'r world" where
  "loadAllModels w =
     (case db_query (\<lambda>d. Some (listActiveModels d)) w of
        (None, w1) \<Rightarrow> (False, w1)
      | (Some ms, w1) \<Rightarrow> (True, w1\<lparr>w_models := fold (\<lambda>m f. f(m_name m \<mapsto> m)) ms (\<lambda>_. None)\<rparr>))"

definition getModel :: "string \<Rightarrow> 'r world \<Rightarrow> model_row option \<times> 'r world" where
  "getModel name w =
     (case w_models w name of Some m \<Rightarrow> (Some m, w) | None \<Rightarrow> loadModel name w)"

text \<open>An entry of the cache stands under its own name.\<close>

definition models_keyed :: "('r, 'x) world_scheme \<Rightarrow> bool" where
  "models_keyed w \<longleftrightarrow> (\<forall>n m. w_models w n = Some m \<longrightarrow> m_name m = n)"

lemma db_query_models:
  "db_query f w = (a, w') \<Longrightarrow> w_models w' = w_models w \<and> w_db w' = w_db w \<and>
     (\<forall>x. a = Some x \<longrightarrow> f (w_db w) = Some x)"
  by (auto simp: db_query_def db_call_def next_fault_eq split: fault.splits option.splits)

lemma getModelByName_name: "getModelByName n d = Some m \<Longrightarrow> m_name m = n \<and> m_status m = Some 1"
  by (auto simp: getModelByName_def find_Some_iff)

lemma fold_models_keyed:
  "\<forall>n m. f n = Some m \<longrightarrow> m_name m = n \<Longrightarrow>
   fold (\<lambda>m f. f(m_name m \<mapsto> m)) ms f n = Some m \<Longrightarrow> m_name m = n"
proof (induction ms arbitrary: f)
  case (Cons a ms)
  have "\<forall>n m. (f(m_name a \<mapsto> a)) n = Some m \<longrightarrow> m_name m = n" using Cons.prems(1) by auto
  from Cons.IH [OF this] Cons.prems(2) show ?case by simp
qed simp

lemma getModel_keyed: "models_keyed w \<Longrightarrow> models_keyed (snd (getModel n w))"
  by (auto simp: getModel_def loadModel_def models_keyed_def split: option.splits prod.splits
      dest!: db_query_models getModelByName_name)

lemma loadAllModels_keyed: "models_keyed w \<Longrightarrow> models_keyed (snd (loadAllModels w))"
  using fold_models_keyed [of "\<lambda>_. None"]
  by (auto simp: loadAllModels_def models_keyed_def split: option.splits prod.splits
      dest!: db_query_models)

text \<open>
  The price of a model is that of the model asked for: from a cache whose entries stand under
  their own names a lookup gives a model of the requested name, whatever fails, and leaves such a
  cache; a model found once is found again, the same, without the database.
\<close>

lemma getModel_right_model:
  assumes "models_keyed w" "getModel n w = (Some m, w')"
  shows "m_name m = n \<and> models_keyed w' \<and> (\<forall>v. w_models v = w_models w' \<longrightarrow> getModel n v = (Some m, v))"
proof -
  have k: "models_keyed w'" using getModel_keyed [OF assms(1), of n] assms(2) by simp
  have "w_models w' n = Some m"
    using assms(2) by (auto simp: getModel_def loadModel_def split: option.splits prod.splits)
  then show ?thesis using k by (auto simp: models_keyed_def getModel_def)
qed

lemma getModel_right_model_witness:
  "\<exists>m w'. getModel ''m1'' (witness_world [] (empty_db\<lparr>models := [witness_model]\<rparr>) []) = (Some m, w') \<and>
    m_name m = ''m1''"
proof -
  let ?w = "witness_world [] (empty_db\<lparr>models := [witness_model]\<rparr>) []"
  have k: "models_keyed ?w" by (simp add: models_keyed_def)
  have "getModelByName ''m1'' (w_db ?w) = Some witness_model"
    by (simp add: getModelByName_def witness_model_def)
  then obtain m w' where g: "getModel ''m1'' ?w = (Some m, w')"
    by (simp add: getModel_def loadModel_def)
  from getModel_right_model [OF k g] g show ?thesis by auto
qed

text \<open>
  A tier never raises a limit to unlimited by leaving it out: with positive global limits every
  tier, configured or not, has positive request and token limits, a configured positive limit is
  kept, and a tier that is not configured has the global ones.
\<close>

lemma tier_limits_positive:
  assumes "0 < sc_rpm s" "0 < sc_tpm s"
  shows "0 < tl_rpm (resolveTierLimit s t) \<and> 0 < tl_tpm (resolveTierLimit s t) \<and>
    (\<forall>lim. sc_tiers s (show_int t) = Some lim \<longrightarrow>
       (0 < tl_rpm lim \<longrightarrow> tl_rpm (resolveTierLimit s t) = tl_rpm lim) \<and>
       (0 < tl_tpm lim \<longrightarrow> tl_tpm (resolveTierLimit s t) = tl_tpm lim) \<and>
       tl_model_rpm (resolveTierLimit s t) = tl_model_rpm lim) \<and>
    (sc_tiers s (show_int t) = None \<longrightarrow> resolveTierLimit s t =
       \<lparr>tl_rpm = sc_rpm s, tl_tpm = sc_tpm s, tl_model_rpm = 0\<rparr>)"
  using assms by (auto simp: resolveTierLimit_def split: option.splits)

definition witness_config :: server_config where
  "witness_config = \<lparr>sc_rpm = 600, sc_tpm = 2000000,
     sc_tiers = [''1'' \<mapsto> \<lparr>tl_rpm = 2, tl_tpm = 0, tl_model_rpm = 1\<rparr>]\<rparr>"

section \<open>Giving the estimate back\<close>

text \<open>The refund that a stage makes when it turns a request away.\<close>

definition refund_request :: "string \<Rightarrow> request_ctx \<Rightarrow> int \<Rightarrow> settlement_request" where
  "refund_request model cx user = \<lparr>s_user = user, s_api_key = coalesce0 (cx_api_key cx),
     s_channel = coalesce0 (cx_channel cx), s_model = model,
     s_prompt = wrap32 (coalesce0 (cx_prompt_tokens cx)), s_completion = 0, s_cache_hit = 0,
     s_cache_miss = 0, s_pre_deducted = 0, s_sub_deducted = 0, s_grant_deducted = 0,
     s_cash_deducted = 0, s_actual_cost = 0, s_log_type = '''',
     s_request_id = or_empty (cx_request_id cx)\<rparr>"

definition refund_ctx ::
  "'r redis_api \<Rightarrow> string \<Rightarrow> request_ctx \<Rightarrow> int \<Rightarrow> 'r world \<Rightarrow> 'r world" where
  "refund_ctx R model cx user w =
     (let amount = coalesce0 (cx_pre_deducted cx) in
      if amount > 0
      then refund R user amount \<lparr>d_sub = coalesce0 (cx_sub cx), d_grant = coalesce0 (cx_grant cx),
             d_cash = coalesce0 (cx_cash cx)\<rparr> (refund_request model cx user) w
      else w)"

definition witness_ctx :: request_ctx where
  "witness_ctx = empty_ctx\<lparr>cx_billing := Some True, cx_user := Some 7, cx_model := Some ''m1'',
     cx_tier := Some 1, cx_est_tokens := Some 500, cx_sub := Some 30, cx_grant := Some 20,
     cx_cash := Some 10, cx_pre_deducted := Some 60, cx_request_id := Some ''r1''\<rparr>"

definition witness_http :: http_request where
  "witness_http = \<lparr>hr_scheme = '''', hr_host = '''', hr_path = ''/v1/chat/completions'', hr_query = '''',
     hr_headers = [], hr_body = NilBody, hr_ctx = witness_ctx\<rparr>"

end
