(* ===== verification/Media.thy ===== *)
theory Media
  imports Http
begin

text \<open>
  internal/media: the decoded requests of the three generation routes, the parts of a chat message,
  the estimate of its tokens and the resolution of images. The network and the content sniffing of
  net/http are parameters.
\<close>

section \<open>Requests\<close>

record media_input =
  mi_type :: string
  mi_url :: string
  mi_mime :: string
  mi_data :: string
  mi_file :: string

definition empty_input :: media_input where
  "empty_input = \<lparr>mi_type = '''', mi_url = '''', mi_mime = '''', mi_data = '''', mi_file = ''''\<rparr>"

fun decode_input :: "json \<Rightarrow> media_input option" where
  "decode_input (JObj kvs) =
     (case (str_field kvs ''type'', str_field kvs ''url'', str_field kvs ''mime_type'',
            str_field kvs ''data'', str_field kvs ''file_id'') of
        (Some t, Some u, Some m, Some d, Some f) \<Rightarrow>
          Some \<lparr>mi_type = t, mi_url = u, mi_mime = m, mi_data = d, mi_file = f\<rparr>
      | _ \<Rightarrow> None)"
| "decode_input JNull = Some empty_input"
| "decode_input _ = None"

text \<open>The content of a message stays undecoded; a message without one has \<open>None\<close>.\<close>

record chat_message =
  msg_role :: string
  msg_content :: "json option"

fun decode_message :: "json \<Rightarrow> chat_message option" where
  "decode_message (JObj kvs) =
     map_option (\<lambda>r. \<lparr>msg_role = r,
         msg_content = (if matching kvs ''content'' = [] then None else Some (last (matching kvs ''content'')))\<rparr>)
       (str_field kvs ''role'')"
| "decode_message _ = None"

record chat_request =
  cr_model :: string
  cr_messages :: "chat_message list"
  cr_max_tokens :: int
  cr_temperature :: "f64 option"
  cr_top_p :: "f64 option"
  cr_stream :: bool

text \<open>A JSON null leaves the zero request.\<close>

definition struct_members :: "raw_bytes \<Rightarrow> (string \<times> json) list option" where
  "struct_members body = (case body of JsonBytes (JObj kvs) \<Rightarrow> Some kvs | JsonBytes JNull \<Rightarrow> Some [] | _ \<Rightarrow> None)"

definition parseChatCompletionRequest :: "raw_bytes \<Rightarrow> chat_request option" where
  "parseChatCompletionRequest body =
     (case struct_members body of None \<Rightarrow> None | Some kvs \<Rightarrow>
      case (str_field kvs ''model'',
            list_field decode_message \<lparr>msg_role = '''', msg_content = None\<rparr> kvs ''messages'',
            int_field kvs ''max_tokens'', ptr_field json_float kvs ''temperature'',
            ptr_field json_float kvs ''top_p'', bool_field kvs ''stream'') of
        (Some m, Some ms, Some x, Some t, Some p, Some s) \<Rightarrow>
          Some \<lparr>cr_model = m, cr_messages = ms, cr_max_tokens = x, cr_temperature = t, cr_top_p = p,
                cr_stream = s\<rparr>
      | _ \<Rightarrow> None)"

record image_request =
  ir_model :: string
  ir_prompt :: string
  ir_image :: "media_input option"
  ir_n :: int
  ir_size :: string
  ir_quality :: string
  ir_format :: string

definition parseImageGenerationRequest :: "raw_bytes \<Rightarrow> image_request option" where
  "parseImageGenerationRequest body =
     (case struct_members body of None \<Rightarrow> None | Some kvs \<Rightarrow>
      case (str_field kvs ''model'', str_field kvs ''prompt'', ptr_field decode_input kvs ''image'',
            int_field kvs ''n'', str_field kvs ''size'', str_field kvs ''quality'',
            str_field kvs ''response_format'') of
        (Some m, Some p, Some i, Some n, Some s, Some q, Some f) \<Rightarrow>
          Some \<lparr>ir_model = m, ir_prompt = p, ir_image = i, ir_n = (if n \<le> 0 then 1 else n),
                ir_size = s, ir_quality = q, ir_format = f\<rparr>
      | _ \<Rightarrow> None)"

record named_input =
  ni_role :: string
  ni_input :: media_input

fun decode_named :: "json \<Rightarrow> named_input option" where
  "decode_named (JObj kvs) =
     (case (str_field kvs ''role'', read_into decode_input empty_input (matching kvs ''input'')) of
        (Some r, Some i) \<Rightarrow> Some \<lparr>ni_role = r, ni_input = i\<rparr>
      | _ \<Rightarrow> None)"
| "decode_named _ = None"

record video_request =
  vr_model :: string
  vr_prompt :: string
  vr_negative :: string
  vr_inputs :: "named_input list"
  vr_duration :: int
  vr_size :: string
  vr_fps :: int
  vr_seed :: int
  vr_metadata :: "(string \<times> json) list option"

fun decode_any_map :: "json \<Rightarrow> (string \<times> json) list option" where
  "decode_any_map (JObj kvs) = Some (map (\<lambda>(k, v). (k, any_value v)) kvs)"
| "decode_any_map _ = None"

definition parseVideoGenerationRequest :: "raw_bytes \<Rightarrow> video_request option" where
  "parseVideoGenerationRequest body =
     (case struct_members body of None \<Rightarrow> None | Some kvs \<Rightarrow>
      case (str_field kvs ''model'', str_field kvs ''prompt'', str_field kvs ''negative_prompt'',
            list_field decode_named \<lparr>ni_role = '''', ni_input = empty_input\<rparr> kvs ''inputs'',
            int_field kvs ''duration'', str_field kvs ''size'', int_field kvs ''fps'',
            int_field kvs ''seed'', ptr_field decode_any_map kvs ''metadata'') of
        (Some m, Some p, Some np, Some ns, Some du, Some si, Some fp, Some se, Some me) \<Rightarrow>
          Some \<lparr>vr_model = m, vr_prompt = p, vr_negative = np, vr_inputs = ns, vr_duration = du,
                vr_size = si, vr_fps = fp, vr_seed = se, vr_metadata = me\<rparr>
      | _ \<Rightarrow> None)"

section \<open>The parts of a message\<close>

datatype message_part = TextPart string | ImagePart media_input

definition string_member :: "(string \<times> json) list \<Rightarrow> string \<Rightarrow> string" where
  "string_member kvs k = or_empty (as_string (obj_get kvs k))"

text \<open>
  One part: an error, nothing, or a part. An input image goes through a map and back into a
  struct, so its members come in the order of their keys.
\<close>

definition normalize_part :: "(string \<times> json) list \<Rightarrow> message_part list option" where
  "normalize_part item =
     (let t = string_member item ''type'' in
      if t = ''text'' then Some [TextPart (string_member item ''text'')]
      else if t = ''image_url'' then
        Some [ImagePart (empty_input\<lparr>mi_type := ''url'',
          mi_url := (case as_object (obj_get item ''image_url'') of None \<Rightarrow> '''' | Some u \<Rightarrow> string_member u ''url'')\<rparr>)]
      else if t = ''input_image'' then
        map_option (\<lambda>i. [ImagePart i])
          (decode_input (case obj_get item ''input'' of None \<Rightarrow> JNull
             | Some (JObj kvs) \<Rightarrow> JObj (marshal_members kvs) | Some v \<Rightarrow> v))
      else Some [])"

definition normalizeMessageParts :: "json option \<Rightarrow> message_part list option" where
  "normalizeMessageParts raw =
     (case raw of
        None \<Rightarrow> Some []
      | Some JNull \<Rightarrow> Some []
      | Some (JStr s) \<Rightarrow> Some [TextPart s]
      | Some v \<Rightarrow>
          (case json_list decode_any_map [] v of
             None \<Rightarrow> None
           | Some items \<Rightarrow> map_option concat (those (map normalize_part items))))"

definition estimatedImageTokens :: int where
  "estimatedImageTokens = 1024"

fun part_tokens :: "(string \<Rightarrow> int) \<Rightarrow> message_part \<Rightarrow> int" where
  "part_tokens encode (TextPart s) = encode s"
| "part_tokens encode (ImagePart i) = estimatedImageTokens"

definition message_tokens :: "(string \<Rightarrow> int) \<Rightarrow> chat_message \<Rightarrow> int" where
  "message_tokens encode m = 4 + encode (msg_role m) +
     (case normalizeMessageParts (msg_content m) of
        None \<Rightarrow> 0 | Some parts \<Rightarrow> sum_list (map (part_tokens encode) parts))"

definition estimatePromptTokens :: "chat_request \<Rightarrow> (string \<Rightarrow> int) \<Rightarrow> int" where
  "estimatePromptTokens rq encode =
     wrap64 (sum_list (map (message_tokens encode) (cr_messages rq)) + 2)"

section \<open>Images\<close>

record resolved_media =
  rm_mime :: string
  rm_base64 :: string

definition resolveDataURL :: "string \<Rightarrow> resolved_media option" where
  "resolveDataURL raw =
     (case index_of (CHR '','') raw of
        None \<Rightarrow> None
      | Some i \<Rightarrow>
          let mime = trim_suffix (trim_prefix (take i raw) ''data:'') '';base64'';
              payload = drop (i + 1) raw
          in if mime = '''' \<or> payload = '''' then None
             else Some \<lparr>rm_mime = mime, rm_base64 = payload\<rparr>)"

text \<open>
  A fetch from the network: no answer, or a status, a content type and the bytes of the body,
  which is \<open>None\<close> when reading it fails.
\<close>

record network =
  net_get :: "string \<Rightarrow> (int \<times> string \<times> string option) option"
  net_sniff :: "string \<Rightarrow> string"

definition base64_char :: "nat \<Rightarrow> char" where
  "base64_char n =
     (if n < 26 then char_of (65 + n) else if n < 52 then char_of (71 + n)
      else if n < 62 then char_of (n - 4) else if n = 62 then CHR ''+'' else CHR ''/'')"

fun base64_encode :: "string \<Rightarrow> string" where
  "base64_encode (a # b # c # s) =
     (let n = (of_char a * 256 + of_char b) * 256 + of_char c :: nat in
      [base64_char (n div 262144), base64_char (n div 4096 mod 64), base64_char (n div 64 mod 64),
       base64_char (n mod 64)] @ base64_encode s)"
| "base64_encode [a, b] =
     (let n = (of_char a * 256 + of_char b) * 256 :: nat in
      [base64_char (n div 262144), base64_char (n div 4096 mod 64), base64_char (n div 64 mod 64), CHR ''=''])"
| "base64_encode [a] =
     (let n = of_char a * 65536 :: nat in
      [base64_char (n div 262144), base64_char (n div 4096 mod 64), CHR ''='', CHR ''=''])"
| "base64_encode [] = []"

definition maxRemoteMediaBytes :: nat where
  "maxRemoteMediaBytes = 20 * 1024 * 1024"

definition fetchRemoteMedia :: "network \<Rightarrow> string \<Rightarrow> resolved_media option" where
  "fetchRemoteMedia net url =
     (case net_get net url of
        None \<Rightarrow> None
      | Some (status, ctype, body) \<Rightarrow>
          if status < 200 \<or> 300 \<le> status then None
          else case body of
            None \<Rightarrow> None
          | Some bytes \<Rightarrow>
              if maxRemoteMediaBytes < length bytes then None
              else let mime = (case index_of (CHR '';'') ctype of None \<Rightarrow> ctype | Some i \<Rightarrow> take i ctype) in
                Some \<lparr>rm_mime = (if mime = '''' then net_sniff net bytes else mime),
                      rm_base64 = base64_encode bytes\<rparr>)"

definition resolveMediaInput :: "network \<Rightarrow> media_input \<Rightarrow> resolved_media option" where
  "resolveMediaInput net i =
     (if mi_type i = ''url'' \<or> mi_type i = '''' then
        (if mi_url i = '''' then None
         else if has_prefix (mi_url i) ''data:'' then resolveDataURL (mi_url i)
         else fetchRemoteMedia net (mi_url i))
      else if mi_type i = ''base64'' then
        (if mi_data i = '''' then None
         else if has_prefix (mi_data i) ''data:'' then resolveDataURL (mi_data i)
         else if mi_mime i = '''' then None
         else Some \<lparr>rm_mime = mi_mime i, rm_base64 = mi_data i\<rparr>)
      else None)"

end
