(* ===== verification/Auth.thy ===== *)
theory Auth
  imports Media Provider
begin

text \<open>
  internal/middleware/auth.go: the stage that knows the caller by the API key, reads the request,
  checks model, modality and quota, and takes the estimated cost before anything is sent upstream;
  and internal/middleware/internal_token.go. The tokenizer is a parameter: for a model name the
  number of tokens of a text, or \<open>None\<close> where no encoding could be loaded.
\<close>

section \<open>Reading the request\<close>

type_synonym tokenizer = "string \<Rightarrow> (string \<Rightarrow> int) option"

definition estimateChatPromptTokens :: "tokenizer \<Rightarrow> string \<Rightarrow> chat_request \<Rightarrow> int" where
  "estimateChatPromptTokens tok model payload =
     (case tok model of None \<Rightarrow> 10 | Some encode \<Rightarrow> estimatePromptTokens payload encode)"

definition estimatePlainTextTokens :: "tokenizer \<Rightarrow> string \<Rightarrow> string \<Rightarrow> int" where
  "estimatePlainTextTokens tok model txt = (case tok model of None \<Rightarrow> 10 | Some encode \<Rightarrow> encode txt)"

datatype route = ChatRoute | ImageRoute | VideoRoute | OtherRoute

definition route_of :: "string \<Rightarrow> route" where
  "route_of path =
     (if has_suffix path ''/chat/completions'' \<or> has_suffix path ''/completions'' then ChatRoute
      else if has_suffix path ''/images/generations'' \<or> has_suffix path ''/image/generations'' then ImageRoute
      else if has_suffix path ''/video/generations'' then VideoRoute
      else OtherRoute)"

record parsed_request =
  pq_model :: string
  pq_prompt :: int
  pq_max_output :: int
  pq_type :: string
  pq_units :: int

definition no_request :: parsed_request where
  "no_request = \<lparr>pq_model = '''', pq_prompt = 0, pq_max_output = 0, pq_type = '''', pq_units = 1\<rparr>"

definition maxBodySize :: int where
  "maxBodySize = 5 * 1024 * 1024"

definition invalid_json :: response where
  "invalid_json = writeOpenAIError 400 ''Invalid JSON format'' ''invalid_request_error'' ''''"

fun parse_request :: "tokenizer \<Rightarrow> route \<Rightarrow> raw_bytes \<Rightarrow> response + parsed_request" where
  "parse_request tok ChatRoute raw =
     (case parseChatCompletionRequest raw of
        None \<Rightarrow> Inl invalid_json
      | Some p \<Rightarrow> Inr \<lparr>pq_model = cr_model p, pq_prompt = estimateChatPromptTokens tok (cr_model p) p,
          pq_max_output = (if cr_max_tokens p \<le> 0 then 4096 else cr_max_tokens p),
          pq_type = ''chat'', pq_units = 1\<rparr>)"
| "parse_request tok ImageRoute raw =
     (case parseImageGenerationRequest raw of
        None \<Rightarrow> Inl invalid_json
      | Some p \<Rightarrow> Inr \<lparr>pq_model = ir_model p, pq_prompt = estimatePlainTextTokens tok (ir_model p) (ir_prompt p),
          pq_max_output = 0, pq_type = ''image_generation'', pq_units = ir_n p\<rparr>)"
| "parse_request tok VideoRoute raw =
     (case parseVideoGenerationRequest raw of
        None \<Rightarrow> Inl invalid_json
      | Some p \<Rightarrow> Inr \<lparr>pq_model = vr_model p, pq_prompt = estimatePlainTextTokens tok (vr_model p) (vr_prompt p),
          pq_max_output = 0, pq_type = ''video_generation'', pq_units = 1\<rparr>)"
| "parse_request tok OtherRoute raw = Inr no_request"

text \<open>The reader stops at the limit, so a body that fills it counts as too large.\<close>

definition read_request :: "tokenizer \<Rightarrow> route \<Rightarrow> request_body \<Rightarrow> response + parsed_request" where
  "read_request tok rt body =
     (case (case body of
              NilBody \<Rightarrow> Inr no_request
            | BrokenBody \<Rightarrow> Inl (writeOpenAIError 400 ''Cannot read request body'' ''invalid_request_error'' '''')
            | Body len raw \<Rightarrow>
                if maxBodySize \<le> len
                then Inl (writeOpenAIError 413 ''Request body too large (limit 5MB)'' ''invalid_request_error''
                            ''body_too_large'')
                else parse_request tok rt raw) of
        Inl e \<Rightarrow> Inl e
      | Inr p \<Rightarrow> if pq_model p = ''''
                then Inl (writeOpenAIError 400 ''Model is required'' ''invalid_request_error'' ''model_required'')
                else Inr p)"

section \<open>The failure log\<close>

definition logMiddlewareFailure ::
  "request_ctx \<Rightarrow> int \<Rightarrow> string \<Rightarrow> string \<Rightarrow> string \<Rightarrow> string \<Rightarrow> 'r world \<Rightarrow> 'r world" where
  "logMiddlewareFailure cx status model errorType errorCode message w =
     (let user = coalesce0 (cx_user cx); key = coalesce0 (cx_api_key cx) in
      if status \<le> 0 \<or> user \<le> 0 then w
      else snd (db_update (createModelFailureLog
             \<lparr>mf_user = user, mf_api_key = (if key > 0 then Some key else None), mf_request_id = '''',
              mf_model = model, mf_provider = '''', mf_error_type = errorType, mf_error_code = errorCode,
              mf_status = wrap32 status, mf_message = message, mf_body = '''',
              mf_latency = (case cx_start cx of None \<Rightarrow> 0 | Some t \<Rightarrow> wrap32 (quot (w_now w - t) 1000000)),
              mf_retryable = False\<rparr>) w))"

text \<open>
  \<open>%q\<close>: a text in quotes, with the escapes of strconv.Quote for ASCII; the bytes of other
  characters stay.
\<close>

definition hex_digit :: "nat \<Rightarrow> char" where
  "hex_digit n = (if n < 10 then char_of (48 + n) else char_of (87 + n))"

definition quote_char :: "char \<Rightarrow> string" where
  "quote_char c =
     (let n = of_char c :: nat; bs = char_of (92::nat) in
      if n = 34 \<or> n = 92 then [bs, c]
      else if n = 7 then [bs, CHR ''a''] else if n = 8 then [bs, CHR ''b''] else if n = 12 then [bs, CHR ''f'']
      else if n = 10 then [bs, CHR ''n''] else if n = 13 then [bs, CHR ''r''] else if n = 9 then [bs, CHR ''t'']
      else if n = 11 then [bs, CHR ''v'']
      else if n < 32 \<or> n = 127 then [bs, CHR ''x'', hex_digit (n div 16), hex_digit (n mod 16)]
      else [c])"

definition go_quote :: "string \<Rightarrow> string" where
  "go_quote s = [char_of (34::nat)] @ concat (map quote_char s) @ [char_of (34::nat)]"

section \<open>Checks and pre-deduction\<close>

fun expected_modality :: "route \<Rightarrow> string" where
  "expected_modality ImageRoute = ''image''"
| "expected_modality VideoRoute = ''video''"
| "expected_modality _ = ''text''"

definition modality_fits :: "route \<Rightarrow> string \<Rightarrow> bool" where
  "modality_fits rt modality \<longleftrightarrow>
     modality = expected_modality rt \<or> rt = ChatRoute \<and> modality = ''vision''"

text \<open>The lifetime quota of a key: set and positive, and used up by the estimate.\<close>

definition quota_used :: "api_key_row \<Rightarrow> int" where
  "quota_used k = coalesce0 (k_quota_used k)"

definition over_quota :: "api_key_row \<Rightarrow> int \<Rightarrow> bool" where
  "over_quota k cost = (case k_quota_limit k of None \<Rightarrow> False
     | Some limit \<Rightarrow> 0 < limit \<and> limit < wrap64 (quota_used k + cost))"

definition charged_ctx :: "request_ctx \<Rightarrow> parsed_request \<Rightarrow> int \<Rightarrow> deduction \<Rightarrow> string \<Rightarrow> request_ctx" where
  "charged_ctx cx p cost d rid = cx\<lparr>cx_model := Some (pq_model p), cx_public_model := Some (pq_model p),
     cx_upstream_model := Some (pq_model p), cx_request_type := Some (pq_type p),
     cx_prompt_tokens := Some (pq_prompt p), cx_pre_deducted := Some cost, cx_sub := Some (d_sub d),
     cx_grant := Some (d_grant d), cx_cash := Some (d_cash d), cx_units := Some (pq_units p),
     cx_est_tokens := Some (wrap64 (pq_prompt p + pq_max_output p)), cx_request_id := Some rid\<rparr>"

definition charge_request ::
  "'r redis_api \<Rightarrow> api_key_row \<Rightarrow> int \<Rightarrow> request_ctx \<Rightarrow> parsed_request \<Rightarrow> model_row \<Rightarrow> 'r world \<Rightarrow>
     (response + request_ctx) \<times> 'r world" where
  "charge_request R k uid cx p m w =
     (let cost = estimatedCost m (pq_prompt p) (pq_max_output p) (pq_units p) in
      if over_quota k cost
      then (Inl (writeOpenAIError 402 ''API Key quota exceeded'' ''invalid_request_error'' ''insufficient_quota''),
            logMiddlewareFailure cx 402 (pq_model p) ''billing_error'' ''key_quota_exceeded''
              (''API Key quota exceeded: used '' @ show_int (quota_used k) @ '' + estimated '' @ show_int cost @
               '' > limit '' @ show_int (coalesce0 (k_quota_limit k)) @ '' cents'') w)
      else case preDeduct R uid cost (m_billing_policy m) w of
             (Inl _, w1) \<Rightarrow>
               (Inl (writeOpenAIError 402 ''Insufficient balance'' ''invalid_request_error'' ''insufficient_quota''),
                logMiddlewareFailure cx 402 (pq_model p) ''billing_error'' ''insufficient_quota''
                  ''Insufficient balance'' w1)
           | (Inr d, w1) \<Rightarrow> (case new_uuid w1 of (rid, w2) \<Rightarrow> (Inr (charged_ctx cx p cost d rid), w2)))"

definition admit_request ::
  "'r redis_api \<Rightarrow> route \<Rightarrow> api_key_row \<Rightarrow> int \<Rightarrow> request_ctx \<Rightarrow> parsed_request \<Rightarrow> 'r world \<Rightarrow>
     (response + request_ctx) \<times> 'r world" where
  "admit_request R rt k uid cx p w =
     (let name = pq_model p in
      case getModel name w of
        (None, w1) \<Rightarrow>
          (Inl (writeOpenAIError 400 (''Unsupported model: '' @ name) ''invalid_request_error'' ''unsupported_model''),
           logMiddlewareFailure cx 400 name ''invalid_request_error'' ''unsupported_model''
             (''Unsupported model: '' @ name) w1)
      | (Some m, w1) \<Rightarrow>
          if \<not> modality_fits rt (m_modality m)
          then (Inl (writeOpenAIError 400 (''Model '' @ go_quote name @ '' is a '' @ m_modality m @
                  '' model and cannot be used on this endpoint'') ''invalid_request_error'' ''modality_mismatch''),
                logMiddlewareFailure cx 400 name ''invalid_request_error'' ''modality_mismatch''
                  (''Model '' @ name @ '' modality '' @ go_quote (m_modality m) @ '' does not match route type '' @
                   go_quote (pq_type p)) w1)
          else charge_request R k uid cx p m w1)"

text \<open>
  The stage. With request logs the payload is put into the context of \<open>r\<close>, but the next stage gets
  the context that was derived before that.
\<close>

definition authAndPreDeductMiddleware ::
  "'r redis_api \<Rightarrow> tokenizer \<Rightarrow> bool \<Rightarrow> 'r handler \<Rightarrow> 'r handler" where
  "authAndPreDeductMiddleware R tok logging next rq w =
     (let cx = (hr_ctx rq)\<lparr>cx_start := Some (w_now w)\<rparr>;
          header = header_get (hr_headers rq) ''Authorization'' in
      if \<not> has_prefix header ''Bearer ''
      then (writeOpenAIError 401 ''Missing or invalid token'' ''invalid_request_error'' ''invalid_api_key'', w)
      else case db_query (getUserByAPIKey (trim_prefix header ''Bearer '')) w of
        (None, w1) \<Rightarrow> (writeOpenAIError 401 ''Invalid API Key'' ''invalid_request_error'' ''invalid_api_key'', w1)
      | (Some (u, k), w1) \<Rightarrow>
          let cx = cx\<lparr>cx_user := Some (u_id u), cx_api_key := Some (k_id k),
                      cx_tier := Some (coalesce0 (u_tier u))\<rparr>;
              rt = route_of (hr_path rq) in
          if rt = OtherRoute then next (rq\<lparr>hr_ctx := cx\<lparr>cx_billing := Some False\<rparr>\<rparr>) w1
          else
            let cx = cx\<lparr>cx_billing := Some True\<rparr> in
            case read_request tok rt (hr_body rq) of
              Inl e \<Rightarrow> (e, w1)
            | Inr p \<Rightarrow>
                let rq1 = (if logging
                  then rq\<lparr>hr_ctx := (hr_ctx rq)\<lparr>cx_payload := Some (case hr_body rq of Body _ raw \<Rightarrow> raw | _ \<Rightarrow> NoBytes)\<rparr>\<rparr>
                  else rq) in
                case admit_request R rt k (u_id u) cx p w1 of
                  (Inl e, w2) \<Rightarrow> (e, w2)
                | (Inr cx', w2) \<Rightarrow> next (rq1\<lparr>hr_ctx := cx'\<rparr>) w2)"

section \<open>Calls between services\<close>

definition unauthorized :: response where
  "unauthorized = \<lparr>rs_status = 401, rs_headers = [(''content-type'', ''application/json; charset=utf-8'')],
     rs_body = JsonBytes (JObj [(''error'', JStr ''Unauthorized'')])\<rparr>"

definition internalTokenAuth :: "string \<Rightarrow> 'r handler \<Rightarrow> 'r handler" where
  "internalTokenAuth token next rq w =
     (if token = '''' \<or> header_get (hr_headers rq) ''Authorization'' \<noteq> ''Bearer '' @ token
      then (unauthorized, w) else next rq w)"

lemma internal_token_required:
  "fst (internalTokenAuth token next rq w) = fst (next rq w) \<or> internalTokenAuth token next rq w = (unauthorized, w)"
  "token = '''' \<Longrightarrow> internalTokenAuth token next rq w = (unauthorized, w)"
  by (simp_all add: internalTokenAuth_def)

section \<open>What reaches the next stage\<close>

text \<open>
  Nobody passes without an active key: when the token belongs to no active key of an active
  user, the answer is 401 whatever fails, no balance, table or queue changes, and the next stage is
  not called.
\<close>

lemma auth_needs_active_key:
  assumes "getUserByAPIKey (trim_prefix (header_get (hr_headers rq) ''Authorization'') ''Bearer '') (w_db w) = None"
  shows "\<exists>resp w'. (\<forall>nxt. authAndPreDeductMiddleware R tok logging nxt rq w = (resp, w')) \<and> rs_status resp = 401 \<and>
    w_redis w' = w_redis w \<and> w_db w' = w_db w \<and> w_queue w' = w_queue w"
proof (cases "has_prefix (header_get (hr_headers rq) ''Authorization'') ''Bearer ''")
  case True
  let ?q = "db_query (getUserByAPIKey (trim_prefix (header_get (hr_headers rq) ''Authorization'') ''Bearer '')) w"
  obtain a w' where q: "?q = (a, w')" by (cases ?q)
  then have "a = None \<and> w_redis w' = w_redis w \<and> w_db w' = w_db w \<and> w_queue w' = w_queue w"
    using assms by (auto simp: db_query_def db_call_def next_fault_eq split: fault.splits option.splits)
  with True q show ?thesis
    by (intro exI [of _ "writeOpenAIError 401 ''Invalid API Key'' ''invalid_request_error'' ''invalid_api_key''"]
        exI [of _ w']) (simp add: authAndPreDeductMiddleware_def Let_def writeOpenAIError_def)
qed (auto simp: authAndPreDeductMiddleware_def Let_def writeOpenAIError_def)

definition witness_key :: api_key_row where
  "witness_key = \<lparr>k_id = 5, k_name = ''default'', k_string = ''sk-1'', k_user = Some 7, k_tier = Some 0, k_quota_limit = Some 1000000,
     k_quota_used = Some 500, k_allowed_models = JNull, k_status = Some 1, k_created = None\<rparr>"

definition chat_http :: "string \<Rightarrow> http_request" where
  "chat_http token = \<lparr>hr_scheme = '''', hr_host = '''', hr_path = ''/v1/chat/completions'', hr_query = '''',
     hr_headers = [(''authorization'', ''Bearer '' @ token)],
     hr_body = Body 80 (JsonBytes (JObj [(''model'', JStr ''m1''), (''max_tokens'', JNum 100 0),
       (''messages'', JList [JObj [(''role'', JStr ''user''), (''content'', JStr ''hello'')]])])),
     hr_ctx = empty_ctx\<rparr>"

lemma auth_needs_active_key_witness:
  "\<exists>resp w'. rs_status resp = 401 \<and> (\<forall>nxt. authAndPreDeductMiddleware mem_redis (\<lambda>_. None) True nxt (chat_http ''sk-2'')
     (witness_world [] (empty_db\<lparr>users := [witness_user 7 (0, 0, 100)], api_keys := [witness_key]\<rparr>) [Lost]) = (resp, w'))"
proof -
  let ?w = "witness_world [] (empty_db\<lparr>users := [witness_user 7 (0, 0, 100)], api_keys := [witness_key]\<rparr>) [Lost]"
  have "trim_prefix (header_get (hr_headers (chat_http ''sk-2'')) ''Authorization'') ''Bearer '' = ''sk-2''"
    by code_simp
  then have "getUserByAPIKey (trim_prefix (header_get (hr_headers (chat_http ''sk-2'')) ''Authorization'') ''Bearer '')
      (w_db ?w) = None"
    by (simp add: getUserByAPIKey_def witness_key_def)
  from auth_needs_active_key [OF this] show ?thesis by blast
qed

lemma same_elsewhere_refl [simp]: "same_elsewhere R ks r r"
  by (simp add: same_elsewhere_def)

lemma log_keeps_balances:
  assumes "w_faults w = []" "w' = logMiddlewareFailure cx status model et ec msg w"
  shows "w_redis w' = w_redis w" "w_queue w' = w_queue w" "balances_before R uid w b \<Longrightarrow> balances_before R uid w' b"
  using assms
  by (auto simp: logMiddlewareFailure_def Let_def createModelFailureLog_def balances_before_def
      getUserBalances_def user_of_def split: option.splits if_splits)

lemma getModel_fine:
  assumes "w_faults w = []" "fst (getModel n w) = Some m"
  obtains f where "getModel n w = (Some m, w\<lparr>w_models := f\<rparr>)"
proof (cases "w_models w n")
  case None
  with assms that [of "(w_models w)(n \<mapsto> m)"] show thesis
    by (auto simp: getModel_def loadModel_def split: option.splits)
next
  case (Some a)
  with assms that [of "w_models w"] show thesis by (auto simp: getModel_def)
qed

lemma over_quota_iff:
  assumes "0 < cost" "exact cost" "0 \<le> quota_used k" "quota_used k < 2 ^ 62"
  shows "over_quota k cost \<longleftrightarrow> (case k_quota_limit k of None \<Rightarrow> False | Some l \<Rightarrow> 0 < l \<and> l < quota_used k + cost)"
  using assms by (auto simp: over_quota_def exact_def in_i64_def split: option.splits)

text \<open>The ways to be turned away once the model is known.\<close>

lemma admit_rejects:
  assumes "getModel (pq_model p) w = (Some m, w1)" "cost = estimatedCost m (pq_prompt p) (pq_max_output p) (pq_units p)"
    and "\<not> modality_fits rt (m_modality m) \<or> over_quota k cost \<or>
      preDeduct R uid cost (m_billing_policy m) w1 = (Inl e, w2)"
  shows "\<exists>resp s et ec msg v. admit_request R rt k uid cx p w =
      (Inl resp, logMiddlewareFailure cx s (pq_model p) et ec msg v) \<and> rs_status resp \<in> {400, 402} \<and>
      (v = w1 \<or> v = w2 \<and> preDeduct R uid cost (m_billing_policy m) w1 = (Inl e, w2))"
proof (cases "modality_fits rt (m_modality m)")
  case False
  with assms(1) show ?thesis by (fastforce simp: admit_request_def Let_def writeOpenAIError_def)
next
  case fits: True
  show ?thesis
  proof (cases "over_quota k cost")
    case True
    with fits assms(1,2) show ?thesis
      by (fastforce simp: admit_request_def charge_request_def Let_def writeOpenAIError_def)
  next
    case False
    then have "preDeduct R uid cost (m_billing_policy m) w1 = (Inl e, w2)" using assms(3) fits by simp
    with fits False assms(1,2) show ?thesis
      by (fastforce simp: admit_request_def charge_request_def Let_def writeOpenAIError_def)
  qed
qed

text \<open>
  The decision once the model is known: the pools cover the estimate, the quota of the key allows it, and
  the model serves the route; or the request is turned away and the balances stay.
\<close>

definition admissible :: "route \<Rightarrow> api_key_row \<Rightarrow> model_row \<Rightarrow> int \<Rightarrow> int \<times> int \<times> int \<Rightarrow> bool" where
  "admissible rt k m cost b \<longleftrightarrow> modality_fits rt (m_modality m) \<and>
     (case k_quota_limit k of None \<Rightarrow> True | Some l \<Rightarrow> l \<le> 0 \<or> quota_used k + cost \<le> l) \<and>
     cost \<le> sum_list (usable (m_billing_policy m) b)"

lemma admit_charges:
  assumes "redis_server R" "w_faults w = []" "fst (getModel (pq_model p) w) = Some m"
    and "cost = estimatedCost m (pq_prompt p) (pq_max_output p) (pq_units p)" "0 < cost" "exact cost"
    and "balances_before R uid w b" "exact_pools b" "0 \<le> quota_used k" "quota_used k < 2 ^ 62"
    and "admissible rt k m cost b" and d: "d = deduction_of (waterfall cost (usable (m_billing_policy m) b))"
  obtains rid w' where "admit_request R rt k uid cx p w = (Inr (charged_ctx cx p cost d rid), w')"
    and "w_queue w' = w_queue w" "w_db w' = w_db w" "same_elsewhere R (balanceKeys3 uid) (w_redis w) (w_redis w')"
    and "deduction_total d = cost"
    and "pools_are R (balanceKeys3 uid) (w_redis w') (fst b - d_sub d, fst (snd b) - d_grant d, snd (snd b) - d_cash d)"
proof -
  obtain f where g: "getModel (pq_model p) w = (Some m, w\<lparr>w_models := f\<rparr>)" by (rule getModel_fine [OF assms(2,3)])
  let ?w1 = "w\<lparr>w_models := f\<rparr>"
  have b1: "balances_before R uid ?w1 b" using assms(7) by (simp add: balances_before_def)
  have pays: "cost \<le> sum_list (usable (m_billing_policy m) b)" "\<not> over_quota k cost" "modality_fits rt (m_modality m)"
    using assms(11) over_quota_iff [OF assms(5,6,9,10)] by (auto simp: admissible_def split: option.splits)
  have is_d: "deduction_of (drawn (m_billing_policy m) b cost) = d" by (simp add: d drawn_def)
  obtain r where pd: "preDeduct R uid cost (m_billing_policy m) ?w1 = (Inr d, ?w1\<lparr>w_redis := r\<rparr>)"
    and pools: "pools_are R (balanceKeys3 uid) r (minus_pools b (drawn (m_billing_policy m) b cost))"
    and same: "same_elsewhere R (balanceKeys3 uid) (w_redis w) r"
    using preDeduct_outcome [OF assms(1) _ b1 assms(8,6), of "m_billing_policy m"] assms(2) pays(1) is_d by auto
  obtain rid w2 where u: "new_uuid (?w1\<lparr>w_redis := r\<rparr>) = (rid, w2)" by fastforce
  have w2: "w_redis w2 = r" "w_db w2 = w_db w" "w_queue w2 = w_queue w" using new_uuid_frame [OF u] by simp_all
  show thesis
  proof (rule that [of rid w2])
    show "admit_request R rt k uid cx p w = (Inr (charged_ctx cx p cost d rid), w2)"
      using g pays pd u assms(4) by (simp add: admit_request_def charge_request_def Let_def)
    show "deduction_total d = cost"
      using drawn_total [of cost "m_billing_policy m" b] assms(5,6) pays(1) is_d by simp
    show "pools_are R (balanceKeys3 uid) (w_redis w2) (fst b - d_sub d, fst (snd b) - d_grant d, snd (snd b) - d_cash d)"
      using pools w2(1) is_d by (cases b) (auto simp: minus_pools_def deduction_of_def)
  qed (use w2 same in simp_all)
qed

lemma admit_turns_away:
  assumes "redis_server R" "w_faults w = []" "fst (getModel (pq_model p) w) = Some m"
    and "cost = estimatedCost m (pq_prompt p) (pq_max_output p) (pq_units p)" "0 < cost" "exact cost"
    and "balances_before R uid w b" "exact_pools b" "0 \<le> quota_used k" "quota_used k < 2 ^ 62"
    and "\<not> admissible rt k m cost b"
  obtains resp w' where "admit_request R rt k uid cx p w = (Inl resp, w')" and "rs_status resp \<in> {400, 402}"
    and "w_queue w' = w_queue w" "same_elsewhere R (balanceKeys3 uid) (w_redis w) (w_redis w')"
    and "balances_before R uid w' b"
proof -
  obtain f where g: "getModel (pq_model p) w = (Some m, w\<lparr>w_models := f\<rparr>)" by (rule getModel_fine [OF assms(2,3)])
  let ?w1 = "w\<lparr>w_models := f\<rparr>" and ?pays = "cost \<le> sum_list (usable (m_billing_policy m) b)"
  have b1: "balances_before R uid ?w1 b" using assms(7) by (simp add: balances_before_def)
  obtain r where pd: "\<not> ?pays \<longrightarrow> preDeduct R uid cost (m_billing_policy m) ?w1 =
      (Inl InsufficientBalance, ?w1\<lparr>w_redis := r\<rparr>)"
    and pools: "\<not> ?pays \<longrightarrow> pools_are R (balanceKeys3 uid) r b"
    and same: "same_elsewhere R (balanceKeys3 uid) (w_redis w) r"
  proof (cases ?pays)
    case True
    with that [of "w_redis w"] show thesis by simp
  next
    case False
    with that show thesis
      using preDeduct_outcome [OF assms(1) _ b1 assms(8,6), of "m_billing_policy m"] assms(2) by auto
  qed
  have "\<not> modality_fits rt (m_modality m) \<or> over_quota k cost \<or> \<not> ?pays"
    using assms(11) over_quota_iff [OF assms(5,6,9,10)] by (auto simp: admissible_def split: option.splits)
  then obtain resp s et ec msg v where out: "admit_request R rt k uid cx p w =
      (Inl resp, logMiddlewareFailure cx s (pq_model p) et ec msg v)" "rs_status resp \<in> {400, 402}"
    and v: "v = ?w1 \<or> v = ?w1\<lparr>w_redis := r\<rparr> \<and> \<not> ?pays"
  proof (cases "modality_fits rt (m_modality m) \<and> \<not> over_quota k cost")
    case True
    with \<open>_ \<or> _ \<or> \<not> ?pays\<close> have "\<not> ?pays" by simp
    with that show thesis using admit_rejects [OF g assms(4), of rt k R uid InsufficientBalance "?w1\<lparr>w_redis := r\<rparr>" cx] pd
      by auto
  next
    case False
    with that show thesis using admit_rejects [OF g assms(4), of rt k R uid InsufficientBalance ?w1 cx] by auto
  qed
  have "w_faults v = []" "balances_before R uid v b" "same_elsewhere R (balanceKeys3 uid) (w_redis w) (w_redis v)"
    "w_queue v = w_queue w"
    using v b1 pools assms(2) same by (auto simp: balances_before_def)
  then show thesis
    using that [OF out(1,2)] log_keeps_balances [of v "logMiddlewareFailure cx s (pq_model p) et ec msg v"] by simp
qed

text \<open>Up to there the stage changes nothing.\<close>

lemma auth_is_admit:
  assumes "w_faults w = []" "has_prefix (header_get (hr_headers rq) ''Authorization'') ''Bearer ''"
    and "getUserByAPIKey (trim_prefix (header_get (hr_headers rq) ''Authorization'') ''Bearer '') (w_db w) = Some (u, k)"
    and "route_of (hr_path rq) \<noteq> OtherRoute" "read_request tok (route_of (hr_path rq)) (hr_body rq) = Inr p"
  shows "authAndPreDeductMiddleware R tok logging nxt rq w =
    (case admit_request R (route_of (hr_path rq)) k (u_id u) ((hr_ctx rq)\<lparr>cx_start := Some (w_now w),
        cx_user := Some (u_id u), cx_api_key := Some (k_id k), cx_tier := Some (coalesce0 (u_tier u)),
        cx_billing := Some True\<rparr>) p w of
       (Inl e, w2) \<Rightarrow> (e, w2) | (Inr cx', w2) \<Rightarrow> nxt (rq\<lparr>hr_ctx := cx'\<rparr>) w2)"
  using assms by (auto simp: authAndPreDeductMiddleware_def Let_def split: prod.splits sum.splits)

text \<open>
  C26. Nothing is sent upstream before it is paid for. A billing request of an active key goes on to
  the next stage exactly when the model serves the route, the quota of the key allows the estimate,
  and the pools that the billing policy admits cover it. Then the estimate has been taken from these
  pools in order and the context carries it, in total and per pool; otherwise the request is
  answered with 400 or 402 and the balances are as they were.
\<close>

theorem auth_charges_before_next:
  assumes "redis_server R" "w_faults w = []"
    and "has_prefix (header_get (hr_headers rq) ''Authorization'') ''Bearer ''"
    and "getUserByAPIKey (trim_prefix (header_get (hr_headers rq) ''Authorization'') ''Bearer '') (w_db w) = Some (u, k)"
    and "route_of (hr_path rq) \<noteq> OtherRoute" "read_request tok (route_of (hr_path rq)) (hr_body rq) = Inr p"
    and "fst (getModel (pq_model p) w) = Some m"
    and "cost = estimatedCost m (pq_prompt p) (pq_max_output p) (pq_units p)" "0 < cost" "exact cost"
    and "balances_before R (u_id u) w b" "exact_pools b" "0 \<le> quota_used k" "quota_used k < 2 ^ 62"
  shows "\<exists>w'. w_queue w' = w_queue w \<and>
    same_elsewhere R (balanceKeys3 (u_id u)) (w_redis w) (w_redis w') \<and>
    (if modality_fits (route_of (hr_path rq)) (m_modality m) \<and>
        (case k_quota_limit k of None \<Rightarrow> True | Some l \<Rightarrow> l \<le> 0 \<or> quota_used k + cost \<le> l) \<and>
        cost \<le> sum_list (usable (m_billing_policy m) b)
     then \<exists>cx d. (\<forall>nxt. authAndPreDeductMiddleware R tok logging nxt rq w = nxt (rq\<lparr>hr_ctx := cx\<rparr>) w') \<and>
        d = deduction_of (waterfall cost (usable (m_billing_policy m) b)) \<and> deduction_total d = cost \<and>
        pools_are R (balanceKeys3 (u_id u)) (w_redis w')
          (fst b - d_sub d, fst (snd b) - d_grant d, snd (snd b) - d_cash d) \<and>
        cx_user cx = Some (u_id u) \<and> cx_model cx = Some (pq_model p) \<and> cx_pre_deducted cx = Some cost \<and>
        cx_sub cx = Some (d_sub d) \<and> cx_grant cx = Some (d_grant d) \<and> cx_cash cx = Some (d_cash d) \<and>
        w_db w' = w_db w
     else \<exists>resp. (\<forall>nxt. authAndPreDeductMiddleware R tok logging nxt rq w = (resp, w')) \<and>
        rs_status resp \<in> {400, 402} \<and> balances_before R (u_id u) w' b)" (is "\<exists>w'. ?common w' \<and> ?same w' \<and> (if ?go then ?pass w' else ?reject w')")
proof -
  let ?rt = "route_of (hr_path rq)" and ?d = "deduction_of (waterfall cost (usable (m_billing_policy m) b))"
  let ?cx = "(hr_ctx rq)\<lparr>cx_start := Some (w_now w), cx_user := Some (u_id u), cx_api_key := Some (k_id k),
      cx_tier := Some (coalesce0 (u_tier u)), cx_billing := Some True\<rparr>"
  note stage = auth_is_admit [OF assms(2-6)]
  have go: "?go \<longleftrightarrow> admissible ?rt k m cost b" by (simp add: admissible_def)
  show ?thesis
  proof (cases "admissible ?rt k m cost b")
    case True
    obtain rid w' where a: "admit_request R ?rt k (u_id u) ?cx p w = (Inr (charged_ctx ?cx p cost ?d rid), w')"
      and w': "w_queue w' = w_queue w" "w_db w' = w_db w" "?same w'" and total: "deduction_total ?d = cost"
      and taken: "pools_are R (balanceKeys3 (u_id u)) (w_redis w')
        (fst b - d_sub ?d, fst (snd b) - d_grant ?d, snd (snd b) - d_cash ?d)"
      by (rule admit_charges [OF assms(1,2,7-14) True refl])
    have "?pass w'"
      by (intro exI [of _ "charged_ctx ?cx p cost ?d rid"] exI [of _ ?d])
        (use a total taken w'(2) in \<open>simp add: stage charged_ctx_def\<close>)
    with True go w' show ?thesis by (intro exI [of _ w'] conjI) (simp_all only: if_True)
  next
    case False
    obtain resp w' where "admit_request R ?rt k (u_id u) ?cx p w = (Inl resp, w')" "rs_status resp \<in> {400, 402}"
      and w': "w_queue w' = w_queue w" "?same w'" "balances_before R (u_id u) w' b"
      by (rule admit_turns_away [OF assms(1,2,7-14) False])
    then have "?reject w'" by (simp add: stage)
    with False go w' show ?thesis by (intro exI [of _ w'] conjI) (simp_all only: if_False)
  qed
qed

definition witness_auth_world :: "keyspace world" where
  "witness_auth_world = witness_world (cached 7 (30000, 0, 300000))
     (empty_db\<lparr>users := [witness_user 7 (30000, 0, 300000)], api_keys := [witness_key], models := [witness_model]\<rparr>) []"

definition length_tokenizer :: tokenizer where
  "length_tokenizer model = Some (\<lambda>s. int (length s))"

definition witness_parsed :: parsed_request where
  "witness_parsed = \<lparr>pq_model = ''m1'', pq_prompt = 15, pq_max_output = 100, pq_type = ''chat'', pq_units = 1\<rparr>"

text \<open>What the stage finds out about this request.\<close>

lemma witness_request:
  "has_prefix (header_get (hr_headers (chat_http ''sk-1'')) ''Authorization'') ''Bearer ''"
  "trim_prefix (header_get (hr_headers (chat_http ''sk-1'')) ''Authorization'') ''Bearer '' = ''sk-1''"
  "route_of (hr_path (chat_http ''sk-1'')) = ChatRoute"
  "read_request length_tokenizer ChatRoute (hr_body (chat_http ''sk-1'')) = Inr witness_parsed"
  by code_simp+

lemma witness_account:
  "getUserByAPIKey ''sk-1'' (w_db witness_auth_world) = Some (witness_user 7 (30000, 0, 300000), witness_key)"
  "fst (getModel ''m1'' witness_auth_world) = Some witness_model"
  "estimatedCost witness_model 15 100 1 = 231750"
  "balances_before mem_redis 7 witness_auth_world (30000, 0, 300000)" "w_faults witness_auth_world = []"
  "admissible ChatRoute witness_key witness_model 231750 (30000, 0, 300000)"
  by (simp_all add: getUserByAPIKey_def witness_auth_world_def witness_key_def witness_user_def getModel_def loadModel_def
      getModelByName_def witness_model_def estimatedCost_def applyMultiplier_def wrap64_def quot_def f64_of_int_def
      Let_def in_i64_def balances_before_def admissible_def modality_fits_def quota_used_def usable_def)

theorem auth_charges_before_next_witness:
  "\<exists>w' cx. (\<forall>nxt. authAndPreDeductMiddleware mem_redis length_tokenizer True nxt (chat_http ''sk-1'') witness_auth_world =
      nxt ((chat_http ''sk-1'')\<lparr>hr_ctx := cx\<rparr>) w') \<and>
    cx_pre_deducted cx = Some 231750 \<and> cx_sub cx = Some 30000 \<and> cx_cash cx = Some 201750 \<and>
    pools_are mem_redis (balanceKeys3 7) (w_redis w') (0, 0, 98250)"
proof -
  let ?rq = "chat_http ''sk-1''" and ?w = witness_auth_world
  note h = witness_request and a = witness_account
  have m: "fst (getModel (pq_model witness_parsed) ?w) = Some witness_model" by (simp add: witness_parsed_def a)
  have c: "231750 = estimatedCost witness_model (pq_prompt witness_parsed) (pq_max_output witness_parsed)
      (pq_units witness_parsed)" by (simp add: witness_parsed_def a)
  have u: "u_id (witness_user 7 (30000, 0, 300000)) = 7" by (simp add: witness_user_def)
  have q: "quota_used witness_key = 500" "k_quota_limit witness_key = Some 1000000"
    by (simp_all add: quota_used_def witness_key_def)
  have mm: "m_billing_policy witness_model = ''all''" by (simp add: witness_model_def)
  have wf: "waterfall 231750 (usable ''all'' (30000, 0, 300000)) = [30000, 0, 201750]" by code_simp
  have e: "exact 231750" "exact_pools (30000, 0, 300000)" by (simp_all add: exact_def exact_pools_def)
  obtain w' cx d where out: "\<forall>nxt. authAndPreDeductMiddleware mem_redis length_tokenizer True nxt ?rq ?w = nxt (?rq\<lparr>hr_ctx := cx\<rparr>) w'"
      "d = deduction_of (waterfall 231750 (usable ''all'' (30000, 0, 300000)))"
      "pools_are mem_redis (balanceKeys3 7) (w_redis w') (30000 - d_sub d, 0 - d_grant d, 300000 - d_cash d)"
      "cx_pre_deducted cx = Some 231750" "cx_sub cx = Some (d_sub d)" "cx_cash cx = Some (d_cash d)"
    using auth_charges_before_next [OF mem.redis_server_axioms a(5) h(1), unfolded h, OF a(1) _ h(4), OF _ m c,
      unfolded u mm q, of "(30000, 0, 300000)" True] a(4,6) e
    by (auto simp: admissible_def mm q)
  have "d = \<lparr>d_sub = 30000, d_grant = 0, d_cash = 201750\<rparr>" unfolding out(2) wf by (simp add: deduction_of_def)
  with out(1,3-6) show ?thesis by (intro exI [of _ w'] exI [of _ cx]) simp
qed

end
