(* ===== verification/Adapters.thy ===== *)
theory Adapters
  imports Auth
begin

text \<open>
  The request adapters of internal/provider/openai, anthropic and gemini: what they make of an
  OpenAI request before it goes upstream, and of an event of the answer's stream. The network is the
  one of theory Media; \<open>sz\<close> is the length of the text of a JSON value, which the adapters
  write into the request's length.
\<close>

section \<open>Rewriting the request\<close>

text \<open>An error, or a panic: reading a body that is nil, assigning to a nil map.\<close>

datatype rewrite_error = RewriteFails | RewritePanics

definition with_body :: "(json \<Rightarrow> int) \<Rightarrow> json \<Rightarrow> http_request \<Rightarrow> http_request" where
  "with_body sz j rq = rq\<lparr>hr_body := Body (sz j) (JsonBytes j),
     hr_headers := header_set ''Content-Length'' (show_int (sz j)) (hr_headers rq)\<rparr>"

definition openai_rewrite :: "(json \<Rightarrow> int) \<Rightarrow> string \<Rightarrow> http_request \<Rightarrow> rewrite_error + http_request" where
  "openai_rewrite sz model rq =
     (if hr_body rq = NilBody \<or> model = '''' then Inr rq
      else case hr_body rq of
        Body len raw \<Rightarrow>
          (case rewriteRequestBodyModel raw model of
             Inl NilMapPanic \<Rightarrow> Inl RewritePanics
           | Inl DecodeError \<Rightarrow> Inl RewriteFails
           | Inr (JsonBytes j) \<Rightarrow>
               if trim_space model = ''''
               then Inr (rq\<lparr>hr_headers := header_set ''Content-Length'' (show_int len) (hr_headers rq)\<rparr>)
               else Inr (with_body sz j rq)
           | Inr _ \<Rightarrow> Inr (rq\<lparr>hr_headers := header_set ''Content-Length'' (show_int len) (hr_headers rq)\<rparr>))
      | _ \<Rightarrow> Inl RewriteFails)"

text \<open>Reading and decoding the chat request, as the two translating adapters begin.\<close>

definition chat_of :: "http_request \<Rightarrow> rewrite_error + chat_request" where
  "chat_of rq = (case hr_body rq of
      NilBody \<Rightarrow> Inl RewritePanics
    | BrokenBody \<Rightarrow> Inl RewriteFails
    | Body len raw \<Rightarrow> (case parseChatCompletionRequest raw of None \<Rightarrow> Inl RewriteFails | Some r \<Rightarrow> Inr r))"

definition newline :: string where
  "newline = [char_of (10::nat)]"

text \<open>A nil slice is written as null.\<close>

definition slice :: "json list \<Rightarrow> json" where
  "slice xs = (if xs = [] then JNull else JList xs)"

fun anthropic_part :: "network \<Rightarrow> message_part \<Rightarrow> json option" where
  "anthropic_part net (TextPart t) = Some (JObj [(''text'', JStr t), (''type'', JStr ''text'')])"
| "anthropic_part net (ImagePart i) =
     map_option (\<lambda>r. JObj [(''source'', JObj [(''data'', JStr (rm_base64 r)), (''media_type'', JStr (rm_mime r)),
         (''type'', JStr ''base64'')]), (''type'', JStr ''image'')])
       (resolveMediaInput net i)"

fun part_text :: "message_part \<Rightarrow> string" where
  "part_text (TextPart t) = t"
| "part_text (ImagePart i) = ''''"

definition system_text :: "message_part list \<Rightarrow> string" where
  "system_text parts = concat (map (\<lambda>p. if part_text p = '''' then '''' else part_text p @ newline) parts)"

text \<open>The system prompt and the messages that are not system messages.\<close>

fun anthropic_messages :: "network \<Rightarrow> chat_message list \<Rightarrow> (string \<times> json list) option" where
  "anthropic_messages net [] = Some ('''', [])"
| "anthropic_messages net (m # ms) =
     (case normalizeMessageParts (msg_content m) of
        None \<Rightarrow> None
      | Some parts \<Rightarrow>
          if msg_role m = ''system''
          then map_option (\<lambda>(s, js). (system_text parts @ s, js)) (anthropic_messages net ms)
          else (case those (map (anthropic_part net) parts) of
                  None \<Rightarrow> None
                | Some cs \<Rightarrow>
                    map_option (\<lambda>(s, js). (s, JObj [(''content'', slice cs), (''role'', JStr (msg_role m))] # js))
                      (anthropic_messages net ms)))"

definition optional :: "string \<Rightarrow> 'a option \<Rightarrow> ('a \<Rightarrow> json) \<Rightarrow> (string \<times> json) list" where
  "optional k v f = (case v of None \<Rightarrow> [] | Some x \<Rightarrow> [(k, f x)])"

definition anthropic_body :: "string \<Rightarrow> chat_request \<Rightarrow> string \<Rightarrow> json list \<Rightarrow> json" where
  "anthropic_body model r system msgs = JObj
     ([(''max_tokens'', JNum (if cr_max_tokens r = 0 then 8192 else cr_max_tokens r) 0),
       (''messages'', slice msgs), (''model'', JStr model), (''stream'', JBool (cr_stream r))] @
      (if system = '''' then [] else [(''system'', JStr system)]) @
      optional ''temperature'' (cr_temperature r) f64_json @ optional ''top_p'' (cr_top_p r) f64_json)"

definition anthropic_rewrite ::
  "network \<Rightarrow> (json \<Rightarrow> int) \<Rightarrow> string \<Rightarrow> http_request \<Rightarrow> rewrite_error + http_request" where
  "anthropic_rewrite net sz model rq =
     (case chat_of rq of
        Inl e \<Rightarrow> Inl e
      | Inr r \<Rightarrow>
          (case anthropic_messages net (cr_messages r) of
             None \<Rightarrow> Inl RewriteFails
           | Some (system, msgs) \<Rightarrow>
               Inr (with_body sz (anthropic_body model r system msgs)
                 (rq\<lparr>hr_path := ''/v1/messages'',
                     hr_headers := header_set ''Anthropic-Version'' ''2023-06-01'' (hr_headers rq)\<rparr>))))"

fun gemini_part :: "network \<Rightarrow> message_part \<Rightarrow> json option" where
  "gemini_part net (TextPart t) = Some (JObj [(''text'', JStr t)])"
| "gemini_part net (ImagePart i) =
     map_option (\<lambda>r. JObj [(''inline_data'', JObj [(''data'', JStr (rm_base64 r)), (''mime_type'', JStr (rm_mime r))])])
       (resolveMediaInput net i)"

definition gemini_texts :: "message_part list \<Rightarrow> json list" where
  "gemini_texts parts = map (\<lambda>p. JObj [(''text'', JStr (part_text p))]) (filter (\<lambda>p. part_text p \<noteq> '''') parts)"

text \<open>The last system message with a text wins.\<close>

fun gemini_contents :: "network \<Rightarrow> chat_message list \<Rightarrow> json option \<Rightarrow> (json option \<times> json list) option" where
  "gemini_contents net [] sys = Some (sys, [])"
| "gemini_contents net (m # ms) sys =
     (case normalizeMessageParts (msg_content m) of
        None \<Rightarrow> None
      | Some parts \<Rightarrow>
          if msg_role m = ''system''
          then gemini_contents net ms
                 (if gemini_texts parts = [] then sys else Some (JObj [(''parts'', JList (gemini_texts parts))]))
          else (case those (map (gemini_part net) parts) of
                  None \<Rightarrow> None
                | Some ps \<Rightarrow>
                    map_option (\<lambda>(s, js). (s, JObj [(''parts'', slice ps),
                        (''role'', JStr (if msg_role m = ''assistant'' then ''model'' else msg_role m))] # js))
                      (gemini_contents net ms sys)))"

definition gemini_body :: "chat_request \<Rightarrow> json option \<Rightarrow> json list \<Rightarrow> json" where
  "gemini_body r sys contents =
     (let config = (if 0 < cr_max_tokens r then [(''max_output_tokens'', JNum (cr_max_tokens r) 0)] else []) @
                   optional ''temperature'' (cr_temperature r) f64_json
      in JObj ([(''contents'', slice contents)] @
               (if config = [] then [] else [(''generationConfig'', JObj config)]) @
               optional ''system_instruction'' sys (\<lambda>j. j)))"

definition gemini_rewrite ::
  "network \<Rightarrow> (json \<Rightarrow> int) \<Rightarrow> string \<Rightarrow> http_request \<Rightarrow> rewrite_error + http_request" where
  "gemini_rewrite net sz model rq =
     (case chat_of rq of
        Inl e \<Rightarrow> Inl e
      | Inr r \<Rightarrow>
          (case gemini_contents net (cr_messages r) None of
             None \<Rightarrow> Inl RewriteFails
           | Some (sys, contents) \<Rightarrow>
               Inr (with_body sz (gemini_body r sys contents)
                 (rq\<lparr>hr_path := ''/v1beta/models/'' @ model @
                       (if cr_stream r then '':streamGenerateContent'' else '':generateContent''),
                     hr_query := (if cr_stream r then ''alt=sse'' else hr_query rq)\<rparr>))))"

text \<open>A provider without a request adapter would be a nil dereference.\<close>

definition rewriteRequest ::
  "network \<Rightarrow> (json \<Rightarrow> int) \<Rightarrow> request_adapter option \<Rightarrow> string \<Rightarrow> http_request \<Rightarrow> rewrite_error + http_request" where
  "rewriteRequest net sz adapter model rq =
     (case adapter of
        None \<Rightarrow> Inl RewritePanics
      | Some OpenAIAdapter \<Rightarrow> openai_rewrite sz model rq
      | Some AnthropicAdapter \<Rightarrow> anthropic_rewrite net sz model rq
      | Some GeminiAdapter \<Rightarrow> gemini_rewrite net sz model rq)"

section \<open>Events of a stream\<close>

text \<open>A chunk in the format of OpenAI, with its keys in order; \<open>None\<close> is an error, \<open>NoBytes\<close> no event.\<close>

definition sse_chunk :: "int \<Rightarrow> string \<Rightarrow> (string \<times> json) list \<Rightarrow> bool \<Rightarrow> json option \<Rightarrow> raw_bytes" where
  "sse_chunk now model delta finished usage = JsonBytes (JObj
     ([(''choices'', JList [JObj ([(''delta'', JObj delta)] @
          (if finished then [(''finish_reason'', JStr ''stop'')] else []) @ [(''index'', JNum 0 0)])]),
       (''created'', JNum (quot now 1000000000) 0), (''id'', JStr (''chatcmpl-'' @ show_int now)),
       (''model'', JStr model), (''object'', JStr ''chat.completion.chunk'')] @
      optional ''usage'' usage (\<lambda>u. JObj [(''completion_tokens'', u)])))"

definition anthropic_event :: "int \<Rightarrow> raw_bytes \<Rightarrow> raw_bytes option" where
  "anthropic_event now event =
     (if event = NoBytes then Some NoBytes
      else case decode_map event of
        Inl _ \<Rightarrow> None
      | Inr decoded \<Rightarrow>
          let m = (case decoded of None \<Rightarrow> [] | Some kvs \<Rightarrow> kvs); t = string_member m ''type'' in
          if t = ''message_start'' then Some (sse_chunk now ''claude'' [(''role'', JStr ''assistant'')] False None)
          else if t = ''content_block_delta'' then
            Some (case as_object (obj_get m ''delta'') of
                    None \<Rightarrow> NoBytes
                  | Some delta \<Rightarrow>
                      (case as_string (obj_get delta ''text'') of
                         None \<Rightarrow> NoBytes
                       | Some s \<Rightarrow> sse_chunk now ''claude'' [(''content'', JStr s)] False None))
          else if t = ''message_stop'' then Some (sse_chunk now ''claude'' [] True None)
          else if t = ''message_delta'' then
            Some (case as_object (obj_get m ''usage'') of
                    None \<Rightarrow> NoBytes
                  | Some usage \<Rightarrow>
                      sse_chunk now ''claude'' [] False
                        (Some (case obj_get usage ''output_tokens'' of None \<Rightarrow> JNull | Some v \<Rightarrow> v)))
          else Some NoBytes)"

text \<open>What the Gemini adapter decodes of an event: the candidates and the token count.\<close>

record gemini_candidate =
  gc_texts :: "string list"
  gc_finish :: string

fun gemini_text :: "json \<Rightarrow> string option" where
  "gemini_text (JObj kvs) = str_field kvs ''text''"
| "gemini_text _ = None"

fun gemini_content :: "json \<Rightarrow> string list option" where
  "gemini_content (JObj kvs) = list_field gemini_text '''' kvs ''parts''"
| "gemini_content _ = None"

fun decode_candidate :: "json \<Rightarrow> gemini_candidate option" where
  "decode_candidate (JObj kvs) =
     (case (read_into gemini_content [] (matching kvs ''content''), str_field kvs ''finishReason'') of
        (Some ts, Some f) \<Rightarrow> Some \<lparr>gc_texts = ts, gc_finish = f\<rparr>
      | _ \<Rightarrow> None)"
| "decode_candidate _ = None"

fun gemini_usage :: "json \<Rightarrow> int option" where
  "gemini_usage (JObj kvs) = int_field kvs ''candidatesTokenCount''"
| "gemini_usage _ = None"

definition gemini_event :: "int \<Rightarrow> raw_bytes \<Rightarrow> raw_bytes option" where
  "gemini_event now event = Some
     (case struct_members event of
        None \<Rightarrow> NoBytes
      | Some kvs \<Rightarrow>
          (case (list_field decode_candidate \<lparr>gc_texts = [], gc_finish = ''''\<rparr> kvs ''candidates'',
                 read_into gemini_usage 0 (matching kvs ''usageMetadata'')) of
             (Some (c # cs), Some tokens) \<Rightarrow>
               sse_chunk now ''gemini''
                 [(''content'', JStr (case gc_texts c of [] \<Rightarrow> '''' | t # ts \<Rightarrow> t))]
                 (gc_finish c \<noteq> '''') (if 0 < tokens then Some (JNum tokens 0) else None)
           | _ \<Rightarrow> NoBytes))"

definition transformSSEEvent :: "int \<Rightarrow> request_adapter \<Rightarrow> raw_bytes \<Rightarrow> raw_bytes option" where
  "transformSSEEvent now adapter event =
     (case adapter of
        OpenAIAdapter \<Rightarrow> Some event
      | AnthropicAdapter \<Rightarrow> anthropic_event now event
      | GeminiAdapter \<Rightarrow> gemini_event now event)"

end
