(* ===== verification/JsonText.thy ===== *)
theory JsonText
  imports Json
begin

text \<open>
  The text of a JSON value, as encoding/json reads it: a recursive-descent parser with fuel. Any
  two calls consume a character, so twice the length of the text and one more is enough fuel, which
  \<open>parse_fuel\<close> shows. The nesting limit of the library and its replacement of bytes that are not
  UTF-8 are left out.
\<close>

section \<open>Tokens\<close>

definition code :: "char \<Rightarrow> nat" where
  "code c = of_char c"

definition json_space :: "char \<Rightarrow> bool" where
  "json_space c \<longleftrightarrow> code c = 32 \<or> code c = 9 \<or> code c = 10 \<or> code c = 13"

definition skip_ws :: "string \<Rightarrow> string" where
  "skip_ws s = dropWhile json_space s"

definition is_digit :: "char \<Rightarrow> bool" where
  "is_digit c \<longleftrightarrow> digit_val c \<noteq> None"

fun digits_val :: "nat \<Rightarrow> string \<Rightarrow> nat" where
  "digits_val n [] = n"
| "digits_val n (c # s) = digits_val (10 * n + (case digit_val c of None \<Rightarrow> 0 | Some d \<Rightarrow> d)) s"

text \<open>A number; a literal with a point or an exponent never gets the exponent 0 of an integer.\<close>

definition parse_fraction :: "string \<Rightarrow> (string \<times> string) option" where
  "parse_fraction s = (case s of
      c # s' \<Rightarrow> if c = CHR ''.'' then (if takeWhile is_digit s' = [] then None
                   else Some (takeWhile is_digit s', dropWhile is_digit s')) else Some ([], s)
    | [] \<Rightarrow> Some ([], s))"

definition parse_exponent :: "string \<Rightarrow> (int option \<times> string) option" where
  "parse_exponent s = (case s of
      c # s' \<Rightarrow>
        if c = CHR ''e'' \<or> c = CHR ''E'' then
          (let neg = (case s' of d # _ \<Rightarrow> d = CHR ''-'' | [] \<Rightarrow> False);
               r = (case s' of d # t \<Rightarrow> if d = CHR ''-'' \<or> d = CHR ''+'' then t else s' | [] \<Rightarrow> s');
               ds = takeWhile is_digit r
           in if ds = [] then None
              else Some (Some ((if neg then - 1 else 1) * int (digits_val 0 ds)), dropWhile is_digit r))
        else Some (None, s)
    | [] \<Rightarrow> Some (None, s))"

definition number_value :: "bool \<Rightarrow> string \<Rightarrow> string \<Rightarrow> int option \<Rightarrow> json" where
  "number_value neg ds fs ex =
     (let d = (if neg then - 1 else 1) * int (digits_val 0 (ds @ fs));
          e = (case ex of None \<Rightarrow> 0 | Some x \<Rightarrow> x) - int (length fs)
      in if e = 0 \<and> (fs \<noteq> [] \<or> ex \<noteq> None) then JNum (d * 10) (- 1) else JNum d e)"

definition parse_number :: "string \<Rightarrow> (json \<times> string) option" where
  "parse_number s =
     (let neg = (case s of c # _ \<Rightarrow> c = CHR ''-'' | [] \<Rightarrow> False);
          u = (case s of c # t \<Rightarrow> if c = CHR ''-'' then t else s | [] \<Rightarrow> s);
          ds = (case u of c # _ \<Rightarrow> if c = CHR ''0'' then [c] else takeWhile is_digit u | [] \<Rightarrow> [])
      in if ds = [] then None
         else case parse_fraction (drop (length ds) u) of
           None \<Rightarrow> None
         | Some (fs, r) \<Rightarrow>
             (case parse_exponent r of
                None \<Rightarrow> None
              | Some (ex, r') \<Rightarrow> Some (number_value neg ds fs ex, r')))"

definition hex_val :: "char \<Rightarrow> nat option" where
  "hex_val c =
     (let n = code c in
      if 48 \<le> n \<and> n \<le> 57 then Some (n - 48)
      else if 97 \<le> n \<and> n \<le> 102 then Some (n - 87)
      else if 65 \<le> n \<and> n \<le> 70 then Some (n - 55) else None)"

definition hex4 :: "string \<Rightarrow> nat option" where
  "hex4 s = (case map hex_val (take 4 s) of
      [Some a, Some b, Some c, Some d] \<Rightarrow> Some (((a * 16 + b) * 16 + c) * 16 + d)
    | _ \<Rightarrow> None)"

definition utf8 :: "nat \<Rightarrow> string" where
  "utf8 n = map char_of
     (if n < 128 then [n]
      else if n < 2048 then [192 + n div 64, 128 + n mod 64]
      else if n < 65536 then [224 + n div 4096, 128 + n div 64 mod 64, 128 + n mod 64]
      else [240 + n div 262144, 128 + n div 4096 mod 64, 128 + n div 64 mod 64, 128 + n mod 64])"

text \<open>An escape after the backslash: what it stands for and how many characters it takes.\<close>

definition simple_escape :: "char \<Rightarrow> char option" where
  "simple_escape c =
     (let n = code c in
      if n = 34 \<or> n = 92 \<or> n = 47 then Some c
      else if c = CHR ''b'' then Some (char_of (8::nat)) else if c = CHR ''f'' then Some (char_of (12::nat))
      else if c = CHR ''n'' then Some (char_of (10::nat)) else if c = CHR ''r'' then Some (char_of (13::nat))
      else if c = CHR ''t'' then Some (char_of (9::nat)) else None)"

definition low_surrogate :: "string \<Rightarrow> nat option" where
  "low_surrogate s = (case s of
      b # u # t \<Rightarrow> if code b = 92 \<and> u = CHR ''u''
        then (case hex4 t of Some l \<Rightarrow> if 56320 \<le> l \<and> l < 57344 then Some l else None | None \<Rightarrow> None)
        else None
    | _ \<Rightarrow> None)"

definition unicode_escape :: "string \<Rightarrow> (string \<times> nat) option" where
  "unicode_escape s = (case hex4 s of
      None \<Rightarrow> None
    | Some h \<Rightarrow>
        if 55296 \<le> h \<and> h < 56320 then
          (case low_surrogate (drop 4 s) of
             Some l \<Rightarrow> Some (utf8 (65536 + (h - 55296) * 1024 + (l - 56320)), 10)
           | None \<Rightarrow> Some (utf8 65533, 4))
        else if 56320 \<le> h \<and> h < 57344 then Some (utf8 65533, 4)
        else Some (utf8 h, 4))"

fun parse_chars :: "nat \<Rightarrow> string \<Rightarrow> (string \<times> string) option" where
  "parse_chars 0 s = None"
| "parse_chars (Suc n) [] = None"
| "parse_chars (Suc n) (c # s) =
     (if code c = 34 then Some ([], s)
      else if code c < 32 then None
      else if code c = 92 then
        (case s of
           [] \<Rightarrow> None
         | e # s' \<Rightarrow>
             if e = CHR ''u''
             then (case unicode_escape s' of
                     None \<Rightarrow> None
                   | Some (t, k) \<Rightarrow> map_option (\<lambda>(u, r). (t @ u, r)) (parse_chars n (drop k s')))
             else (case simple_escape e of
                     None \<Rightarrow> None
                   | Some d \<Rightarrow> map_option (\<lambda>(u, r). (d # u, r)) (parse_chars n s')))
      else map_option (\<lambda>(u, r). (c # u, r)) (parse_chars n s))"

definition literal :: "string \<Rightarrow> json \<Rightarrow> string \<Rightarrow> (json \<times> string) option" where
  "literal word j s = (if has_prefix s word then Some (j, drop (length word) s) else None)"

section \<open>Values\<close>

fun starts :: "char \<Rightarrow> string \<Rightarrow> bool" where
  "starts c [] = False"
| "starts c (d # s) = (c = d)"

text \<open>\<open>parse_value\<close> stands before the value; the other two stand after an opening bracket or a comma.\<close>

fun parse_value :: "nat \<Rightarrow> string \<Rightarrow> (json \<times> string) option"
and parse_elements :: "nat \<Rightarrow> string \<Rightarrow> (json list \<times> string) option"
and parse_members :: "nat \<Rightarrow> string \<Rightarrow> ((string \<times> json) list \<times> string) option" where
  "parse_value 0 s = None"
| "parse_value (Suc n) s =
     (case skip_ws s of
        [] \<Rightarrow> None
      | c # t \<Rightarrow>
          if c = CHR ''{'' then
            (if starts (CHR ''}'') (skip_ws t) then Some (JObj [], drop 1 (skip_ws t))
             else map_option (\<lambda>(kvs, r). (JObj kvs, r)) (parse_members n t))
          else if c = CHR ''['' then
            (if starts (CHR '']'') (skip_ws t) then Some (JList [], drop 1 (skip_ws t))
             else map_option (\<lambda>(xs, r). (JList xs, r)) (parse_elements n t))
          else if code c = 34 then map_option (\<lambda>(u, r). (JStr u, r)) (parse_chars (length t + 1) t)
          else if c = CHR ''t'' then literal ''true'' (JBool True) (c # t)
          else if c = CHR ''f'' then literal ''false'' (JBool False) (c # t)
          else if c = CHR ''n'' then literal ''null'' JNull (c # t)
          else parse_number (c # t))"
| "parse_elements 0 s = None"
| "parse_elements (Suc n) s =
     (case parse_value n s of
        None \<Rightarrow> None
      | Some (x, r) \<Rightarrow>
          if starts (CHR '','') (skip_ws r)
          then map_option (\<lambda>(xs, r'). (x # xs, r')) (parse_elements n (drop 1 (skip_ws r)))
          else if starts (CHR '']'') (skip_ws r) then Some ([x], drop 1 (skip_ws r))
          else None)"
| "parse_members 0 s = None"
| "parse_members (Suc n) s =
     (case skip_ws s of
        [] \<Rightarrow> None
      | c # t \<Rightarrow>
          if code c \<noteq> 34 then None
          else case parse_chars (length t + 1) t of
            None \<Rightarrow> None
          | Some (k, r) \<Rightarrow>
              if \<not> starts (CHR '':'') (skip_ws r) then None
              else case parse_value n (drop 1 (skip_ws r)) of
                None \<Rightarrow> None
              | Some (v, r1) \<Rightarrow>
                  if starts (CHR '','') (skip_ws r1)
                  then map_option (\<lambda>(kvs, r'). ((k, v) # kvs, r')) (parse_members n (drop 1 (skip_ws r1)))
                  else if starts (CHR ''}'') (skip_ws r1) then Some ([(k, v)], drop 1 (skip_ws r1))
                  else None)"

definition decode_text :: "string \<Rightarrow> raw_bytes" where
  "decode_text s =
     (if s = [] then NoBytes
      else case parse_value (2 * length s + 1) s of
        Some (j, r) \<Rightarrow> if skip_ws r = [] then JsonBytes j else BadBytes
      | None \<Rightarrow> BadBytes)"

lemma decode_example:
  "decode_text (''{'' @ [char_of (34::nat)] @ ''a'' @ [char_of (34::nat)] @ '': [1, -2.50, 3e2, true, null]}'') =
   JsonBytes (JObj [(''a'', JList [JNum 1 0, JNum (- 250) (- 2), JNum 3 2, JBool True, JNull])])"
  by code_simp

section \<open>Enough fuel\<close>

lemma skip_ws_length: "length (skip_ws s) \<le> length s"
  by (simp add: skip_ws_def length_dropWhile_le)

lemma starts_nonempty: "starts c s \<Longrightarrow> 0 < length s"
  by (cases s) auto

lemma fraction_length: "parse_fraction s = Some (fs, r) \<Longrightarrow> length r \<le> length s"
  by (auto simp: parse_fraction_def length_dropWhile_le le_SucI split: list.splits if_splits)

lemma exponent_length: "parse_exponent s = Some (ex, r) \<Longrightarrow> length r \<le> length s"
  by (auto simp: parse_exponent_def Let_def length_dropWhile_le le_SucI split: list.splits if_splits
      intro: le_trans [OF length_dropWhile_le])

lemma number_length: "parse_number s = Some (j, r) \<Longrightarrow> length r < length s"
proof -
  assume a: "parse_number s = Some (j, r)"
  let ?u = "case s of c # t \<Rightarrow> if c = CHR ''-'' then t else s | [] \<Rightarrow> s"
  let ?ds = "case ?u of c # _ \<Rightarrow> if c = CHR ''0'' then [c] else takeWhile is_digit ?u | [] \<Rightarrow> []"
  obtain fs q ex where q: "?ds \<noteq> []" "parse_fraction (drop (length ?ds) ?u) = Some (fs, q)"
    "parse_exponent q = Some (ex, r)"
    using a unfolding parse_number_def Let_def by (simp only: split: if_splits option.splits prod.splits) auto
  have "length r \<le> length (drop (length ?ds) ?u)"
    using fraction_length [OF q(2)] exponent_length [OF q(3)] by (rule order.trans [rotated])
  also have "\<dots> < length ?u" using q(1) by (cases ?u) auto
  also have "length ?u \<le> length s" by (cases s) auto
  finally show ?thesis .
qed

lemma chars_length: "parse_chars n s = Some (u, r) \<Longrightarrow> length r < length s"
proof (induction n s arbitrary: u r rule: parse_chars.induct)
  case (3 n c s)
  then show ?case by (fastforce split: if_splits option.splits list.splits prod.splits)
qed simp_all

lemma literal_length: "literal w j s = Some (x, r) \<Longrightarrow> w \<noteq> [] \<Longrightarrow> s \<noteq> [] \<Longrightarrow> length r < length s"
  by (auto simp: literal_def split: if_splits)

lemma rest_length:
  "parse_value n s = Some (j, r) \<Longrightarrow> length r < length s"
  "parse_elements n s = Some (xs, r) \<Longrightarrow> length r < length s"
  "parse_members n s = Some (kvs, r) \<Longrightarrow> length r < length s"
proof (induction n s and n s and n s arbitrary: j r and xs r and kvs r rule: parse_value_parse_elements_parse_members.induct)
  case (2 n s)
  obtain c t where ct: "skip_ws s = c # t" using 2(3) by (cases "skip_ws s") auto
  then have len: "length (c # t) \<le> length s" using skip_ws_length [of s] by simp
  have "length r < length (c # t)"
  proof (cases "c = CHR ''{'' \<or> c = CHR ''['' \<or> code c = 34")
    case True
    then show ?thesis
      using 2(3) ct 2(1) [OF ct] 2(2) [OF ct] chars_length [of "length t + 1" t] skip_ws_length [of t]
      by (fastforce split: if_splits)
  next
    case False
    then show ?thesis using 2(3) ct by (auto dest!: number_length literal_length split: if_splits)
  qed
  with len show ?case by simp
next
  case (4 n s)
  obtain x q where q: "parse_value n s = Some (x, q)" using 4(3) by (cases "parse_value n s") auto
  have "length (drop 1 (skip_ws q)) \<le> length q" using skip_ws_length [of q] by simp
  moreover have "length q < length s" using 4(1) [OF q] .
  ultimately show ?case using 4(3) q 4(2) [OF q refl]
    by (fastforce split: if_splits)
next
  case (6 n s)
  obtain c t where ct: "skip_ws s = c # t" using 6(3) by (cases "skip_ws s") auto
  then have quote: "code c = 34" using 6(3) by (simp split: if_splits)
  obtain k q where q: "parse_chars (length t + 1) t = Some (k, q)"
    using 6(3) ct quote by (cases "parse_chars (length t + 1) t") auto
  then have colon: "starts (CHR '':'') (skip_ws q)" using 6(3) ct quote by (simp split: if_splits)
  let ?q = "drop 1 (skip_ws q)"
  obtain v r1 where v: "parse_value n ?q = Some (v, r1)"
    using 6(3) ct quote q colon by (cases "parse_value n ?q") auto
  have "length r1 < length ?q" using 6(1) [OF ct _ q refl _ v] quote colon by simp
  moreover have "length ?q \<le> length q" using skip_ws_length [of q] by simp
  moreover have "length q < length t" by (rule chars_length [OF q])
  moreover have "length t < length s" using ct skip_ws_length [of s] by simp
  moreover have "length (drop 1 (skip_ws r1)) \<le> length r1" using skip_ws_length [of r1] by simp
  ultimately show ?case using 6(3) ct quote q colon v 6(2) [OF ct _ q refl _ v refl]
    by (fastforce split: if_splits)
qed simp_all

lemma chars_fuel: "length s < n \<Longrightarrow> length s < m \<Longrightarrow> parse_chars n s = parse_chars m s"
proof (induction n arbitrary: s m)
  case (Suc n)
  obtain m' where m: "m = Suc m'" using Suc.prems(2) by (cases m) auto
  show ?case
  proof (cases s)
    case (Cons c t)
    have e: "parse_chars n x = parse_chars m' x" if "length x \<le> length t" for x
      using Suc.IH [of x m'] Suc.prems Cons m that by simp
    have e1: "parse_chars n (drop k y) = parse_chars m' (drop k y)" if "t = d # y" for k d y
      using that by (intro e) simp
    show ?thesis
      by (cases t) (simp_all add: Cons m e e1 split: option.splits)
  qed (simp add: m)
qed simp

lemma parse_fuel_all:
  "(\<forall>s m. 2 * length s < n \<longrightarrow> 2 * length s < m \<longrightarrow> parse_value n s = parse_value m s) \<and>
   (\<forall>s m. 2 * length s + 1 < n \<longrightarrow> 2 * length s + 1 < m \<longrightarrow> parse_elements n s = parse_elements m s) \<and>
   (\<forall>s m. 2 * length s + 1 < n \<longrightarrow> 2 * length s + 1 < m \<longrightarrow> parse_members n s = parse_members m s)"
proof (induction n)
  case (Suc n)
  have V: "parse_value n s = parse_value m s" if "2 * length s < n" "2 * length s < m" for s m using Suc that by blast
  have E: "parse_elements n s = parse_elements m s" if "2 * length s + 1 < n" "2 * length s + 1 < m" for s m
    using Suc that by blast
  have M: "parse_members n s = parse_members m s" if "2 * length s + 1 < n" "2 * length s + 1 < m" for s m
    using Suc that by blast
  have "parse_value (Suc n) s = parse_value m s" if a: "2 * length s < Suc n" "2 * length s < m" for s m
  proof -
    obtain m' where m: "m = Suc m'" using a(2) by (cases m) auto
    show ?thesis
    proof (cases "skip_ws s")
      case (Cons c t)
      then have "length t < length s" using skip_ws_length [of s] by simp
      then have "parse_members n t = parse_members m' t" "parse_elements n t = parse_elements m' t"
        using a m by (auto intro!: M E)
      with Cons m show ?thesis by simp
    qed (simp add: m)
  qed
  moreover have "parse_elements (Suc n) s = parse_elements m s" if a: "2 * length s + 1 < Suc n" "2 * length s + 1 < m" for s m
  proof -
    obtain m' where m: "m = Suc m'" using a(2) by (cases m) auto
    have v: "parse_value n s = parse_value m' s" using a m by (intro V) auto
    show ?thesis
    proof (cases "parse_value m' s")
      case (Some p)
      obtain x r where p: "p = (x, r)" by fastforce
      have "length (drop 1 (skip_ws r)) < length s"
        using rest_length(1) [of m' s x r] Some p skip_ws_length [of r] by simp
      then have "parse_elements n (drop 1 (skip_ws r)) = parse_elements m' (drop 1 (skip_ws r))"
        using a m by (intro E) auto
      with Some p m v show ?thesis by simp
    qed (simp add: m v)
  qed
  moreover have "parse_members (Suc n) s = parse_members m s" if a: "2 * length s + 1 < Suc n" "2 * length s + 1 < m" for s m
  proof -
    obtain m' where m: "m = Suc m'" using a(2) by (cases m) auto
    show ?thesis
    proof (cases "skip_ws s")
      case (Cons c t)
      then have t: "length t < length s" using skip_ws_length [of s] by simp
      show ?thesis
      proof (cases "parse_chars (length t + 1) t")
        case (Some p)
        obtain k q where p: "p = (k, q)" by fastforce
        let ?q = "drop 1 (skip_ws q)"
        have q: "length ?q < length t" using chars_length Some p skip_ws_length [of q] by fastforce
        then have v: "parse_value n ?q = parse_value m' ?q" using a m t by (intro V) auto
        have "parse_members n (drop 1 (skip_ws r)) = parse_members m' (drop 1 (skip_ws r))"
          if "parse_value m' ?q = Some (x, r)" for x r
          using rest_length(1) [OF that] skip_ws_length [of r] q t a m by (intro M) auto
        with v Cons Some p m show ?thesis by (simp split: option.splits)
      qed (simp add: m Cons)
    qed (simp add: m)
  qed
  ultimately show ?case by blast
qed simp

text \<open>No text is rejected for want of fuel.\<close>

lemma parse_fuel: "2 * length s < n \<Longrightarrow> parse_value n s = parse_value (2 * length s + 1) s"
  by (rule conjunct1 [OF parse_fuel_all, rule_format]) auto

end
