(* ===== verification/Tally.thy ===== *)
theory Tally
  imports Adapters JsonText
begin

text \<open>
  internal/proxy/tally_reader.go: the body of a streamed answer, wrapped to count tokens while the
  client reads, and to settle once when the stream ends or is closed; and stream_options.go, which
  asks the upstream for the usage at the end. The chunks are those that the reads return.
\<close>

section \<open>Usage\<close>

record usage_info =
  us_prompt :: int
  us_completion :: int
  us_cached :: "int option"
  us_hit :: int
  us_miss :: int

fun decode_details :: "json \<Rightarrow> int option" where
  "decode_details (JObj kvs) = int_field kvs ''cached_tokens''"
| "decode_details _ = None"

fun decode_usage :: "json \<Rightarrow> usage_info option" where
  "decode_usage (JObj kvs) =
     (case (int_field kvs ''prompt_tokens'', int_field kvs ''completion_tokens'',
            ptr_field decode_details kvs ''prompt_tokens_details'',
            int_field kvs ''cache_hit_tokens'', int_field kvs ''cache_miss_tokens'') of
        (Some p, Some c, Some d, Some h, Some m) \<Rightarrow>
          Some \<lparr>us_prompt = p, us_completion = c, us_cached = d, us_hit = h, us_miss = m\<rparr>
      | _ \<Rightarrow> None)"
| "decode_usage _ = None"

text \<open>The cached part of the prompt: what the upstream reports, in one of two ways.\<close>

definition cache_counts :: "usage_info \<Rightarrow> int \<Rightarrow> (int \<times> int) option" where
  "cache_counts u prompt =
     (if 0 < us_hit u \<or> 0 < us_miss u then Some (us_hit u, us_miss u)
      else case us_cached u of
             Some c \<Rightarrow> if 0 < c then Some (c, wrap64 (prompt - c)) else None
           | None \<Rightarrow> None)"

section \<open>Counting\<close>

fun delta_content :: "json \<Rightarrow> string option" where
  "delta_content (JObj kvs) = str_field kvs ''content''"
| "delta_content _ = None"

fun choice_content :: "json \<Rightarrow> string option" where
  "choice_content (JObj kvs) = read_into delta_content '''' (matching kvs ''delta'')"
| "choice_content _ = None"

definition decode_chunk :: "raw_bytes \<Rightarrow> (string list \<times> usage_info option) option" where
  "decode_chunk event =
     (case struct_members event of
        None \<Rightarrow> None
      | Some kvs \<Rightarrow>
          (case (list_field choice_content '''' kvs ''choices'', ptr_field decode_usage kvs ''usage'') of
             (Some cs, Some u) \<Rightarrow> Some (cs, u)
           | _ \<Rightarrow> None))"

text \<open>What the reader keeps, and the calls of its callback so far.\<close>

record tally =
  tl_prompt :: int
  tl_counted :: int
  tl_hit :: int
  tl_miss :: int
  tl_done :: bool
  tl_calls :: "(int \<times> int \<times> int \<times> int) list"

definition newTallyReader :: "int \<Rightarrow> tally" where
  "newTallyReader prompt = \<lparr>tl_prompt = prompt, tl_counted = 0, tl_hit = 0, tl_miss = 0, tl_done = False,
     tl_calls = []\<rparr>"

definition take_usage :: "usage_info \<Rightarrow> tally \<Rightarrow> tally" where
  "take_usage u t =
     (let t1 = t\<lparr>tl_counted := (if 0 < us_completion u then us_completion u else tl_counted t),
                tl_prompt := (if 0 < us_prompt u then us_prompt u else tl_prompt t)\<rparr>
      in case cache_counts u (tl_prompt t1) of
           None \<Rightarrow> t1
         | Some (h, m) \<Rightarrow> t1\<lparr>tl_hit := h, tl_miss := m\<rparr>)"

definition count_text :: "(string \<Rightarrow> int) option \<Rightarrow> string \<Rightarrow> tally \<Rightarrow> tally" where
  "count_text encode s t =
     (if s = '''' then t
      else t\<lparr>tl_counted := wrap64 (tl_counted t +
             (case encode of Some f \<Rightarrow> f s | None \<Rightarrow> int (length (text_words s))))\<rparr>)"

definition count_event :: "(string \<Rightarrow> int) option \<Rightarrow> raw_bytes \<Rightarrow> tally \<Rightarrow> tally" where
  "count_event encode event t =
     (case decode_chunk event of
        None \<Rightarrow> t
      | Some (contents, usage) \<Rightarrow>
          let t1 = (case usage of None \<Rightarrow> t | Some u \<Rightarrow> take_usage u t);
              counted = (case usage of None \<Rightarrow> False | Some u \<Rightarrow> 0 < us_completion u)
          in if counted then t1
             else case contents of [] \<Rightarrow> t1 | s # _ \<Rightarrow> count_text encode s t1)"

definition process_line ::
  "int \<Rightarrow> request_adapter \<Rightarrow> (string \<Rightarrow> int) option \<Rightarrow> string \<Rightarrow> tally \<Rightarrow> tally" where
  "process_line now adapter encode line t =
     (let line = trim_space line; data = trim_space (trim_prefix line ''data:'') in
      if \<not> has_prefix line ''data:'' \<or> data = ''[DONE]'' then t
      else case transformSSEEvent now adapter (decode_text data) of
             None \<Rightarrow> t
           | Some event \<Rightarrow> if event = NoBytes then t else count_event encode event t)"

definition processChunk ::
  "int \<Rightarrow> request_adapter \<Rightarrow> (string \<Rightarrow> int) option \<Rightarrow> string \<Rightarrow> tally \<Rightarrow> tally" where
  "processChunk now adapter encode chunk t =
     fold (process_line now adapter encode) (split_on (char_of (10::nat)) chunk) t"

definition triggerComplete :: "tally \<Rightarrow> tally" where
  "triggerComplete t =
     (if tl_done t then t
      else t\<lparr>tl_done := True, tl_calls := tl_calls t @ [(tl_prompt t, tl_counted t, tl_hit t, tl_miss t)]\<rparr>)"

text \<open>A read returns some bytes and may report the end of the stream; the client may close early.\<close>

datatype tally_event = ReadChunk string bool | CloseBody

fun tally_step ::
  "int \<Rightarrow> request_adapter \<Rightarrow> (string \<Rightarrow> int) option \<Rightarrow> tally_event \<Rightarrow> tally \<Rightarrow> tally" where
  "tally_step now adapter encode (ReadChunk chunk eof) t =
     (let t1 = (if chunk = [] then t else processChunk now adapter encode chunk t)
      in if eof then triggerComplete t1 else t1)"
| "tally_step now adapter encode CloseBody t = triggerComplete t"

definition tally_run ::
  "int \<Rightarrow> request_adapter \<Rightarrow> (string \<Rightarrow> int) option \<Rightarrow> tally_event list \<Rightarrow> tally \<Rightarrow> tally" where
  "tally_run now adapter encode es t = fold (tally_step now adapter encode) es t"

fun ends_stream :: "tally_event \<Rightarrow> bool" where
  "ends_stream (ReadChunk chunk eof) = eof"
| "ends_stream CloseBody = True"

section \<open>Asking for the usage\<close>

text \<open>\<open>ensureStreamUsage\<close> keeps every member as it is and writes them in the order of their keys.\<close>

definition ensureStreamUsage :: "raw_bytes \<Rightarrow> raw_bytes" where
  "ensureStreamUsage body =
     (case body of
        JsonBytes (JObj kvs) \<Rightarrow>
          (if obj_get kvs ''stream'' = Some (JBool True) \<and> obj_get kvs ''stream_options'' = None
           then JsonBytes (JObj (insert_member
                  (''stream_options'', JObj [(''include_usage'', JBool True)]) (marshal_members kvs)))
           else body)
      | _ \<Rightarrow> body)"

section \<open>Settled once\<close>

lemma count_event_frame [simp]:
  "tl_done (count_event encode e t) = tl_done t" "tl_calls (count_event encode e t) = tl_calls t"
  by (simp_all add: count_event_def take_usage_def count_text_def Let_def split: option.splits list.splits)

lemma process_line_frame [simp]:
  "tl_done (process_line now a encode l t) = tl_done t" "tl_calls (process_line now a encode l t) = tl_calls t"
  by (simp_all add: process_line_def Let_def split: option.splits)

lemma process_chunk_frame [simp]:
  "tl_done (processChunk now a encode c t) = tl_done t" "tl_calls (processChunk now a encode c t) = tl_calls t"
proof -
  have "tl_done (fold (process_line now a encode) ls t) = tl_done t \<and>
      tl_calls (fold (process_line now a encode) ls t) = tl_calls t" for ls
    by (induction ls arbitrary: t) simp_all
  then show "tl_done (processChunk now a encode c t) = tl_done t" "tl_calls (processChunk now a encode c t) = tl_calls t"
    by (simp_all add: processChunk_def)
qed

lemma tally_step_done:
  "tl_done (tally_step now a encode e t) \<longleftrightarrow> tl_done t \<or> ends_stream e"
  by (cases e) (simp_all add: triggerComplete_def Let_def)

lemma tally_step_calls:
  "tl_calls (tally_step now a encode e t) =
     tl_calls t @ (if ends_stream e \<and> \<not> tl_done t then [(tl_prompt (tally_step now a encode e t),
       tl_counted (tally_step now a encode e t), tl_hit (tally_step now a encode e t), tl_miss (tally_step now a encode e t))] else [])"
  by (cases e) (simp_all add: triggerComplete_def Let_def)

lemma tally_run_done: "tl_done t \<Longrightarrow> tl_calls (tally_run now a encode es t) = tl_calls t"
  by (induction es arbitrary: t) (simp_all add: tally_run_def tally_step_calls tally_step_done)

lemma stream_calls_once:
  assumes "list_ex ends_stream es" "\<not> tl_done t" "tl_calls t = []"
  shows "\<exists>x. tl_calls (tally_run now a encode es t) = [x]"
  using assms
proof (induction es arbitrary: t)
  case (Cons e es)
  let ?u = "tally_step now a encode e t"
  show ?case
  proof (cases "ends_stream e")
    case True
    then have "tl_calls (tally_run now a encode es ?u) = tl_calls ?u"
      by (intro tally_run_done) (simp add: tally_step_done)
    with True Cons.prems show ?thesis by (simp add: tally_run_def tally_step_calls)
  next
    case False
    then have "\<not> tl_done ?u" "tl_calls ?u = []" using Cons.prems by (simp_all add: tally_step_done tally_step_calls)
    from Cons.IH [OF _ this] False Cons.prems(1) show ?thesis by (simp add: tally_run_def)
  qed
qed simp

text \<open>
  C34. A streamed request is settled exactly once: however the reads, the end of the stream and the
  client's closing are interleaved and repeated, the callback runs once if the stream ends at all,
  with the counts at the moment of the first end, and never otherwise.
\<close>

theorem stream_settled_once:
  "tl_calls (tally_run now a encode es (newTallyReader prompt)) =
     (if list_ex ends_stream es
      then (let t = tally_run now a encode (takeWhile (\<lambda>e. \<not> ends_stream e) es @
                      [hd (dropWhile (\<lambda>e. \<not> ends_stream e) es)]) (newTallyReader prompt)
            in [(tl_prompt t, tl_counted t, tl_hit t, tl_miss t)])
      else [])"
proof -
  have "tl_calls (tally_run now a encode es t) =
      (if list_ex ends_stream es
       then (let u = tally_run now a encode (takeWhile (\<lambda>e. \<not> ends_stream e) es @
                       [hd (dropWhile (\<lambda>e. \<not> ends_stream e) es)]) t
             in [(tl_prompt u, tl_counted u, tl_hit u, tl_miss u)])
       else [])" if "\<not> tl_done t" "tl_calls t = []" for t
    using that
  proof (induction es arbitrary: t)
    case (Cons e es)
    let ?u = "tally_step now a encode e t"
    show ?case
    proof (cases "ends_stream e")
      case True
      then have "tl_calls (tally_run now a encode es ?u) = tl_calls ?u"
        by (intro tally_run_done) (simp add: tally_step_done)
      with True Cons.prems tally_step_calls [of now a encode e t] show ?thesis by (simp add: tally_run_def Let_def)
    next
      case False
      then have "\<not> tl_done ?u" "tl_calls ?u = []" using Cons.prems by (simp_all add: tally_step_done tally_step_calls)
      from Cons.IH [OF this] False show ?thesis by (simp add: tally_run_def)
    qed
  qed (simp add: tally_run_def)
  then show ?thesis by (simp add: newTallyReader_def)
qed

text \<open>
  A request that asks for a stream is sent with \<open>include_usage\<close>, unless it set its own
  options; every other member, and any body that is not such a request, goes on as it came.
\<close>

lemma stream_usage_keeps_members:
  "(ensureStreamUsage body = body \<or>
    (\<exists>kvs kvs'. body = JsonBytes (JObj kvs) \<and> ensureStreamUsage body = JsonBytes (JObj kvs') \<and>
       obj_get kvs ''stream'' = Some (JBool True) \<and> obj_get kvs ''stream_options'' = None \<and>
       obj_get kvs' = (obj_get kvs)(''stream_options'' \<mapsto> JObj [(''include_usage'', JBool True)]))) \<and>
   ensureStreamUsage (ensureStreamUsage body) = ensureStreamUsage body"
proof -
  have g: "obj_get (insert_member m (marshal_members kvs)) = (obj_get kvs)(fst m \<mapsto> snd m)" for m kvs
  proof (rule ext)
    fix k
    have "map_of (rev (marshal_members kvs)) k = obj_get kvs k"
      using obj_get_marshal [of kvs k] by (simp only: obj_get_def)
    then show "obj_get (insert_member m (marshal_members kvs)) k = ((obj_get kvs)(fst m \<mapsto> snd m)) k"
      unfolding obj_get_def [of "insert_member m (marshal_members kvs)"] by (simp add: map_of_insert_member)
  qed
  show ?thesis by (auto simp: ensureStreamUsage_def g split: raw_bytes.splits json.splits)
qed

text \<open>
  The count depends on how the reads cut the stream: an event that two reads share is counted by
  neither.
\<close>

definition sample_event :: string where
  "sample_event = ''data: {'' @ [char_of (34::nat)] @ ''usage'' @ [char_of (34::nat)] @ '': {'' @ [char_of (34::nat)] @
     ''completion_tokens'' @ [char_of (34::nat)] @ '': 12}}'' @ newline"

lemma count_depends_on_reads:
  "tl_counted (processChunk 0 OpenAIAdapter None sample_event (newTallyReader 5)) = 12"
  "tl_counted (processChunk 0 OpenAIAdapter None (drop 10 sample_event)
     (processChunk 0 OpenAIAdapter None (take 10 sample_event) (newTallyReader 5))) = 0"
  by code_simp+

end
