(* ===== verification/Failures.thy ===== *)
theory Failures
  imports Tally
begin

text \<open>
  internal/proxy/failure_log.go: how a failed answer is classified and written to the failure logs
  of models and channels; and the answer of an upstream as the proxy sees it.
\<close>

section \<open>Answers of an upstream\<close>

text \<open>
  The body is the text that \<open>io.ReadAll\<close> gives, or \<open>None\<close> where it fails (a broken connection, a body
  that was closed), and the reads that the client's side makes of it when it is streamed.
\<close>

record upstream_response =
  up_status :: int
  up_headers :: headers
  up_text :: "string option"
  up_reads :: "tally_event list"

datatype reply = TransportError string bool | Reply upstream_response

definition status_texts :: "(int \<times> string) list" where
  "status_texts = [(100, ''Continue''), (101, ''Switching Protocols''), (102, ''Processing''),
     (103, ''Early Hints''), (200, ''OK''), (201, ''Created''), (202, ''Accepted''),
     (203, ''Non-Authoritative Information''), (204, ''No Content''), (205, ''Reset Content''),
     (206, ''Partial Content''), (207, ''Multi-Status''), (208, ''Already Reported''), (226, ''IM Used''),
     (300, ''Multiple Choices''), (301, ''Moved Permanently''), (302, ''Found''), (303, ''See Other''),
     (304, ''Not Modified''), (305, ''Use Proxy''), (307, ''Temporary Redirect''), (308, ''Permanent Redirect''),
     (400, ''Bad Request''), (401, ''Unauthorized''), (402, ''Payment Required''), (403, ''Forbidden''),
     (404, ''Not Found''), (405, ''Method Not Allowed''), (406, ''Not Acceptable''),
     (407, ''Proxy Authentication Required''), (408, ''Request Timeout''), (409, ''Conflict''), (410, ''Gone''),
     (411, ''Length Required''), (412, ''Precondition Failed''), (413, ''Request Entity Too Large''),
     (414, ''Request URI Too Long''), (415, ''Unsupported Media Type''), (416, ''Requested Range Not Satisfiable''),
     (417, ''Expectation Failed''), (418, [CHR ''I'', char_of (39::nat)] @ ''m a teapot''), (421, ''Misdirected Request''),
     (422, ''Unprocessable Entity''), (423, ''Locked''), (424, ''Failed Dependency''), (425, ''Too Early''),
     (426, ''Upgrade Required''), (428, ''Precondition Required''), (429, ''Too Many Requests''),
     (431, ''Request Header Fields Too Large''), (451, ''Unavailable For Legal Reasons''),
     (500, ''Internal Server Error''), (501, ''Not Implemented''), (502, ''Bad Gateway''),
     (503, ''Service Unavailable''), (504, ''Gateway Timeout''), (505, ''HTTP Version Not Supported''),
     (506, ''Variant Also Negotiates''), (507, ''Insufficient Storage''), (508, ''Loop Detected''),
     (510, ''Not Extended''), (511, ''Network Authentication Required'')]"

definition status_text :: "int \<Rightarrow> string" where
  "status_text n = or_empty (map_of status_texts n)"

section \<open>Classification\<close>

definition truncateString :: "string \<Rightarrow> nat \<Rightarrow> string" where
  "truncateString value maxLen = (if length value \<le> maxLen then value else take maxLen value)"

definition maxFailureResponseBodyLength :: nat where
  "maxFailureResponseBodyLength = 4096"

definition classifyModelFailure :: "int \<Rightarrow> provider_error option \<Rightarrow> string \<times> string \<times> bool" where
  "classifyModelFailure status translated =
     (case translated of
        Some t \<Rightarrow> (pe_type t, pe_code t, status = 429 \<or> 500 \<le> status \<or> pe_code t = ''bad_gateway'')
      | None \<Rightarrow>
          if status = 429 then (''rate_limit_error'', ''rate_limit'', True)
          else if status = 502 then (''server_error'', ''bad_gateway'', True)
          else if status = 503 then (''server_error'', ''service_unavailable'', True)
          else if status = 504 then (''server_error'', ''gateway_timeout'', True)
          else if 500 \<le> status then (''server_error'', ''upstream_server_error'', True)
          else if status = 401 then (''authentication_error'', ''unauthorized'', False)
          else if status = 403 then (''permission_error'', ''forbidden'', False)
          else if status = 402 then (''billing_error'', ''insufficient_quota'', False)
          else if 400 \<le> status then (''invalid_request_error'', ''request_failed'', False)
          else (''server_error'', ''request_failed'', False))"

definition public_model :: "request_ctx \<Rightarrow> string" where
  "public_model cx = or_default (or_empty (cx_public_model cx)) (or_empty (cx_model cx))"

definition latency_ms :: "request_ctx \<Rightarrow> int \<Rightarrow> int" where
  "latency_ms cx now = (case cx_start cx of None \<Rightarrow> 0 | Some t \<Rightarrow> wrap32 (quot (now - t) 1000000))"

section \<open>The logs\<close>

definition model_failure ::
  "request_ctx \<Rightarrow> int \<Rightarrow> string \<Rightarrow> provider_error option \<Rightarrow> string \<Rightarrow> int \<Rightarrow> int \<Rightarrow> model_failure_row" where
  "model_failure cx status body translated fallback user now =
     (case classifyModelFailure status translated of (errorType, errorCode, retryable) \<Rightarrow>
      let key = coalesce0 (cx_api_key cx);
          message = (case translated of None \<Rightarrow> fallback
                       | Some t \<Rightarrow> if pe_message t = '''' then fallback else pe_message t);
          message = or_default message (status_text status)
      in \<lparr>mf_user = user, mf_api_key = (if key > 0 then Some key else None),
          mf_request_id = truncateString (or_empty (cx_request_id cx)) 100,
          mf_model = truncateString (public_model cx) 100,
          mf_provider = truncateString (or_empty (cx_provider cx)) 32,
          mf_error_type = truncateString errorType 50, mf_error_code = truncateString errorCode 50,
          mf_status = wrap32 status, mf_message = truncateString message 4000,
          mf_body = truncateString body maxFailureResponseBodyLength,
          mf_latency = latency_ms cx now, mf_retryable = retryable\<rparr>)"

definition logModelFailure ::
  "request_ctx \<Rightarrow> int \<Rightarrow> string \<Rightarrow> provider_error option \<Rightarrow> string \<Rightarrow> 'r world \<Rightarrow> 'r world" where
  "logModelFailure cx status body translated fallback w =
     (case cx_user cx of
        None \<Rightarrow> w
      | Some user \<Rightarrow>
          if user \<le> 0 \<or> public_model cx = '''' then w
          else snd (db_update (createModelFailureLog
                 (model_failure cx status body translated fallback user (w_now w))) w))"

text \<open>What went wrong with a channel: an error of the transport, or the status of its answer.\<close>

definition channel_failure ::
  "request_ctx \<Rightarrow> channel_row \<Rightarrow> reply \<Rightarrow> string \<Rightarrow> int \<Rightarrow> breakers \<Rightarrow> channel_failure_row" where
  "channel_failure cx ch rep body now bs =
     (let (status, errorType, message) = (case rep of
            TransportError m _ \<Rightarrow> (0, ''transport_error'', m)
          | Reply r \<Rightarrow> (wrap32 (up_status r),
              if up_status r = 429 then ''rate_limit''
              else if 500 \<le> up_status r then ''upstream_server_error'' else ''upstream_error'',
              status_text (up_status r)))
      in \<lparr>cf_channel = c_id ch, cf_request_id = truncateString (or_empty (cx_request_id cx)) 100,
          cf_model = truncateString (public_model cx) 100, cf_provider = truncateString (c_provider ch) 32,
          cf_base_url = truncateString (c_base_url ch) 255, cf_error_type = truncateString errorType 50,
          cf_status = status, cf_body = truncateString body maxFailureResponseBodyLength,
          cf_message = truncateString message 4000, cf_latency = latency_ms cx now,
          cf_circuit = hs_state (getChannelHealthSnapshot (c_id ch) bs)\<rparr>)"

definition logChannelFailure ::
  "request_ctx \<Rightarrow> channel_row \<Rightarrow> reply \<Rightarrow> string \<Rightarrow> 'r world \<Rightarrow> 'r world" where
  "logChannelFailure cx ch rep body w =
     snd (db_update (createChannelFailureLog
       (channel_failure cx ch rep body (w_now w) (mg_breakers (w_manager w)))) w)"

text \<open>
  Every failure has a type and a code, and the columns hold what is written to them: the texts are
  cut to their widths, so that a log is refused only for its references.
\<close>

lemma classify_complete:
  "fst (classifyModelFailure status None) \<noteq> '''' \<and> fst (snd (classifyModelFailure status None)) \<noteq> '''' \<and>
   (snd (snd (classifyModelFailure status None)) \<longleftrightarrow> status = 429 \<or> 500 \<le> status)"
  by (simp add: classifyModelFailure_def)

lemma truncate_length: "length (truncateString s n) \<le> n"
  by (simp add: truncateString_def)

end
