(* ===== verification/Dispatch.thy ===== *)
theory Dispatch
  imports Failures
begin

text \<open>
  \<open>FallbackTransport.RoundTrip\<close> of internal/proxy/reverse_proxy.go: one request, several channels. The
  upstreams, the clock and the client's disconnection are an environment.
\<close>

section \<open>The address of a channel\<close>

record base_url =
  bu_scheme :: string
  bu_host :: string
  bu_path :: string

text \<open>
  \<open>url.Parse\<close>, as far as it goes for an address with a scheme and a host; \<open>None\<close> is an error or an
  address without one of them. A percent sign in a host counts as an error, and user names are not
  checked.
\<close>

definition is_letter :: "char \<Rightarrow> bool" where
  "is_letter c \<longleftrightarrow> (let n = code (lower_char c) in 97 \<le> n \<and> n \<le> 122)"

definition scheme_char :: "char \<Rightarrow> bool" where
  "scheme_char c \<longleftrightarrow> is_letter c \<or> is_digit c \<or> c \<in> {CHR ''+'', CHR ''-'', CHR ''.''}"

definition split_scheme :: "string \<Rightarrow> (string \<times> string) option" where
  "split_scheme s =
     (let p = takeWhile scheme_char s; r = dropWhile scheme_char s in
      if p \<noteq> [] \<and> is_letter (hd p) \<and> starts (CHR '':'') r then Some (to_lower p, drop 1 r) else None)"

fun unescape_path :: "string \<Rightarrow> string option" where
  "unescape_path [] = Some []"
| "unescape_path (c # s) =
     (if c = CHR ''%'' then
        (case s of
           a # b # t \<Rightarrow>
             (case (hex_val a, hex_val b) of
                (Some x, Some y) \<Rightarrow> map_option (\<lambda>u. char_of (16 * x + y) # u) (unescape_path t)
              | _ \<Rightarrow> None)
         | _ \<Rightarrow> None)
      else map_option (\<lambda>u. c # u) (unescape_path s))"

definition host_char :: "char \<Rightarrow> bool" where
  "host_char c \<longleftrightarrow> 128 \<le> code c \<or> is_letter c \<or> is_digit c \<or> c = char_of (39::nat) \<or> code c = 34 \<or>
     c \<in> set ''-_.~!$&()*+,;=:[]<>''"

definition valid_port :: "string \<Rightarrow> bool" where
  "valid_port host = (case split_on (CHR '':'') host of
      [] \<Rightarrow> True | [h] \<Rightarrow> True | parts \<Rightarrow> list_all is_digit (last parts))"

definition parse_base_url :: "string \<Rightarrow> base_url option" where
  "parse_base_url raw =
     (let u = takeWhile (\<lambda>c. c \<noteq> CHR ''#'') raw in
      if list_ex (\<lambda>c. code c < 32 \<or> code c = 127) u then None
      else case split_scheme u of
        None \<Rightarrow> None
      | Some (scheme, rest) \<Rightarrow>
          let rest = takeWhile (\<lambda>c. c \<noteq> CHR ''?'') rest;
              authority = takeWhile (\<lambda>c. c \<noteq> CHR ''/'') (drop 2 rest);
              host = last (split_on (CHR ''@'') authority)
          in if \<not> has_prefix rest ''//'' \<or> host = '''' \<or> \<not> list_all host_char host \<or> \<not> valid_port host then None
             else map_option (\<lambda>p. \<lparr>bu_scheme = scheme, bu_host = host, bu_path = p\<rparr>)
                    (unescape_path (dropWhile (\<lambda>c. c \<noteq> CHR ''/'') (drop 2 rest))))"

definition join_path :: "string \<Rightarrow> string \<Rightarrow> string" where
  "join_path base path =
     (if has_suffix base ''/v1'' \<and> has_prefix path ''/v1'' then base @ trim_prefix path ''/v1''
      else trim_suffix base ''/'' @ path)"

section \<open>Choosing a channel\<close>

definition required_caps :: "string \<Rightarrow> capabilities" where
  "required_caps requestType =
     (if requestType = ''image_generation'' then no_caps\<lparr>cap_image := True\<rparr>
      else if requestType = ''video_generation'' then no_caps\<lparr>cap_video := True, cap_async_task := True\<rparr>
      else no_caps)"

definition pick_untried ::
  "int \<Rightarrow> string \<Rightarrow> capabilities \<Rightarrow> int list \<Rightarrow> manager \<Rightarrow> channel_row option \<times> manager" where
  "pick_untried now model req excl m =
     (if cap_image req \<or> cap_video req then getNextChannelForCapabilitiesExcluding catalog now model req excl m
      else getNextChannelExcluding catalog now model excl m)"

definition pick_any :: "int \<Rightarrow> string \<Rightarrow> capabilities \<Rightarrow> manager \<Rightarrow> channel_row option \<times> manager" where
  "pick_any now model req m =
     (if cap_image req \<or> cap_video req then getNextChannelForCapabilities catalog now model req m
      else getNextChannelAny catalog now model m)"

text \<open>An untried channel first; when there is none, any channel again.\<close>

definition with_fallback :: "('e \<Rightarrow> 'm \<Rightarrow> 'c option \<times> 'm) \<Rightarrow> ('m \<Rightarrow> 'c option \<times> 'm) \<Rightarrow> 'e \<Rightarrow> 'm \<Rightarrow> 'c option \<times> 'm" where
  "with_fallback pick fallback excl m =
     (case pick excl m of (Some ch, m1) \<Rightarrow> (Some ch, m1) | (None, m1) \<Rightarrow> fallback m1)"

definition on_manager :: "(int \<Rightarrow> manager \<Rightarrow> 'a \<times> manager) \<Rightarrow> 'r world \<Rightarrow> 'a \<times> 'r world" where
  "on_manager f w = (case f (w_now w) (w_manager w) of (a, m) \<Rightarrow> (a, w\<lparr>w_manager := m\<rparr>))"

definition choose_channel :: "string \<Rightarrow> capabilities \<Rightarrow> int list \<Rightarrow> 'r world \<Rightarrow> channel_row option \<times> 'r world" where
  "choose_channel model req excl w =
     on_manager (\<lambda>now. with_fallback (pick_untried now model req) (pick_any now model req) excl) w"

definition on_breakers :: "(int \<Rightarrow> breakers \<Rightarrow> breakers) \<Rightarrow> 'r world \<Rightarrow> 'r world" where
  "on_breakers f w = w\<lparr>w_manager := (w_manager w)\<lparr>mg_breakers := f (w_now w) (mg_breakers (w_manager w))\<rparr>\<rparr>"

section \<open>One attempt\<close>

text \<open>
  The environment of a request: whether the client has gone before attempt \<open>i\<close>, how long the
  upstream takes, what it answers to which request; and the parameters of the adapters.
\<close>

record upstream_env =
  env_cancelled :: "nat \<Rightarrow> bool"
  env_latency :: "nat \<Rightarrow> int"
  env_reply :: "nat \<Rightarrow> http_request \<Rightarrow> reply"
  env_net :: network
  env_size :: "json \<Rightarrow> int"

datatype trip_result = Answered upstream_response request_ctx | TripFailed string bool | TripPanics

text \<open>
  What the variables of the loop hold: the request with what earlier attempts left in it, the
  channels that failed, the response and error so far, and the requests that were sent.
\<close>

record trip =
  tr_request :: http_request
  tr_tried :: "int list"
  tr_resp :: "upstream_response option"
  tr_err :: "(string \<times> bool) option"
  tr_sent :: "(int \<times> http_request) list"

definition start_trip :: "http_request \<Rightarrow> trip" where
  "start_trip rq = \<lparr>tr_request = rq, tr_tried = [], tr_resp = None, tr_err = None, tr_sent = []\<rparr>"

text \<open>Body, path and headers are the client's again; the query and the context are not reset.\<close>

definition reset_request :: "http_request \<Rightarrow> http_request \<Rightarrow> http_request" where
  "reset_request client rq = rq\<lparr>hr_path := hr_path client, hr_headers := hr_headers client,
     hr_body := (case hr_body client of BrokenBody \<Rightarrow> Body 0 NoBytes | b \<Rightarrow> b)\<rparr>"

definition billing_model :: "request_ctx \<Rightarrow> string" where
  "billing_model cx = (if or_false (cx_billing cx) then public_model cx else '''')"

definition adapted ::
  "upstream_env \<Rightarrow> channel_row \<Rightarrow> string \<Rightarrow> http_request \<Rightarrow> rewrite_error + http_request" where
  "adapted env ch model rq =
     (if or_false (cx_billing (hr_ctx rq)) \<and> route_of (hr_path rq) \<in> {ChatRoute, ImageRoute}
      then rewriteRequest (env_net env) (env_size env) (sp_request (getProvider catalog (c_provider ch))) model rq
      else Inr rq)"

text \<open>The request as it is sent: address, path, credentials and context of the channel.\<close>

definition addressed :: "channel_row \<Rightarrow> string \<Rightarrow> base_url \<Rightarrow> http_request \<Rightarrow> http_request option" where
  "addressed ch model u rq =
     (let h = header_del ''Authorization'' (hr_headers rq) in
      map_option (\<lambda>h. rq\<lparr>hr_scheme := bu_scheme u, hr_host := bu_host u,
          hr_path := join_path (bu_path u) (hr_path rq), hr_headers := h,
          hr_ctx := (hr_ctx rq)\<lparr>cx_channel := Some (c_id ch), cx_provider := Some (c_provider ch),
                                 cx_upstream_model := Some model\<rparr>\<rparr>)
        (case sp_auth (getProvider catalog (c_provider ch)) of
           None \<Rightarrow> Some h | Some s \<Rightarrow> auth_apply s h (c_api_key ch)))"

definition must_retry :: "reply \<Rightarrow> bool" where
  "must_retry rep = (case rep of TransportError _ _ \<Rightarrow> True | Reply r \<Rightarrow> up_status r = 429 \<or> 500 \<le> up_status r)"

text \<open>Of a failed answer up to 4096 bytes are read for the log, and its body is closed.\<close>

definition logged_body :: "reply \<Rightarrow> string" where
  "logged_body rep = (case rep of TransportError _ _ \<Rightarrow> ''''
     | Reply r \<Rightarrow> (case up_text r of None \<Rightarrow> '''' | Some b \<Rightarrow> take maxFailureResponseBodyLength b))"

definition after_failure :: "reply \<Rightarrow> trip \<Rightarrow> trip" where
  "after_failure rep t = (case rep of
      TransportError m timeout \<Rightarrow> t\<lparr>tr_resp := None, tr_err := Some (m, timeout)\<rparr>
    | Reply r \<Rightarrow> t\<lparr>tr_resp := Some (r\<lparr>up_text := None\<rparr>), tr_err := None\<rparr>)"

definition channel_failed :: "channel_row \<Rightarrow> trip \<Rightarrow> trip" where
  "channel_failed ch t = t\<lparr>tr_tried := c_id ch # tr_tried t\<rparr>"

definition send ::
  "upstream_env \<Rightarrow> nat \<Rightarrow> channel_row \<Rightarrow> http_request \<Rightarrow> trip \<Rightarrow> 'r world \<Rightarrow> (trip_result \<times> trip + trip) \<times> 'r world" where
  "send env i ch rq t w =
     (let rep = env_reply env i rq;
          w1 = w\<lparr>w_now := w_now w + env_latency env i\<rparr>;
          t1 = t\<lparr>tr_request := rq, tr_sent := tr_sent t @ [(c_id ch, rq)]\<rparr>
      in if must_retry rep
         then (Inr (channel_failed ch (after_failure rep t1)),
               logChannelFailure (hr_ctx rq) ch rep (logged_body rep)
                 (on_breakers (\<lambda>now. markChannelFailed now (c_id ch)) w1))
         else (Inl (case rep of Reply r \<Rightarrow> Answered r (hr_ctx rq) | TransportError m b \<Rightarrow> TripFailed m b, t1),
               on_breakers (\<lambda>now. markChannelSucceeded now (c_id ch)) w1))"

definition no_channel_text :: "string \<Rightarrow> 'r world \<Rightarrow> string" where
  "no_channel_text model w =
     (if mg_channels (w_manager w) = [] then ''no active channels available''
      else ''no active channels support model: '' @ model)"

definition attempt ::
  "upstream_env \<Rightarrow> http_request \<Rightarrow> nat \<Rightarrow> trip \<Rightarrow> 'r world \<Rightarrow> (trip_result \<times> trip + trip) \<times> 'r world" where
  "attempt env client i t w =
     (let rq = reset_request client (tr_request t);
          model = billing_model (hr_ctx rq);
          caps = required_caps (or_empty (cx_request_type (hr_ctx rq)))
      in case choose_channel model caps (tr_tried t) w of
        (None, w1) \<Rightarrow> (Inl (TripFailed (''no available channels for model '' @ model @ '': '' @ no_channel_text model w) False, t), w1)
      | (Some ch, w1) \<Rightarrow>
          let upstream = resolveUpstreamModelName ch model in
          (case adapted env ch upstream rq of
             Inl RewritePanics \<Rightarrow> (Inl (TripPanics, t), w1)
           | Inl RewriteFails \<Rightarrow> (Inl (TripFailed ''failed to rewrite request via adapter'' False, t), w1)
           | Inr rq1 \<Rightarrow>
               (case parse_base_url (c_base_url ch) of
                  None \<Rightarrow>
                    (Inr (channel_failed ch (t\<lparr>tr_request := rq1,
                            tr_err := Some (''channel '' @ show_int (c_id ch) @ '' has invalid base_url'', False)\<rparr>)),
                     on_breakers (\<lambda>now. markChannelFailed now (c_id ch)) w1)
                | Some u \<Rightarrow>
                    (case addressed ch upstream u rq1 of
                       None \<Rightarrow> (Inl (TripFailed ''failed to apply provider auth'' False, t), w1)
                     | Some rq2 \<Rightarrow> send env i ch rq2 t w1))))"

section \<open>The loop\<close>

definition trip_end :: "trip \<Rightarrow> trip_result" where
  "trip_end t = (case tr_err t of
      Some (m, timeout) \<Rightarrow> TripFailed m timeout
    | None \<Rightarrow> (case tr_resp t of Some r \<Rightarrow> Answered r (hr_ctx (tr_request t)) | None \<Rightarrow> TripPanics))"

text \<open>200 ms before the second attempt, twice as much before every further one, at most 2 s.\<close>

definition retryBackoff :: "nat \<Rightarrow> int" where
  "retryBackoff i = min (2 * 10 ^ 9) (200 * 10 ^ 6 * 2 ^ (i - 1))"

text \<open>\<open>n\<close> attempts are left, the next one is number \<open>i\<close>.\<close>

fun trip_loop ::
  "upstream_env \<Rightarrow> http_request \<Rightarrow> nat \<Rightarrow> nat \<Rightarrow> trip \<Rightarrow> 'r world \<Rightarrow> (trip_result \<times> trip) \<times> 'r world" where
  "trip_loop env client 0 i t w = ((trip_end t, t), w)"
| "trip_loop env client (Suc n) i t w =
     (if 0 < i \<and> env_cancelled env i then ((TripFailed ''context canceled'' False, t), w)
      else
        let w1 = (if 0 < i then w\<lparr>w_now := w_now w + retryBackoff i\<rparr> else w) in
        case attempt env client i t w1 of
          (Inl r, w2) \<Rightarrow> (r, w2)
        | (Inr t2, w2) \<Rightarrow> trip_loop env client n (Suc i) t2 w2)"

definition round_trip :: "upstream_env \<Rightarrow> nat \<Rightarrow> http_request \<Rightarrow> 'r world \<Rightarrow> trip_result \<times> 'r world" where
  "round_trip env maxRetries rq w =
     (case trip_loop env rq (Suc maxRetries) 0 (start_trip rq) w of ((r, t), w1) \<Rightarrow> (r, w1))"

section \<open>An untried channel first\<close>

text \<open>What the retry loop needs of the source of its channels.\<close>

locale channel_selector =
  fixes pick :: "int list \<Rightarrow> 'm \<Rightarrow> 'c option \<times> 'm"
    and key :: "'c \<Rightarrow> int"
    and ready :: "'m \<Rightarrow> 'c \<Rightarrow> bool"
  assumes pick_new: "pick excl m = (Some ch, m') \<Longrightarrow> key ch \<notin> set excl"
    and pick_ready: "ready m ch \<Longrightarrow> key ch \<notin> set excl \<Longrightarrow> \<exists>ch' m'. pick excl m = (Some ch', m')"
begin

lemma untried_first:
  assumes "ready m ch" "key ch \<notin> set excl"
  shows "\<exists>ch' m'. with_fallback pick fallback excl m = (Some ch', m') \<and> key ch' \<notin> set excl"
  using pick_ready [OF assms] pick_new by (fastforce simp: with_fallback_def)

lemma untried_or_none:
  assumes "with_fallback pick fallback excl m = (Some ch, m')"
  shows "key ch \<notin> set excl \<or> (\<exists>m1. pick excl m = (None, m1) \<and> fallback m1 = (Some ch, m'))"
  using assms pick_new by (auto simp: with_fallback_def split: prod.splits option.splits)

end

definition needs_async :: "capabilities \<Rightarrow> bool" where
  "needs_async req \<longleftrightarrow> (cap_image req \<or> cap_video req) \<and> cap_async_task req"

definition needed_caps :: "capabilities \<Rightarrow> capabilities" where
  "needed_caps req = (if cap_image req \<or> cap_video req then req else no_caps)"

lemma pick_untried_eq: "pick_untried now model req excl m = getNextChannel catalog now model (needs_async req) (needed_caps req) excl m"
  by (simp add: pick_untried_def needs_async_def needed_caps_def getNextChannelForCapabilitiesExcluding_def
      getNextChannelExcluding_def)

lemma pick_any_eq: "pick_any now model req = pick_untried now model req []"
  by (rule ext) (simp add: pick_any_def pick_untried_def getNextChannelForCapabilitiesExcluding_def
      getNextChannelExcluding_def getNextChannelForCapabilities_def getNextChannelAny_def)

text \<open>A channel of the pool that is not cooling down and fits the request.\<close>

definition ready_channel :: "string \<Rightarrow> capabilities \<Rightarrow> manager \<Rightarrow> channel_row \<Rightarrow> bool" where
  "ready_channel model req m ch \<longleftrightarrow> ch \<in> set (mg_channels m) \<and> breaker_closed (c_id ch) (mg_breakers m) \<and>
     fits_request catalog model (needs_async req) (needed_caps req) ch"

interpretation pool: channel_selector "pick_untried now model req" c_id "ready_channel model req"
  for now model req
proof
  fix excl m ch m'
  assume "pick_untried now model req excl m = (Some ch, m')"
  then show "c_id ch \<notin> set excl"
    using available_sound chosen_from_available unfolding pick_untried_eq by blast
next
  fix excl m ch
  assume r: "ready_channel model req m ch" "c_id ch \<notin> set excl"
  then have "ch \<in> set (fst (available_channels catalog now model (needs_async req) (needed_caps req) excl
      (mg_channels m) (mg_breakers m)))"
    by (intro available_complete) (simp_all add: ready_channel_def)
  then show "\<exists>ch' m'. pick_untried now model req excl m = (Some ch', m')"
    using r by (auto simp: pick_untried_eq getNextChannel_def Let_def ready_channel_def split: prod.splits)
qed

lemma pick_untried_pool:
  "pick_untried now model req excl m = (a, m') \<Longrightarrow> mg_channels m' = mg_channels m \<and>
     (\<forall>ch. a = Some ch \<longrightarrow> ch \<in> set (mg_channels m))"
proof -
  assume p: "pick_untried now model req excl m = (a, m')"
  show ?thesis
  proof (cases a)
    case None
    with p show ?thesis by (auto simp: pick_untried_eq getNextChannel_def Let_def split: if_splits prod.splits)
  next
    case (Some ch)
    with p have g: "getNextChannel catalog now model (needs_async req) (needed_caps req) excl m = (Some ch, m')"
      by (simp add: pick_untried_eq)
    with Some chosen_from_available [OF g] available_sound show ?thesis by blast
  qed
qed

lemma choose_channel_pool:
  assumes "choose_channel model req excl w = (a, w')"
  shows "w' = w\<lparr>w_manager := w_manager w'\<rparr> \<and> mg_channels (w_manager w') = mg_channels (w_manager w) \<and>
    (\<forall>ch. a = Some ch \<longrightarrow> ch \<in> set (mg_channels (w_manager w)))"
proof -
  obtain m' where c: "with_fallback (pick_untried (w_now w) model req) (pick_any (w_now w) model req) excl (w_manager w) = (a, m')"
    "w' = w\<lparr>w_manager := m'\<rparr>"
    using assms by (auto simp: choose_channel_def on_manager_def split: prod.splits)
  obtain x m1 where p: "pick_untried (w_now w) model req excl (w_manager w) = (x, m1)" by fastforce
  have "mg_channels m' = mg_channels (w_manager w) \<and> (\<forall>ch. a = Some ch \<longrightarrow> ch \<in> set (mg_channels (w_manager w)))"
  proof (cases x)
    case None
    then have "pick_untried (w_now w) model req [] m1 = (a, m')" using c(1) p by (simp add: with_fallback_def pick_any_eq)
    from pick_untried_pool [OF this] pick_untried_pool [OF p] show ?thesis by simp
  next
    case (Some ch)
    with c(1) p pick_untried_pool [OF p] show ?thesis by (simp add: with_fallback_def)
  qed
  with c(2) show ?thesis by simp
qed

text \<open>
  A retry goes to another channel while there is one: as long as some channel that has not
  failed in this request is ready for it, an attempt gets a channel, and one that has not failed.
\<close>

lemma retry_takes_untried:
  assumes "ready_channel model req (w_manager w) ch" "c_id ch \<notin> set tried"
  shows "\<exists>ch' w'. choose_channel model req tried w = (Some ch', w') \<and> c_id ch' \<notin> set tried \<and>
    ch' \<in> set (mg_channels (w_manager w))"
proof -
  obtain ch' m' where "with_fallback (pick_untried (w_now w) model req) (pick_any (w_now w) model req) tried (w_manager w) = (Some ch', m')"
    and new: "c_id ch' \<notin> set tried"
    using pool.untried_first [OF assms] by blast
  then have c: "choose_channel model req tried w = (Some ch', w\<lparr>w_manager := m'\<rparr>)"
    by (simp add: choose_channel_def on_manager_def)
  with choose_channel_pool [OF c] new show ?thesis by blast
qed

lemma retry_takes_untried_witness:
  "\<exists>ch' w'. choose_channel ''gpt-4o'' no_caps [2] ((witness_world [] empty_db [])\<lparr>w_manager := witness_pool\<rparr>) = (Some ch', w') \<and>
    c_id ch' \<notin> {2}"
proof -
  let ?w = "(witness_world [] empty_db [])\<lparr>w_manager := witness_pool\<rparr>"
  have "fits_request catalog ''gpt-4o'' False no_caps (witness_channel 3)" by code_simp
  then have "ready_channel ''gpt-4o'' no_caps (w_manager ?w) (witness_channel 3)"
    by (simp add: ready_channel_def witness_pool_def loadChannels_def init_manager_def breaker_closed_def
        needs_async_def needed_caps_def no_caps_def)
  from retry_takes_untried [OF this, of "[2]"] show ?thesis by (auto simp: witness_channel_def)
qed

section \<open>What is sent\<close>

text \<open>Of the three headers for credentials only the provider's is there, with the channel's key.\<close>

definition carries_key :: "channel_row \<Rightarrow> http_request \<Rightarrow> bool" where
  "carries_key ch q \<longleftrightarrow> (\<exists>s. sp_auth (getProvider catalog (c_provider ch)) = Some s \<and>
     header_get (hr_headers q) (ha_header s) = ha_prefix s @ c_api_key ch \<and>
     (\<forall>k \<in> {''Authorization'', ''x-api-key'', ''x-goog-api-key''}.
        to_lower k \<noteq> to_lower (ha_header s) \<longrightarrow> \<not> header_has (hr_headers q) k))"

lemma provider_has_auth: "\<exists>s. sp_auth (getProvider catalog n) = Some s"
proof -
  have "list_all (\<lambda>p. sp_auth p \<noteq> None) linked_providers" by code_simp
  moreover have "getProvider catalog n \<in> set linked_providers" using catalog_total by blast
  ultimately show ?thesis by (auto simp: list_all_iff)
qed

lemma addressed_carries: "addressed ch model u rq = Some q \<Longrightarrow> carries_key ch q"
  using provider_has_auth [of "c_provider ch"] auth_apply_only
  by (auto simp: addressed_def carries_key_def Let_def)

definition same_pool :: "('r, 'x) world_scheme \<Rightarrow> ('r, 'y) world_scheme \<Rightarrow> bool" where
  "same_pool w w' \<longleftrightarrow> mg_channels (w_manager w') = mg_channels (w_manager w)"

definition sent_ok :: "channel_row list \<Rightarrow> trip \<Rightarrow> bool" where
  "sent_ok chs t \<longleftrightarrow> (\<forall>(cid, q) \<in> set (tr_sent t). \<exists>ch \<in> set chs. c_id ch = cid \<and> carries_key ch q)"

definition closed_ok :: "trip \<Rightarrow> bool" where
  "closed_ok t \<longleftrightarrow> (\<forall>r. tr_resp t = Some r \<longrightarrow> up_text r = None)"

lemma log_pool [simp]: "w_manager (logChannelFailure cx ch rep b w) = w_manager w"
  by (auto simp: logChannelFailure_def db_update_def db_call_def next_fault_eq split: fault.splits option.splits)

lemma breakers_pool [simp]: "mg_channels (w_manager (on_breakers f w)) = mg_channels (w_manager w)"
  by (simp add: on_breakers_def)

lemma send_ok:
  assumes "send env i ch rq t w = (out, w')" "sent_ok chs t" "closed_ok t" "carries_key ch rq" "ch \<in> set chs"
  shows "same_pool w w' \<and> (case out of
      Inl (res, t') \<Rightarrow> sent_ok chs t' \<and> length (tr_sent t') \<le> Suc (length (tr_sent t)) \<and>
        (\<forall>r cx. res = Answered r cx \<longrightarrow> \<not> must_retry (Reply r))
    | Inr t' \<Rightarrow> sent_ok chs t' \<and> closed_ok t' \<and> length (tr_sent t') = Suc (length (tr_sent t)) \<and>
        tr_tried t' = c_id ch # tr_tried t \<and> (tr_resp t' = None \<longrightarrow> tr_err t' \<noteq> None))"
proof (cases "must_retry (env_reply env i rq)")
  case True
  with assms show ?thesis
    by (cases "env_reply env i rq")
      (auto simp: send_def Let_def same_pool_def sent_ok_def closed_ok_def channel_failed_def after_failure_def)
next
  case False
  with assms show ?thesis
    by (cases "env_reply env i rq") (auto simp: send_def Let_def same_pool_def sent_ok_def must_retry_def)
qed

lemma attempt_ok:
  assumes "attempt env client i t w = (out, w')" "sent_ok chs t" "closed_ok t" "chs = mg_channels (w_manager w)"
  shows "same_pool w w' \<and> (case out of
      Inl (res, t') \<Rightarrow> sent_ok chs t' \<and> length (tr_sent t') \<le> Suc (length (tr_sent t)) \<and>
        (\<forall>r cx. res = Answered r cx \<longrightarrow> \<not> must_retry (Reply r))
    | Inr t' \<Rightarrow> sent_ok chs t' \<and> closed_ok t' \<and> length (tr_sent t') \<le> Suc (length (tr_sent t)) \<and>
        (\<exists>ch \<in> set chs. tr_tried t' = c_id ch # tr_tried t) \<and> (tr_resp t' = None \<longrightarrow> tr_err t' \<noteq> None))"
proof -
  let ?rq = "reset_request client (tr_request t)" and ?m = "billing_model (hr_ctx (reset_request client (tr_request t)))"
  obtain c w1 where ch: "choose_channel ?m (required_caps (or_empty (cx_request_type (hr_ctx ?rq)))) (tr_tried t) w = (c, w1)"
    by fastforce
  note pool = choose_channel_pool [OF ch]
  have p1: "same_pool w w1" "mg_channels (w_manager w1) = chs" using pool assms(4) by (simp_all add: same_pool_def)
  show ?thesis
  proof (cases c)
    case None
    with assms ch p1 show ?thesis by (auto simp: attempt_def Let_def)
  next
    case (Some x)
    then have x: "x \<in> set chs" using pool assms(4) by blast
    let ?up = "resolveUpstreamModelName x ?m"
    show ?thesis
    proof (cases "adapted env x ?up ?rq")
      case (Inl e)
      with Some assms ch p1 show ?thesis by (cases e) (auto simp: attempt_def Let_def)
    next
      case (Inr rq1)
      show ?thesis
      proof (cases "parse_base_url (c_base_url x)")
        case None
        with Some Inr assms ch p1 x show ?thesis
          by (auto simp: attempt_def Let_def same_pool_def sent_ok_def closed_ok_def channel_failed_def)
      next
        case (Some u)
        note url = Some
        show ?thesis
        proof (cases "addressed x ?up u rq1")
          case None
          with url \<open>c = Some x\<close> Inr assms ch p1 show ?thesis by (auto simp: attempt_def Let_def)
        next
          case (Some rq2)
          then have "send env i x rq2 t w1 = (out, w')"
            using url \<open>c = Some x\<close> Inr assms(1) ch by (simp add: attempt_def Let_def)
          from send_ok [OF this assms(2,3) addressed_carries [OF Some] x] p1 x show ?thesis
            by (auto simp: same_pool_def split: sum.splits prod.splits)
        qed
      qed
    qed
  qed
qed

lemma trip_loop_ok:
  assumes "trip_loop env client n i t w = ((res, t'), w')" "sent_ok chs t" "closed_ok t"
    "chs = mg_channels (w_manager w)"
  shows "sent_ok chs t' \<and> length (tr_sent t') \<le> length (tr_sent t) + n \<and> same_pool w w' \<and>
    (\<forall>r cx. res = Answered r cx \<longrightarrow> must_retry (Reply r) \<longrightarrow> up_text r = None)"
  using assms
proof (induction n arbitrary: i t w)
  case 0
  then show ?case
    by (auto simp: trip_end_def closed_ok_def same_pool_def split: option.splits)
next
  case (Suc n)
  show ?case
  proof (cases "0 < i \<and> env_cancelled env i")
    case True
    with Suc.prems show ?thesis by (auto simp: same_pool_def)
  next
    case False
    let ?w1 = "if 0 < i then w\<lparr>w_now := w_now w + retryBackoff i\<rparr> else w"
    obtain out w2 where a: "attempt env client i t ?w1 = (out, w2)" by fastforce
    have m: "mg_channels (w_manager ?w1) = chs" using Suc.prems(4) by simp
    note ok = attempt_ok [OF a Suc.prems(2,3) m [symmetric]]
    show ?thesis
    proof (cases out)
      case (Inl r)
      then have "((res, t'), w') = (r, w2)" using Suc.prems(1) a False by (auto simp: Let_def)
      with Inl ok m Suc.prems(4) show ?thesis by (cases r) (auto simp: same_pool_def)
    next
      case (Inr t2)
      then have l: "trip_loop env client n (Suc i) t2 w2 = ((res, t'), w')"
        using Suc.prems(1) a False by (auto simp: Let_def)
      have "sent_ok chs t2" "closed_ok t2" "length (tr_sent t2) \<le> Suc (length (tr_sent t))" "chs = mg_channels (w_manager w2)"
        using ok Inr m by (auto simp: same_pool_def)
      from Suc.IH [OF l this(1,2,4)] this Suc.prems(4) show ?thesis by (auto simp: same_pool_def)
    qed
  qed
qed

text \<open>
  C33. The retry loop ends after at most one request more than the retries allowed, whatever the
  upstreams answer; every request that it sends goes to a channel of the pool with that channel's key
  and none of the caller's credentials; and an answer that it gives back although it asked for a retry
  has a body that can no longer be read.
\<close>

theorem round_trip_bounded:
  assumes "trip_loop env rq (Suc maxRetries) 0 (start_trip rq) w = ((res, t), w')"
  shows "length (tr_sent t) \<le> Suc maxRetries \<and>
    (\<forall>(cid, q) \<in> set (tr_sent t). \<exists>ch \<in> set (mg_channels (w_manager w)). c_id ch = cid \<and> carries_key ch q) \<and>
    (\<forall>r cx. res = Answered r cx \<longrightarrow> must_retry (Reply r) \<longrightarrow> up_text r = None)"
  using trip_loop_ok [OF assms _ _ refl]
  by (simp add: sent_ok_def closed_ok_def start_trip_def)

definition busy_upstream :: upstream_env where
  "busy_upstream = \<lparr>env_cancelled = (\<lambda>_. False), env_latency = (\<lambda>_. 1000),
     env_reply = (\<lambda>i q. if i < 2 then TransportError ''connection refused'' False
        else Reply \<lparr>up_status = 503, up_headers = [], up_text = Some ''busy'', up_reads = [CloseBody]\<rparr>),
     env_net = \<lparr>net_get = (\<lambda>_. None), net_sniff = (\<lambda>_. '''')\<rparr>, env_size = (\<lambda>_. 100)\<rparr>"

definition routed_world :: "keyspace world" where
  "routed_world = (witness_world [] empty_db [])
     \<lparr>w_manager := snd (loadChannels (Some [(witness_channel 2)\<lparr>c_base_url := ''https://a.example/v1'', c_models := ''m1''\<rparr>,
        (witness_channel 3)\<lparr>c_base_url := ''https://b.example'', c_models := ''''\<rparr>]) init_manager)\<rparr>"

theorem round_trip_bounded_witness:
  "\<exists>res t w'. trip_loop busy_upstream ((chat_http ''sk-1'')\<lparr>hr_ctx := witness_ctx\<rparr>) (Suc 2) 0
      (start_trip ((chat_http ''sk-1'')\<lparr>hr_ctx := witness_ctx\<rparr>)) routed_world = ((res, t), w') \<and>
    length (tr_sent t) \<le> 3 \<and> (\<forall>(cid, q) \<in> set (tr_sent t). cid \<in> {2, 3})"
proof -
  let ?rq = "(chat_http ''sk-1'')\<lparr>hr_ctx := witness_ctx\<rparr>"
  obtain res t w' where l: "trip_loop busy_upstream ?rq (Suc 2) 0 (start_trip ?rq) routed_world = ((res, t), w')"
    by (metis prod.collapse)
  have "c_id ` set (mg_channels (w_manager routed_world)) = {2, 3}"
    by (simp add: routed_world_def loadChannels_def witness_channel_def)
  with l round_trip_bounded [OF l] show ?thesis by fastforce
qed

text \<open>The query that an adapter set for one channel stays for the next one.\<close>

lemma query_not_reset: "hr_query (reset_request client rq) = hr_query rq"
  by (simp add: reset_request_def)

end
