(* ===== verification/Proxy.thy ===== *)
theory Proxy
  imports Dispatch
begin

text \<open>
  \<open>NewGatewayProxy\<close> of internal/proxy/reverse_proxy.go: what is done to a request before it is sent,
  to an answer before the client gets it, and to an error of the retry loop; each billing request ends
  in a settlement or in a refund. The reverse proxy of net/http/httputil around it is reduced to the
  order in which it calls these functions.
\<close>

section \<open>Before\<close>

definition director :: "(json \<Rightarrow> int) \<Rightarrow> http_request \<Rightarrow> http_request" where
  "director sz rq =
     (let rq1 = rq\<lparr>hr_headers := header_del ''X-Forwarded-For'' (hr_headers rq)\<rparr> in
      case hr_body rq of
        Body len raw \<Rightarrow>
          let raw' = ensureStreamUsage raw in
          rq1\<lparr>hr_body := Body (if raw' = raw then len else case raw' of JsonBytes j \<Rightarrow> sz j | _ \<Rightarrow> len) raw',
              hr_headers := header_del ''Content-Length'' (hr_headers rq1)\<rparr>
      | _ \<Rightarrow> rq1)"

section \<open>Settlement\<close>

text \<open>Prices as the model has them, or none when it is not found.\<close>

definition no_pricing :: settlement_pricing where
  "no_pricing = \<lparr>pr_input = 0, pr_output = 0, pr_cache_hit = 0, pr_cache_miss = 0, pr_multiplier = f64_one,
     pr_mode = ''token'', pr_request = 0\<rparr>"

definition request_log ::
  "request_ctx \<Rightarrow> int \<times> int \<times> int \<times> int \<Rightarrow> int \<Rightarrow> string \<Rightarrow> int \<Rightarrow> bool \<Rightarrow> bool \<Rightarrow> request_log_request" where
  "request_log cx tokens amount upstream status stream success =
     (case tokens of (p, c, h, m) \<Rightarrow>
      \<lparr>rq_user = coalesce0 (cx_user cx), rq_api_key = coalesce0 (cx_api_key cx),
       rq_channel = coalesce0 (cx_channel cx), rq_provider = or_empty (cx_provider cx),
       rq_type = or_empty (cx_request_type cx), rq_public_model = public_model cx,
       rq_upstream_model = upstream,
       rq_payload = (case cx_payload cx of None \<Rightarrow> NoBytes | Some b \<Rightarrow> b), rq_prompt = wrap32 p,
       rq_completion = wrap32 c, rq_cache_hit = wrap32 h, rq_cache_miss = wrap32 m, rq_amount = amount,
       rq_pre_deducted = coalesce0 (cx_pre_deducted cx), rq_status = wrap32 status,
       rq_request_id = or_empty (cx_request_id cx), rq_stream = stream, rq_success = success\<rparr>)"

definition settlement_of :: "request_ctx \<Rightarrow> int \<times> int \<times> int \<times> int \<Rightarrow> int \<Rightarrow> settlement_request" where
  "settlement_of cx tokens cost =
     (case tokens of (p, c, h, m) \<Rightarrow>
      \<lparr>s_user = coalesce0 (cx_user cx), s_api_key = coalesce0 (cx_api_key cx),
       s_channel = coalesce0 (cx_channel cx), s_model = public_model cx, s_prompt = wrap32 p,
       s_completion = wrap32 c, s_cache_hit = wrap32 h, s_cache_miss = wrap32 m,
       s_pre_deducted = coalesce0 (cx_pre_deducted cx), s_sub_deducted = coalesce0 (cx_sub cx),
       s_grant_deducted = coalesce0 (cx_grant cx), s_cash_deducted = coalesce0 (cx_cash cx),
       s_actual_cost = cost, s_log_type = ''consumption'', s_request_id = or_empty (cx_request_id cx)\<rparr>)"

definition onComplete ::
  "'r redis_api \<Rightarrow> bool \<Rightarrow> bool \<Rightarrow> settlement_pricing \<Rightarrow> request_ctx \<Rightarrow> int \<times> int \<times> int \<times> int \<Rightarrow> 'r world \<Rightarrow> 'r world" where
  "onComplete R logging stream prices cx tokens w =
     (case tokens of (p, c, h, m) \<Rightarrow>
      let cost = computeActualCost prices \<lparr>ut_prompt = p, ut_completion = c, ut_cache_hit = h, ut_cache_miss = m\<rparr>
                   (or_empty (cx_request_type cx)) (coalesce0 (cx_units cx));
          w1 = snd (settle R (settlement_of cx tokens cost) w)
      in if logging
         then enqueueRequestLog (request_log cx tokens cost (or_empty (cx_upstream_model cx)) 200 stream True) w1
         else w1)"

definition give_back :: "'r redis_api \<Rightarrow> request_ctx \<Rightarrow> 'r world \<Rightarrow> 'r world" where
  "give_back R cx w = refund_ctx R (public_model cx) cx (coalesce0 (cx_user cx)) w"

section \<open>After\<close>

definition client_response :: "int \<Rightarrow> headers \<Rightarrow> string option \<Rightarrow> response" where
  "client_response status h body = \<lparr>rs_status = status, rs_headers = h,
     rs_body = (case body of None \<Rightarrow> BadBytes | Some b \<Rightarrow> decode_text b)\<rparr>"

text \<open>An error in the format of OpenAI, its texts quoted as Go does.\<close>

definition quoted_error :: "string \<Rightarrow> string \<Rightarrow> string \<Rightarrow> string" where
  "quoted_error message errType code' =
     (let q = [char_of (34::nat)] in
      ''{'' @ q @ ''error'' @ q @ '':{'' @ q @ ''message'' @ q @ '':'' @ go_quote message @ '','' @ q @ ''type'' @ q @
      '':'' @ go_quote errType @ '','' @ q @ ''code'' @ q @ '':'' @ go_quote code' @ ''}}'')"

definition error_members :: "string \<Rightarrow> (string \<times> json) list option" where
  "error_members body = (case decode_text body of JsonBytes (JObj kvs) \<Rightarrow> Some (map (\<lambda>(k, v). (k, any_value v)) kvs)
     | JsonBytes JNull \<Rightarrow> Some [] | _ \<Rightarrow> None)"

definition translated_failure :: "upstream_response \<Rightarrow> request_ctx \<Rightarrow> string \<Rightarrow> provider_error option" where
  "translated_failure r cx body =
     map_option (\<lambda>p. translate_error p (up_status r) body (error_members body))
       (sp_errors (getProvider catalog (or_empty (cx_provider cx))))"

definition error_answer :: "upstream_response \<Rightarrow> request_ctx \<Rightarrow> 'r world \<Rightarrow> response \<times> 'r world" where
  "error_answer r cx w =
     (case up_text r of
        None \<Rightarrow> (client_response (up_status r) (up_headers r) None, w)
      | Some body \<Rightarrow>
          (case translated_failure r cx body of
             None \<Rightarrow> (client_response (up_status r) (up_headers r) (Some body),
               logModelFailure cx (up_status r) body None (status_text (up_status r)) w)
           | Some e \<Rightarrow>
               let txt = quoted_error (pe_message e) (pe_type e) (pe_code e);
                   h = header_set ''Content-Length'' (show_int (int (length txt)))
                         (header_set ''Content-Type'' ''application/json; charset=utf-8'' (up_headers r))
               in (client_response (pe_status e) h (Some txt),
                   logModelFailure cx (pe_status e) txt (Some e) (pe_message e) w)))"

definition failed_answer ::
  "'r redis_api \<Rightarrow> bool \<Rightarrow> upstream_response \<Rightarrow> request_ctx \<Rightarrow> 'r world \<Rightarrow> response \<times> 'r world" where
  "failed_answer R logging r cx w =
     (case error_answer r cx w of
        (resp, w1) \<Rightarrow>
          let w2 = give_back R cx w1 in
          (resp, if logging
                 then enqueueRequestLog (request_log cx (coalesce0 (cx_prompt_tokens cx), 0, 0, 0) 0
                        (or_empty (cx_upstream_model cx)) (rs_status resp) False False) w2
                 else w2))"

text \<open>The usage of an answer that is not a stream.\<close>

definition answer_tokens :: "request_ctx \<Rightarrow> string \<Rightarrow> int \<times> int \<times> int \<times> int" where
  "answer_tokens cx body =
     (let prompt = coalesce0 (cx_prompt_tokens cx) in
      case struct_members (decode_text body) of
        None \<Rightarrow> (prompt, 0, 0, 0)
      | Some kvs \<Rightarrow>
          (case ptr_field decode_usage kvs ''usage'' of
             Some (Some u) \<Rightarrow>
               let p = (if 0 < us_prompt u then us_prompt u else prompt) in
               (case cache_counts u p of
                  None \<Rightarrow> (p, us_completion u, 0, 0)
                | Some (h, m) \<Rightarrow> (p, us_completion u, h, m))
           | _ \<Rightarrow> (prompt, 0, 0, 0)))"

definition is_stream :: "upstream_response \<Rightarrow> bool" where
  "is_stream r \<longleftrightarrow> contains (header_get (up_headers r) ''Content-Type'') ''text/event-stream''"

text \<open>The calls of the callback that reading the stream to its end makes.\<close>

definition stream_calls ::
  "tokenizer \<Rightarrow> request_ctx \<Rightarrow> upstream_response \<Rightarrow> int \<Rightarrow> (int \<times> int \<times> int \<times> int) list" where
  "stream_calls tok cx r now =
     (let model = or_default (or_empty (cx_upstream_model cx)) (public_model cx) in
      case sp_request (getProvider catalog (or_empty (cx_provider cx))) of
        None \<Rightarrow> []
      | Some adapter \<Rightarrow> tl_calls (tally_run now adapter (tok model) (up_reads r)
                                  (newTallyReader (coalesce0 (cx_prompt_tokens cx)))))"

definition modifyResponse ::
  "'r redis_api \<Rightarrow> tokenizer \<Rightarrow> bool \<Rightarrow> upstream_response \<Rightarrow> request_ctx \<Rightarrow> 'r world \<Rightarrow> response \<times> 'r world" where
  "modifyResponse R tok logging r cx w =
     (if \<not> or_false (cx_billing cx) then (client_response (up_status r) (up_headers r) (up_text r), w)
      else if up_status r \<noteq> 200 then failed_answer R logging r cx w
      else case getModel (public_model cx) w of
        (m, w1) \<Rightarrow>
          let prices = (case m of None \<Rightarrow> no_pricing | Some m \<Rightarrow> pricing_of m) in
          if is_stream r
          then (client_response 200 (up_headers r) None,
                fold (onComplete R logging True prices cx) (stream_calls tok cx r (w_now w1)) w1)
          else case up_text r of
                 Some body \<Rightarrow> (client_response 200 (up_headers r) (Some body),
                   onComplete R logging False prices cx (answer_tokens cx body) w1)
               | None \<Rightarrow> (client_response 200 (up_headers r) None, give_back R cx w1))"

text \<open>The handler of errors sees the context that the request had before the retry loop.\<close>

definition errorHandler ::
  "'r redis_api \<Rightarrow> bool \<Rightarrow> string \<Rightarrow> bool \<Rightarrow> request_ctx \<Rightarrow> 'r world \<Rightarrow> response \<times> 'r world" where
  "errorHandler R logging err timeout cx w =
     (let w1 = (if or_false (cx_billing cx) then give_back R cx w else w);
          w2 = (if or_false (cx_billing cx) \<and> logging
                then enqueueRequestLog (request_log cx (coalesce0 (cx_prompt_tokens cx), 0, 0, 0) 0 '''' 0 False False) w1
                else w1);
          (status, errType, errCode, msg) =
            (if timeout then (504, ''timeout'', ''upstream_timeout'', ''Gateway Timeout: '' @ err)
             else (502, ''server_error'', ''bad_gateway'', ''Bad Gateway: '' @ err))
      in (client_response status [(''content-type'', ''application/json; charset=utf-8'')]
            (Some (quoted_error msg errType errCode)),
          logModelFailure cx status '''' None msg w2))"

text \<open>A panic closes the connection.\<close>

definition connection_closed :: response where
  "connection_closed = \<lparr>rs_status = 0, rs_headers = [], rs_body = NoBytes\<rparr>"

definition gateway_proxy ::
  "'r redis_api \<Rightarrow> tokenizer \<Rightarrow> bool \<Rightarrow> upstream_env \<Rightarrow> 'r handler" where
  "gateway_proxy R tok logging env rq w =
     (case round_trip env 2 (director (env_size env) rq) w of
        (Answered r cx, w1) \<Rightarrow> modifyResponse R tok logging r cx w1
      | (TripFailed err timeout, w1) \<Rightarrow> errorHandler R logging err timeout (hr_ctx rq) w1
      | (TripPanics, w1) \<Rightarrow> (connection_closed, w1))"

section \<open>One billing record per request\<close>

definition billing_tasks :: "task list \<Rightarrow> settlement_request list" where
  "billing_tasks q = concat (map (\<lambda>t. case t of TaskRecordBillingLog (Some s) \<Rightarrow> [s] | _ \<Rightarrow> []) q)"

lemma billing_tasks_append [simp]:
  "billing_tasks (q @ [TaskRecordBillingLog (Some s)]) = billing_tasks q @ [s]"
  "billing_tasks (q @ [TaskRecordRequestLog l]) = billing_tasks q"
  by (simp_all add: billing_tasks_def)

text \<open>What the retry loop keeps of the context and of the world.\<close>

definition same_charge :: "request_ctx \<Rightarrow> request_ctx \<Rightarrow> bool" where
  "same_charge cx cx' \<longleftrightarrow> cx_user cx' = cx_user cx \<and> cx_request_id cx' = cx_request_id cx \<and>
     cx_billing cx' = cx_billing cx \<and> cx_pre_deducted cx' = cx_pre_deducted cx \<and> cx_sub cx' = cx_sub cx \<and>
     cx_grant cx' = cx_grant cx \<and> cx_cash cx' = cx_cash cx"

definition quiet :: "'r world \<Rightarrow> 'r world \<Rightarrow> bool" where
  "quiet w w' \<longleftrightarrow> w_faults w' = [] \<and> w_queue w' = w_queue w \<and> w_redis w' = w_redis w"

lemma quiet_trans: "quiet w1 w2 \<Longrightarrow> quiet w2 w3 \<Longrightarrow> quiet w1 w3"
  by (simp add: quiet_def)

lemma quiet_update: "w_faults w = [] \<Longrightarrow> quiet w (snd (db_update f w))"
  by (simp add: quiet_def split: option.splits)

lemma quiet_steps:
  assumes "w_faults w = []"
  shows "quiet w (logModelFailure cx s b e m w)" "quiet w (logChannelFailure cx ch rep b w)"
    "quiet w (on_breakers g w)" "quiet w (w\<lparr>w_now := t\<rparr>)" "quiet w (snd (getModel n w))"
    "choose_channel m req ex w = (a, w') \<Longrightarrow> quiet w w'"
  using assms
  by (auto simp: logModelFailure_def logChannelFailure_def quiet_update quiet_def on_breakers_def getModel_def
      loadModel_def choose_channel_def on_manager_def split: option.splits prod.splits)

definition plain_json :: "http_request \<Rightarrow> bool" where
  "plain_json rq \<longleftrightarrow> (\<exists>len kvs. hr_body rq = Body len (JsonBytes (JObj kvs)))"

lemma rewrite_keeps_ctx:
  "rewriteRequest net sz a model rq = Inr rq' \<Longrightarrow> hr_ctx rq' = hr_ctx rq"
  by (auto simp: rewriteRequest_def openai_rewrite_def anthropic_rewrite_def gemini_rewrite_def with_body_def
      split: option.splits request_adapter.splits if_splits request_body.splits sum.splits body_error.splits
        raw_bytes.splits)

lemma plain_rewrite: "plain_json rq \<Longrightarrow> rewriteRequest net sz (Some a) model rq \<noteq> Inl RewritePanics"
  by (auto simp: plain_json_def rewriteRequest_def openai_rewrite_def anthropic_rewrite_def gemini_rewrite_def
      chat_of_def rewriteRequestBodyModel_def decode_map_def
      split: request_adapter.splits if_splits raw_bytes.splits option.splits)

lemma plain_adapted:
  assumes "plain_json rq"
  shows "adapted env ch model rq \<noteq> Inl RewritePanics"
    "adapted env ch model rq = Inr rq' \<Longrightarrow> hr_ctx rq' = hr_ctx rq"
proof -
  obtain a where "sp_request (getProvider catalog (c_provider ch)) = Some a" using catalog_total by blast
  then show "adapted env ch model rq \<noteq> Inl RewritePanics"
    using plain_rewrite [OF assms] by (simp add: adapted_def)
  show "adapted env ch model rq = Inr rq' \<Longrightarrow> hr_ctx rq' = hr_ctx rq"
    by (auto simp: adapted_def dest: rewrite_keeps_ctx split: if_splits)
qed

lemma reset_facts [simp]:
  "plain_json (reset_request client rq) = plain_json client" "hr_ctx (reset_request client rq) = hr_ctx rq"
  by (auto simp: plain_json_def reset_request_def split: request_body.splits)

text \<open>An answer of the environment, or one that asked for a retry.\<close>

definition genuine :: "upstream_env \<Rightarrow> upstream_response \<Rightarrow> bool" where
  "genuine env r \<longleftrightarrow> must_retry (Reply r) \<or> (\<exists>i q. env_reply env i q = Reply r)"

definition trip_ok :: "upstream_env \<Rightarrow> request_ctx \<Rightarrow> trip \<Rightarrow> bool" where
  "trip_ok env cx t \<longleftrightarrow> same_charge cx (hr_ctx (tr_request t)) \<and> (\<forall>r. tr_resp t = Some r \<longrightarrow> genuine env r)"

definition result_ok :: "upstream_env \<Rightarrow> request_ctx \<Rightarrow> trip_result \<Rightarrow> bool" where
  "result_ok env cx res = (case res of Answered r cx' \<Rightarrow> same_charge cx cx' \<and> genuine env r
     | TripFailed m b \<Rightarrow> True | TripPanics \<Rightarrow> False)"

lemma send_quiet:
  assumes "send env i ch rq t w = (out, w')" "trip_ok env cx t" "same_charge cx (hr_ctx rq)" "w_faults w = []"
  shows "quiet w w' \<and> (case out of Inl (res, t') \<Rightarrow> result_ok env cx res
    | Inr t' \<Rightarrow> trip_ok env cx t' \<and> (tr_resp t' = None \<longrightarrow> tr_err t' \<noteq> None))"
proof -
  let ?w1 = "w\<lparr>w_now := w_now w + env_latency env i\<rparr>"
  have q1: "quiet w ?w1" by (rule quiet_steps(4) [OF assms(4)])
  then have f1: "w_faults ?w1 = []" using assms(4) by simp
  have qb: "quiet w (on_breakers g ?w1)" for g using quiet_trans [OF q1 quiet_steps(3) [OF f1]] .
  then have fb: "w_faults (on_breakers g ?w1) = []" for g by (simp add: quiet_def)
  have ql: "quiet w (logChannelFailure cx' ch rep b (on_breakers g ?w1))" for cx' rep b g
    using quiet_trans [OF qb quiet_steps(2) [OF fb]] .
  show ?thesis
  proof (cases "must_retry (env_reply env i rq)")
    case True
    with assms ql show ?thesis
      by (cases "env_reply env i rq")
        (auto simp: send_def Let_def trip_ok_def channel_failed_def after_failure_def genuine_def must_retry_def)
  next
    case False
    have "genuine env r" if "env_reply env i rq = Reply r" for r using that by (auto simp: genuine_def)
    with False assms qb show ?thesis
      by (cases "env_reply env i rq") (auto simp: send_def Let_def result_ok_def must_retry_def)
  qed
qed

lemma attempt_quiet:
  assumes "attempt env client i t w = (out, w')" "plain_json client" "trip_ok env cx t" "w_faults w = []"
  shows "quiet w w' \<and> (case out of Inl (res, t') \<Rightarrow> result_ok env cx res
    | Inr t' \<Rightarrow> trip_ok env cx t' \<and> (tr_resp t' = None \<longrightarrow> tr_err t' \<noteq> None))"
proof -
  let ?rq = "reset_request client (tr_request t)" and ?m = "billing_model (hr_ctx (reset_request client (tr_request t)))"
  obtain c w1 where ch: "choose_channel ?m (required_caps (or_empty (cx_request_type (hr_ctx ?rq)))) (tr_tried t) w = (c, w1)"
    by fastforce
  have q: "quiet w w1" by (rule quiet_steps(6) [OF assms(4) ch])
  then have f1: "w_faults w1 = []" by (simp add: quiet_def)
  have pj: "plain_json ?rq" using assms(2) by simp
  show ?thesis
  proof (cases c)
    case None
    with assms(1) ch q show ?thesis by (auto simp: attempt_def Let_def result_ok_def)
  next
    case (Some x)
    note x = Some
    let ?up = "resolveUpstreamModelName x ?m"
    show ?thesis
    proof (cases "adapted env x ?up ?rq")
      case (Inl e)
      with x assms(1) ch q plain_adapted(1) [OF pj] show ?thesis
        by (cases e) (auto simp: attempt_def Let_def result_ok_def)
    next
      case (Inr rq1)
      have c1: "same_charge cx (hr_ctx rq1)" using plain_adapted(2) [OF pj Inr] assms(3) by (simp add: trip_ok_def)
      show ?thesis
      proof (cases "parse_base_url (c_base_url x)")
        case None
        with x Inr assms ch q c1 quiet_trans [OF q quiet_steps(3) [OF f1]] show ?thesis
          by (auto simp: attempt_def Let_def trip_ok_def channel_failed_def)
      next
        case (Some u)
        note url = Some
        show ?thesis
        proof (cases "addressed x ?up u rq1")
          case None
          with url x Inr assms(1) ch q show ?thesis by (auto simp: attempt_def Let_def result_ok_def)
        next
          case (Some rq2)
          then have s: "send env i x rq2 t w1 = (out, w')"
            using url x Inr assms(1) ch by (simp add: attempt_def Let_def)
          have "same_charge cx (hr_ctx rq2)" using Some c1 by (auto simp: addressed_def Let_def same_charge_def)
          from send_quiet [OF s assms(3) this f1] quiet_trans [OF q] show ?thesis by blast
        qed
      qed
    qed
  qed
qed

lemma trip_loop_quiet:
  assumes "trip_loop env client n i t w = ((res, t'), w')" "plain_json client" "trip_ok env cx t" "w_faults w = []"
    "n = 0 \<longrightarrow> tr_resp t = None \<longrightarrow> tr_err t \<noteq> None"
  shows "quiet w w' \<and> result_ok env cx res"
  using assms
proof (induction n arbitrary: i t w)
  case 0
  then show ?case by (auto simp: trip_end_def trip_ok_def result_ok_def quiet_def split: option.splits)
next
  case (Suc n)
  show ?case
  proof (cases "0 < i \<and> env_cancelled env i")
    case True
    with Suc.prems show ?thesis by (auto simp: result_ok_def quiet_def)
  next
    case False
    let ?w1 = "if 0 < i then w\<lparr>w_now := w_now w + retryBackoff i\<rparr> else w"
    have q1: "quiet w ?w1" "w_faults ?w1 = []" using Suc.prems(4) by (simp_all add: quiet_def)
    obtain out w2 where a: "attempt env client i t ?w1 = (out, w2)" by fastforce
    note ok = attempt_quiet [OF a Suc.prems(2,3) q1(2)]
    then have q2: "quiet w w2" using quiet_trans [OF q1(1)] by blast
    show ?thesis
    proof (cases out)
      case (Inl r)
      then have "((res, t'), w') = (r, w2)" using Suc.prems(1) a False by (auto simp: Let_def)
      with Inl ok q2 show ?thesis by (cases r) auto
    next
      case (Inr t2)
      then have l: "trip_loop env client n (Suc i) t2 w2 = ((res, t'), w')"
        using Suc.prems(1) a False by (auto simp: Let_def)
      have "trip_ok env cx t2" "w_faults w2 = []" "n = 0 \<longrightarrow> tr_resp t2 = None \<longrightarrow> tr_err t2 \<noteq> None"
        using ok Inr q2 by (auto simp: quiet_def)
      from Suc.IH [OF l Suc.prems(2) this] quiet_trans [OF q2] show ?thesis by blast
    qed
  qed
qed

lemma settle_redis_quiet: "w_faults w = [] \<Longrightarrow> w_queue (settle_redis R req w) = w_queue w \<and> w_faults (settle_redis R req w) = []"
  by (auto simp: settle_redis_def settle_policy_def Let_def split: option.splits prod.splits)

lemma settle_enqueues:
  "w_faults w = [] \<Longrightarrow> w_faults (snd (settle R req w)) = [] \<and>
     w_queue (snd (settle R req w)) = w_queue w @ [TaskRecordBillingLog (Some req)]"
  using settle_redis_quiet [of w R req] by (simp add: settle_def Let_def)

lemma request_log_quiet:
  "w_faults w = [] \<Longrightarrow> w_faults (enqueueRequestLog l w) = [] \<and>
     billing_tasks (w_queue (enqueueRequestLog l w)) = billing_tasks (w_queue w)"
  by (simp add: enqueueRequestLog_def)

lemma complete_records:
  assumes "w_faults w = []"
  shows "w_faults (onComplete R logging stream prices cx ts w) = [] \<and>
    (\<exists>cost. billing_tasks (w_queue (onComplete R logging stream prices cx ts w)) =
       billing_tasks (w_queue w) @ [settlement_of cx ts cost])"
  using settle_enqueues [OF assms] request_log_quiet
  by (cases ts) (auto simp: onComplete_def Let_def)

text \<open>The record of a refund in full.\<close>

definition refund_entry :: "request_ctx \<Rightarrow> string \<Rightarrow> settlement_request" where
  "refund_entry cx model = refund_record (coalesce0 (cx_pre_deducted cx))
     \<lparr>d_sub = coalesce0 (cx_sub cx), d_grant = coalesce0 (cx_grant cx), d_cash = coalesce0 (cx_cash cx)\<rparr>
     (refund_request model cx (coalesce0 (cx_user cx)))"

lemma give_back_records:
  assumes "w_faults w = []" "0 < coalesce0 (cx_pre_deducted cx)"
  shows "w_faults (give_back R cx w) = [] \<and>
    billing_tasks (w_queue (give_back R cx w)) = billing_tasks (w_queue w) @ [refund_entry cx (public_model cx)]"
  using assms by (simp add: give_back_def refund_ctx_def refund_def refund_entry_def Let_def)

text \<open>The record belongs to the request and carries what was deducted for it.\<close>

definition record_for :: "request_ctx \<Rightarrow> settlement_request \<Rightarrow> bool" where
  "record_for cx s \<longleftrightarrow> s_user s = coalesce0 (cx_user cx) \<and> s_request_id s = or_empty (cx_request_id cx) \<and>
     s_pre_deducted s = coalesce0 (cx_pre_deducted cx) \<and> s_sub_deducted s = coalesce0 (cx_sub cx) \<and>
     s_grant_deducted s = coalesce0 (cx_grant cx) \<and> s_cash_deducted s = coalesce0 (cx_cash cx)"

lemma record_for_entries:
  "same_charge cx cx' \<Longrightarrow> record_for cx (refund_entry cx' m)"
  "same_charge cx cx' \<Longrightarrow> record_for cx (settlement_of cx' ts cost)"
  "s_log_type (refund_entry cx' m) = ''refund''" "s_actual_cost (refund_entry cx' m) = 0"
  "s_log_type (settlement_of cx' ts cost) = ''consumption''"
  by (auto simp: record_for_def refund_entry_def refund_record_def refund_request_def settlement_of_def
      same_charge_def split: prod.splits)

text \<open>The outcome of a request: one more record, of one of the two kinds.\<close>

definition recorded_once :: "request_ctx \<Rightarrow> 'r world \<Rightarrow> response \<times> 'r world \<Rightarrow> bool" where
  "recorded_once cx w out \<longleftrightarrow> (\<exists>s. billing_tasks (w_queue (snd out)) = billing_tasks (w_queue w) @ [s] \<and>
     record_for cx s \<and> (s_log_type s = ''refund'' \<and> s_actual_cost s = 0 \<or>
       s_log_type s = ''consumption'' \<and> rs_status (fst out) = 200))"

lemma failed_answer_recorded:
  assumes "w_faults w = []" "same_charge cx cx'" "0 < coalesce0 (cx_pre_deducted cx)"
  shows "recorded_once cx w (failed_answer R logging r cx' w)"
proof -
  obtain resp w1 where p: "error_answer r cx' w = (resp, w1)" by fastforce
  have q: "quiet w w1"
    using p quiet_steps(1) [OF assms(1)] assms(1)
    by (auto simp: error_answer_def Let_def quiet_def split: option.splits)
  then have g: "w_faults (give_back R cx' w1) = []"
    "billing_tasks (w_queue (give_back R cx' w1)) = billing_tasks (w_queue w) @ [refund_entry cx' (public_model cx')]"
    using give_back_records [of w1 cx' R] assms(2,3) by (simp_all add: quiet_def same_charge_def)
  show ?thesis
    using p g request_log_quiet [OF g(1)] record_for_entries(1) [OF assms(2)] record_for_entries(3,4)
    by (auto simp: recorded_once_def failed_answer_def Let_def)
qed

lemma answer_recorded:
  assumes "w_faults w = []" "same_charge cx cx'" "0 < coalesce0 (cx_pre_deducted cx)" "cx_billing cx = Some True"
    and "genuine env r" "\<And>i q r. env_reply env i q = Reply r \<Longrightarrow> list_ex ends_stream (up_reads r)"
  shows "recorded_once cx w (modifyResponse R tok logging r cx' w)"
proof (cases "up_status r = 200")
  case False
  with assms(2,4) have "modifyResponse R tok logging r cx' w = failed_answer R logging r cx' w"
    by (simp add: modifyResponse_def same_charge_def)
  with failed_answer_recorded [OF assms(1-3)] show ?thesis by simp
next
  case True
  then have ends: "list_ex ends_stream (up_reads r)" using assms(5,6) by (auto simp: genuine_def must_retry_def)
  obtain m w1 where g: "getModel (public_model cx') w = (m, w1)" by fastforce
  then have q: "quiet w w1" using quiet_steps(5) [OF assms(1), of "public_model cx'"] by simp
  let ?p = "case m of None \<Rightarrow> no_pricing | Some m \<Rightarrow> pricing_of m"
  have b: "or_false (cx_billing cx')" using assms(2,4) by (simp add: same_charge_def)
  have fin: "recorded_once cx w (client_response 200 h body, onComplete R logging st ?p cx' ts w1)" for h body st ts
  proof -
    obtain cost where "billing_tasks (w_queue (onComplete R logging st ?p cx' ts w1)) =
        billing_tasks (w_queue w) @ [settlement_of cx' ts cost]"
      using complete_records [of w1 R logging st ?p cx' ts] q by (auto simp: quiet_def)
    with record_for_entries(2) [OF assms(2)] record_for_entries(5) show ?thesis
      unfolding recorded_once_def by (intro exI [of _ "settlement_of cx' ts cost"]) (simp add: client_response_def)
  qed
  show ?thesis
  proof (cases "is_stream r")
    case True
    obtain a where a: "sp_request (getProvider catalog (or_empty (cx_provider cx'))) = Some a"
      using catalog_total by blast
    obtain ts where "stream_calls tok cx' r (w_now w1) = [ts]"
      using stream_calls_once [OF ends, of "newTallyReader (coalesce0 (cx_prompt_tokens cx'))" "w_now w1" a
          "tok (or_default (or_empty (cx_upstream_model cx')) (public_model cx'))"] a
      by (auto simp: stream_calls_def newTallyReader_def)
    with True \<open>up_status r = 200\<close> g b fin show ?thesis by (simp add: modifyResponse_def)
  next
    case False
    show ?thesis
    proof (cases "up_text r")
      case None
      have "recorded_once cx w (client_response 200 (up_headers r) None, give_back R cx' w1)"
        using give_back_records [of w1 cx' R] q assms(2,3) record_for_entries(1) [OF assms(2)] record_for_entries(3,4)
        by (auto simp: recorded_once_def quiet_def same_charge_def)
      with None False \<open>up_status r = 200\<close> g b show ?thesis by (simp add: modifyResponse_def)
    qed (use False \<open>up_status r = 200\<close> g b fin in \<open>simp add: modifyResponse_def\<close>)
  qed
qed

lemma error_recorded:
  assumes "w_faults w = []" "0 < coalesce0 (cx_pre_deducted cx)" "cx_billing cx = Some True"
  shows "recorded_once cx w (errorHandler R logging err timeout cx w)"
proof -
  let ?b = "give_back R cx w"
  let ?l = "request_log cx (coalesce0 (cx_prompt_tokens cx), 0, 0, 0) 0 '''' 0 False False"
  let ?w2 = "if logging then enqueueRequestLog ?l ?b else ?b"
  note g = give_back_records [OF assms(1,2), of R]
  have w2: "w_faults ?w2 = []" "billing_tasks (w_queue ?w2) = billing_tasks (w_queue w) @ [refund_entry cx (public_model cx)]"
    using g request_log_quiet [of ?b ?l] by auto
  have "w_queue (logModelFailure cx s b e m ?w2) = w_queue ?w2" for s b e m
    using quiet_steps(1) [OF w2(1)] by (simp add: quiet_def)
  then have "billing_tasks (w_queue (snd (errorHandler R logging err timeout cx w))) =
      billing_tasks (w_queue w) @ [refund_entry cx (public_model cx)]"
    using w2(2) assms(3) by (simp add: errorHandler_def Let_def)
  then show ?thesis using record_for_entries(1) [of cx cx] record_for_entries(3,4)
    by (auto simp: recorded_once_def same_charge_def)
qed

text \<open>A charged request that reaches the proxy is recorded once, whatever the upstreams do.\<close>

lemma proxy_records_once:
  assumes "w_faults w = []" "cx_billing (hr_ctx rq) = Some True" "plain_json rq"
    and pos: "0 < coalesce0 (cx_pre_deducted (hr_ctx rq))"
    and "\<And>i q r. env_reply env i q = Reply r \<Longrightarrow> list_ex ends_stream (up_reads r)"
  shows "recorded_once (hr_ctx rq) w (gateway_proxy R tok logging env rq w)"
proof -
  let ?rq = "director (env_size env) rq"
  have ctx: "hr_ctx ?rq = hr_ctx rq" using assms(3) by (auto simp: plain_json_def director_def Let_def)
  have plain: "plain_json ?rq" using assms(3) by (auto simp: director_def plain_json_def ensureStreamUsage_def Let_def)
  obtain res t w1 where l: "trip_loop env ?rq (Suc 2) 0 (start_trip ?rq) w = ((res, t), w1)"
    by (metis prod.collapse)
  have "trip_ok env (hr_ctx rq) (start_trip ?rq)" by (simp add: trip_ok_def start_trip_def same_charge_def ctx)
  from trip_loop_quiet [OF l plain this assms(1)]
  have q: "quiet w w1" and ok: "result_ok env (hr_ctx rq) res" by simp_all
  then have f1: "w_faults w1 = []" and q1: "w_queue w1 = w_queue w" by (simp_all add: quiet_def)
  have trip: "round_trip env 2 ?rq w = (res, w1)" using l by (simp add: round_trip_def)
  have "recorded_once (hr_ctx rq) w1 (gateway_proxy R tok logging env rq w)"
  proof (cases res)
    case (Answered r cx)
    with ok answer_recorded [OF f1 _ pos assms(2), of cx env r] assms(5) trip show ?thesis
      by (simp add: gateway_proxy_def result_ok_def)
  next
    case (TripFailed err timeout)
    with error_recorded [OF f1 pos assms(2)] trip show ?thesis by (simp add: gateway_proxy_def)
  qed (use ok in \<open>simp add: result_ok_def\<close>)
  then show ?thesis using q1 by (simp add: recorded_once_def)
qed

text \<open>
  Every billing request that reaches the proxy is recorded once. Whatever the upstreams do, and
  however a stream of theirs is read and closed, exactly one billing task is queued for it, with its
  request id and what was deducted for it in total and per pool: a refund that charges nothing, or the
  settlement of an answer with status 200. (Streams end or are closed, and nothing of the gateway's own
  fails.)
\<close>

lemma proxy_settles_or_refunds:
  assumes "w_faults w = []" "cx_billing (hr_ctx rq) = Some True" "hr_body rq = Body len (JsonBytes (JObj kvs))"
    and "cx_pre_deducted (hr_ctx rq) = Some cost" "0 < cost"
    and "\<forall>i q r. env_reply env i q = Reply r \<longrightarrow> list_ex ends_stream (up_reads r)"
  shows "\<exists>s. billing_tasks (w_queue (snd (gateway_proxy R tok logging env rq w))) = billing_tasks (w_queue w) @ [s] \<and>
    s_request_id s = or_empty (cx_request_id (hr_ctx rq)) \<and> s_user s = coalesce0 (cx_user (hr_ctx rq)) \<and>
    s_pre_deducted s = cost \<and> s_sub_deducted s = coalesce0 (cx_sub (hr_ctx rq)) \<and>
    s_grant_deducted s = coalesce0 (cx_grant (hr_ctx rq)) \<and> s_cash_deducted s = coalesce0 (cx_cash (hr_ctx rq)) \<and>
    (s_log_type s = ''refund'' \<and> s_actual_cost s = 0 \<or>
     s_log_type s = ''consumption'' \<and> rs_status (fst (gateway_proxy R tok logging env rq w)) = 200)"
  using proxy_records_once [of w rq env R tok logging] assms
  by (auto simp: plain_json_def recorded_once_def record_for_def)

lemma proxy_settles_or_refunds_witness:
  "\<exists>s. billing_tasks (w_queue (snd (gateway_proxy mem_redis length_tokenizer True busy_upstream
      ((chat_http ''sk-1'')\<lparr>hr_ctx := witness_ctx\<rparr>) routed_world))) = [s] \<and> s_request_id s = ''r1'' \<and> s_pre_deducted s = 60"
proof -
  let ?rq = "(chat_http ''sk-1'')\<lparr>hr_ctx := witness_ctx\<rparr>"
  have w: "w_faults routed_world = []" "billing_tasks (w_queue routed_world) = []"
    by (simp_all add: routed_world_def billing_tasks_def)
  have cx: "cx_billing (hr_ctx ?rq) = Some True" "cx_pre_deducted (hr_ctx ?rq) = Some 60"
    "cx_request_id (hr_ctx ?rq) = Some ''r1''"
    by (simp_all add: witness_ctx_def)
  obtain len kvs where b: "hr_body ?rq = Body len (JsonBytes (JObj kvs))" by (simp add: chat_http_def)
  have e: "\<forall>i q r. env_reply busy_upstream i q = Reply r \<longrightarrow> list_ex ends_stream (up_reads r)"
    by (auto simp: busy_upstream_def)
  show ?thesis
    using proxy_settles_or_refunds [where env = busy_upstream and R = mem_redis and tok = length_tokenizer and logging = True,
      OF w(1) cx(1) b cx(2) _ e] w(2) cx(3) by auto
qed

text \<open>
  The escapes of \<open>%q\<close> are Go's: a control character in an upstream's message makes the answer a text
  that is not JSON.
\<close>

lemma error_text_malformed:
  "decode_text (quoted_error [char_of (1::nat)] ''server_error'' ''bad_gateway'') = BadBytes"
  by code_simp

end
