(* ===== verification/Async.thy ===== *)
theory Async
  imports Proxy
begin

text \<open>
  Asynchronous tasks: the calls to the upstream (internal/provider/openai/async.go) and the handlers
  that create, poll and cancel a task (internal/api/gateway/async_tasks.go). A task is billed when it
  reaches a terminal status.
\<close>

section \<open>Calls to the upstream\<close>

record async_call =
  ac_method :: string
  ac_base :: string
  ac_path :: string
  ac_headers :: headers
  ac_body :: raw_bytes

text \<open>
  The environment: what the HTTP client gives for a call, redirects followed, and the texts of Go
  errors.
\<close>

datatype go_error = AddressError string | AuthHeaderError | ReadError | JsonError

record async_env =
  ae_reply :: "async_call \<Rightarrow> reply"
  ae_text :: "go_error \<Rightarrow> string"

type_synonym json_map = "(string \<times> json) list option"

record async_answer =
  an_task :: string
  an_status :: string
  an_code :: int
  an_raw :: string
  an_payload :: json_map

definition text_of :: "json_map \<Rightarrow> string \<Rightarrow> string" where
  "text_of m k = (case m of None \<Rightarrow> '''' | Some kvs \<Rightarrow> or_empty (as_string (obj_get kvs k)))"

definition extractString :: "json_map \<Rightarrow> string \<Rightarrow> string" where
  "extractString payload key =
     (if text_of payload key \<noteq> '''' then text_of payload key
      else case payload of
             None \<Rightarrow> ''''
           | Some kvs \<Rightarrow> (case obj_get kvs ''data'' of
               Some (JObj nested) \<Rightarrow> text_of (Some nested) key
             | _ \<Rightarrow> ''''))"

fun first_text :: "json_map \<Rightarrow> string list \<Rightarrow> string \<Rightarrow> string" where
  "first_text payload [] fallback = fallback"
| "first_text payload (k # ks) fallback =
     (if extractString payload k \<noteq> '''' then extractString payload k else first_text payload ks fallback)"

definition extractTaskID :: "json_map \<Rightarrow> string" where
  "extractTaskID payload = first_text payload [''task_id'', ''id''] ''''"

definition extractTaskStatus :: "json_map \<Rightarrow> string \<Rightarrow> string" where
  "extractTaskStatus payload fallback = first_text payload [''status'', ''task_status'', ''state''] fallback"

definition normalizeTaskStatus :: "string \<Rightarrow> string" where
  "normalizeTaskStatus status =
     (let s = to_lower status in
      if s \<in> {''submitted'', ''pending''} then ''queued''
      else if s \<in> {''processing'', ''in_progress''} then ''running''
      else if s \<in> {''completed'', ''success''} then ''succeeded''
      else if s = ''cancelled'' then ''canceled''
      else if status = '''' then ''queued'' else s)"

text \<open>An answer that is not an object is kept as a text; a JSON null is the nil map.\<close>

definition payload_of :: "string \<Rightarrow> json_map" where
  "payload_of txt =
     (if txt = '''' then Some []
      else case decode_text txt of
             JsonBytes (JObj kvs) \<Rightarrow> Some (map (\<lambda>(k, v). (k, any_value v)) kvs)
           | JsonBytes JNull \<Rightarrow> None
           | _ \<Rightarrow> Some [(''raw'', JStr txt)])"

text \<open>
  An address without scheme or host is refused by the client if not by the parser, so both are the
  error of the address.
\<close>

definition buildUpstreamURL :: "string \<Rightarrow> string \<Rightarrow> string option" where
  "buildUpstreamURL base path = map_option (\<lambda>u. join_path (bu_path u) path) (parse_base_url base)"

definition doAsyncJSONRequest ::
  "async_env \<Rightarrow> channel_row \<Rightarrow> string \<Rightarrow> string \<Rightarrow> raw_bytes \<Rightarrow> string + async_answer" where
  "doAsyncJSONRequest env ch verb path body =
     (case buildUpstreamURL (c_base_url ch) path of
        None \<Rightarrow> Inl (ae_text env (AddressError (c_base_url ch)))
      | Some p \<Rightarrow>
          (case (case sp_auth (getProvider catalog (c_provider ch)) of
                   None \<Rightarrow> Some [] | Some s \<Rightarrow> auth_apply s [] (c_api_key ch)) of
             None \<Rightarrow> Inl (ae_text env AuthHeaderError)
           | Some h \<Rightarrow>
               (case ae_reply env \<lparr>ac_method = verb, ac_base = c_base_url ch, ac_path = p,
                       ac_headers = (if body = NoBytes then h else header_set ''Content-Type'' ''application/json'' h),
                       ac_body = body\<rparr> of
                  TransportError e _ \<Rightarrow> Inl e
                | Reply r \<Rightarrow>
                    (case up_text r of
                       None \<Rightarrow> Inl (ae_text env ReadError)
                     | Some txt \<Rightarrow>
                         (let payload = payload_of txt in
                          Inr \<lparr>an_task = extractTaskID payload,
                               an_status = normalizeTaskStatus (extractTaskStatus payload ''queued''),
                               an_code = up_status r, an_raw = txt, an_payload = payload\<rparr>)))))"

text \<open>\<open>None\<close> is the panic of the rewriting of a null body.\<close>

definition submitTask ::
  "async_env \<Rightarrow> channel_row \<Rightarrow> string \<Rightarrow> raw_bytes \<Rightarrow> (string + async_answer) option" where
  "submitTask env ch path body =
     (if body = NoBytes then Some (doAsyncJSONRequest env ch ''POST'' path body)
      else case fst (rewriteRequestBodyModelForChannel ch body) of
             Inl NilMapPanic \<Rightarrow> None
           | Inl DecodeError \<Rightarrow> Some (Inl (ae_text env JsonError))
           | Inr body' \<Rightarrow> Some (doAsyncJSONRequest env ch ''POST'' path body'))"

definition getUpstreamTask :: "async_env \<Rightarrow> channel_row \<Rightarrow> string \<Rightarrow> string + async_answer" where
  "getUpstreamTask env ch upstreamTaskID =
     doAsyncJSONRequest env ch ''GET'' (''/v1/tasks/'' @ upstreamTaskID) NoBytes"

definition cancelUpstreamTask :: "async_env \<Rightarrow> channel_row \<Rightarrow> string \<Rightarrow> string + async_answer" where
  "cancelUpstreamTask env ch upstreamTaskID =
     doAsyncJSONRequest env ch ''POST'' (''/v1/tasks/'' @ upstreamTaskID @ ''/cancel'') NoBytes"

section \<open>Payloads\<close>

definition isTerminalTaskStatus :: "string \<Rightarrow> bool" where
  "isTerminalTaskStatus status \<longleftrightarrow> status \<in> {''succeeded'', ''failed'', ''canceled''}"

definition buildErrorPayload :: "string \<Rightarrow> json_map \<Rightarrow> json" where
  "buildErrorPayload status payload =
     (if status \<noteq> ''failed'' \<and> status \<noteq> ''canceled'' then empty_object
      else case payload of
             None \<Rightarrow> JObj [(''message'', JStr ''task failed'')]
           | Some kvs \<Rightarrow>
               (case obj_get kvs ''error'' of
                  Some e \<Rightarrow> e
                | None \<Rightarrow> JObj [(''detail'', JObj kvs), (''message'', JStr ''task failed'')]))"

text \<open>What a jsonb column takes from the bytes of an answer; \<open>None\<close> is no JSON.\<close>

definition rawJSONOrDefaultBytes :: "string \<Rightarrow> json option" where
  "rawJSONOrDefaultBytes raw =
     (if raw = '''' \<or> raw = ''null'' then Some empty_object
      else case decode_text raw of JsonBytes j \<Rightarrow> Some j | _ \<Rightarrow> None)"

text \<open>The bytes of a jsonb column are never empty and always JSON.\<close>

definition decodeJSONBytes :: "json \<Rightarrow> json" where
  "decodeJSONBytes j = any_value j"

definition nilIfEmptyJSON :: "json \<Rightarrow> json" where
  "nilIfEmptyJSON j = (if decodeJSONBytes j = JObj [] then JNull else decodeJSONBytes j)"

definition timestampUnix :: "int option \<Rightarrow> json" where
  "timestampUnix t = (case t of None \<Rightarrow> JNull | Some n \<Rightarrow> JNum (n div 1000000000) 0)"

definition taskResponse :: "async_task_row \<Rightarrow> json" where
  "taskResponse t = JObj (marshal_members
     ([(''id'', JStr (at_id t)), (''object'', JStr ''task''), (''type'', JStr (at_type t)),
       (''status'', JStr (at_status t)), (''model'', JStr (at_model t)), (''provider'', JStr (at_provider t)),
       (''request_id'', JStr (at_request_id t)), (''input'', decodeJSONBytes (at_input t)),
       (''output'', decodeJSONBytes (at_output t)), (''error'', nilIfEmptyJSON (at_error t)),
       (''metadata'', decodeJSONBytes (at_metadata t)),
       (''usage'', JObj [(''actual_cost_cents'', JNum (at_actual_cost t) 0),
                        (''pre_deducted_cents'', JNum (at_pre_deducted t) 0)]),
       (''created_at'', timestampUnix (Some (at_created t))), (''updated_at'', timestampUnix (Some (at_updated t))),
       (''submitted_at'', timestampUnix (at_submitted t)), (''finished_at'', timestampUnix (at_finished t)),
       (''canceled_at'', timestampUnix (at_canceled t))] @
      (case at_upstream t of None \<Rightarrow> [] | Some u \<Rightarrow> [(''upstream_task_id'', JStr u)])))"

definition writeJSON :: "int \<Rightarrow> json \<Rightarrow> response" where
  "writeJSON status j =
     \<lparr>rs_status = status, rs_headers = [(''content-type'', ''application/json'')], rs_body = JsonBytes j\<rparr>"

section \<open>Billing of a task\<close>

definition subOf :: "string \<Rightarrow> 'r world \<Rightarrow> int \<times> 'r world" where
  "subOf i w = (case db_query (getAsyncTaskSubDeducted i) w of (v, w1) \<Rightarrow> (coalesce0 v, w1))"

definition task_request :: "async_task_row \<Rightarrow> settlement_request" where
  "task_request t = \<lparr>s_user = at_user t, s_api_key = 0, s_channel = coalesce0 (at_channel t),
     s_model = at_model t, s_prompt = 0, s_completion = 0, s_cache_hit = 0, s_cache_miss = 0,
     s_pre_deducted = 0, s_sub_deducted = 0, s_grant_deducted = 0, s_cash_deducted = 0,
     s_actual_cost = 0, s_log_type = '''', s_request_id = at_request_id t\<rparr>"

definition refund_task :: "'r redis_api \<Rightarrow> async_task_row \<Rightarrow> 'r world \<Rightarrow> 'r world" where
  "refund_task R t w =
     (case subOf (at_id t) w of
        (s, w1) \<Rightarrow> refund R (at_user t) (at_pre_deducted t)
          \<lparr>d_sub = s, d_grant = at_grant_deducted t, d_cash = at_cash_deducted t\<rparr> (task_request t) w1)"

definition mark_status ::
  "string \<Rightarrow> string \<Rightarrow> json option \<Rightarrow> json \<Rightarrow> json \<Rightarrow> int \<Rightarrow> 'r world \<Rightarrow> async_task_row option \<times> 'r world" where
  "mark_status i status output err metadata actual w =
     db_call (\<lambda>d. case output of None \<Rightarrow> None
                | Some out \<Rightarrow> markAsyncTaskStatus (w_now w) i status out err metadata actual d) w"

text \<open>
  The record of a success charges the whole estimate. The last step of the code, for a failed task
  without an error payload, is never taken: the column holds at least an empty object.
\<close>

definition finalizeTerminalTask ::
  "'r redis_api \<Rightarrow> async_task_row \<Rightarrow> 'r world \<Rightarrow> async_task_row \<times> 'r world" where
  "finalizeTerminalTask R t w =
     (if at_status t = ''succeeded'' then
        (if at_actual_cost t > 0 then (t, w)
         else
           (case subOf (at_id t) w of
              (s, w1) \<Rightarrow>
                (case settle R ((task_request t)\<lparr>s_pre_deducted := at_pre_deducted t, s_sub_deducted := s,
                        s_grant_deducted := at_grant_deducted t, s_cash_deducted := at_cash_deducted t,
                        s_actual_cost := at_pre_deducted t\<rparr>) w1 of
                   (False, w2) \<Rightarrow> (t, w2)
                 | (True, w2) \<Rightarrow>
                     (case mark_status (at_id t) (at_status t) (Some (at_output t)) (at_error t) (at_metadata t)
                             (at_pre_deducted t) w2 of
                        (Some t', w3) \<Rightarrow> (t', w3)
                      | (None, w3) \<Rightarrow> (t, w3)))))
      else if at_status t \<in> {''failed'', ''canceled''} \<and> at_pre_deducted t > 0 \<and> at_actual_cost t = 0
      then (t, refund_task R t w)
      else (t, w))"

text \<open>The refund does not depend on whether the task could be marked.\<close>

definition failTaskAndRefund ::
  "'r redis_api \<Rightarrow> async_task_row \<Rightarrow> int \<Rightarrow> string \<Rightarrow> 'r world \<Rightarrow> 'r world" where
  "failTaskAndRefund R t status message w =
     (case mark_status (at_id t) ''failed'' (Some (at_output t))
             (JObj [(''message'', JStr message), (''status_code'', JNum status 0)]) (at_metadata t) 0 w of
        (r, w1) \<Rightarrow>
          let t' = (case r of None \<Rightarrow> t | Some u \<Rightarrow> u) in
          if at_pre_deducted t' > 0 then refund_task R t' w1 else w1)"

section \<open>Creating a task\<close>

definition openai_error :: "int \<Rightarrow> string \<Rightarrow> string \<Rightarrow> string \<Rightarrow> 'r world \<Rightarrow> response \<times> 'r world" where
  "openai_error status message errType code' w = (writeOpenAIError status message errType code', w)"

definition no_user :: response where
  "no_user = writeOpenAIError 401 ''Invalid API Key'' ''invalid_request_error'' ''invalid_api_key''"

definition video_task :: "string \<Rightarrow> string \<Rightarrow> int \<Rightarrow> request_ctx \<Rightarrow> string \<Rightarrow> json \<Rightarrow> async_task_row" where
  "video_task i rid user cx model body =
     \<lparr>at_id = i, at_user = user, at_channel = None, at_request_id = rid, at_type = ''video_generation'',
      at_provider = '''', at_model = model, at_status = ''queued'', at_upstream = None, at_input = body,
      at_output = empty_object, at_error = empty_object, at_metadata = empty_object,
      at_pre_deducted = coalesce0 (cx_pre_deducted cx), at_grant_deducted = coalesce0 (cx_grant cx),
      at_cash_deducted = coalesce0 (cx_cash cx), at_actual_cost = 0, at_created = 0, at_updated = 0,
      at_submitted = None, at_finished = None, at_canceled = None, at_sub_deducted = 0\<rparr>"

text \<open>Each of the three ways to fail before the upstream has the task ends in a refund.\<close>

definition submit_failed ::
  "'r redis_api \<Rightarrow> async_task_row \<Rightarrow> string \<Rightarrow> string \<Rightarrow> string \<Rightarrow> 'r world \<Rightarrow> response \<times> 'r world" where
  "submit_failed R t logged message code' w =
     (writeOpenAIError 502 message ''server_error'' code', failTaskAndRefund R t 502 logged w)"

definition record_submission ::
  "'r redis_api \<Rightarrow> async_task_row \<Rightarrow> channel_row \<Rightarrow> string \<Rightarrow> async_answer \<Rightarrow> 'r world \<Rightarrow> response \<times> 'r world" where
  "record_submission R t ch model a w =
     (let metadata = JObj [(''cancel_path'', JStr (''/v1/tasks/'' @ an_task a @ ''/cancel'')),
            (''public_model_name'', JStr model), (''refresh_path'', JStr (''/v1/tasks/'' @ an_task a)),
            (''upstream_model_name'', JStr (resolveUpstreamModelName ch model)),
            (''upstream_status'', JStr (an_status a))] in
      case db_call (\<lambda>d. case rawJSONOrDefaultBytes (an_raw a) of
               None \<Rightarrow> None
             | Some out \<Rightarrow> markAsyncTaskSubmitted (w_now w) (at_id t) (Some (c_id ch)) (c_provider ch)
                 (an_status a) (if an_task a = '''' then None else Some (an_task a)) out metadata d) w of
        (None, w1) \<Rightarrow> openai_error 500 ''Failed to persist task submission'' ''server_error'' '''' w1
      | (Some t', w1) \<Rightarrow>
          if isTerminalTaskStatus (at_status t')
          then (case finalizeTerminalTask R t' w1 of (t'', w2) \<Rightarrow> (writeJSON 202 (taskResponse t''), w2))
          else (writeJSON 202 (taskResponse t'), w1))"

definition submit_to_channel ::
  "'r redis_api \<Rightarrow> async_env \<Rightarrow> string \<Rightarrow> raw_bytes \<Rightarrow> async_task_row \<Rightarrow> string \<Rightarrow> channel_row \<Rightarrow> 'r world \<Rightarrow>
     response \<times> 'r world" where
  "submit_to_channel R env path body t model ch w =
     (if \<not> sp_async (getProvider catalog (c_provider ch))
      then submit_failed R t (''provider '' @ c_provider ch @ '' does not support async tasks'')
             ''Provider does not support async tasks'' ''async_provider_unsupported'' w
      else case submitTask env ch path body of
             None \<Rightarrow> (connection_closed, w)
           | Some (Inl err) \<Rightarrow>
               submit_failed R t err ''Upstream video task submission failed'' ''upstream_submit_failed'' w
           | Some (Inr a) \<Rightarrow>
               if 400 \<le> an_code a
               then submit_failed R t (''Upstream submit failed (status '' @ show_int (an_code a) @ '')'')
                      ''Upstream video task submission failed'' ''upstream_submit_failed'' w
               else record_submission R t ch model a w)"

definition create_and_submit ::
  "'r redis_api \<Rightarrow> async_env \<Rightarrow> http_request \<Rightarrow> raw_bytes \<Rightarrow> int \<Rightarrow> string \<Rightarrow> 'r world \<Rightarrow> response \<times> 'r world" where
  "create_and_submit R env rq raw user model w =
     (let cx = hr_ctx rq in
      case (if or_empty (cx_request_id cx) \<noteq> '''' then (or_empty (cx_request_id cx), w) else new_uuid w) of
        (rid, w1) \<Rightarrow>
        case new_uuid w1 of
        (i, w2) \<Rightarrow>
        case db_call (\<lambda>d. case raw of
                 JsonBytes j \<Rightarrow> createAsyncTask (w_now w2) (video_task i rid user cx model j) d
               | _ \<Rightarrow> None) w2 of
          (None, w3) \<Rightarrow> openai_error 500 ''Failed to create task'' ''server_error'' '''' w3
        | (Some t, w3) \<Rightarrow>
            let w4 = (if 0 < coalesce0 (cx_sub cx)
                      then snd (db_update (\<lambda>d. Some (setAsyncTaskSubDeducted (at_id t) (coalesce0 (cx_sub cx)) d)) w3)
                      else w3) in
            (case on_manager (\<lambda>now. getNextChannelForCapabilities catalog now model
                    (no_caps\<lparr>cap_video := True, cap_async_task := True\<rparr>)) w4 of
               (None, w5) \<Rightarrow> submit_failed R t (''No async channel available for model: '' @ model)
                  ''No async channel available'' ''async_channel_unavailable'' w5
             | (Some ch, w5) \<Rightarrow> submit_to_channel R env (hr_path rq) raw t model ch w5))"

definition createVideoGenerationTask :: "'r redis_api \<Rightarrow> async_env \<Rightarrow> 'r handler" where
  "createVideoGenerationTask R env rq w =
     (case cx_user (hr_ctx rq) of
        None \<Rightarrow> (no_user, w)
      | Some user \<Rightarrow>
          (case hr_body rq of
             BrokenBody \<Rightarrow> openai_error 400 ''Cannot read request body'' ''invalid_request_error'' '''' w
           | b \<Rightarrow>
               let raw = (case b of Body _ r \<Rightarrow> r | _ \<Rightarrow> NoBytes) in
               (case parseVideoGenerationRequest raw of
                  None \<Rightarrow> openai_error 400 ''Invalid video generation payload'' ''invalid_request_error'' '''' w
                | Some v \<Rightarrow>
                    if vr_model v = ''''
                    then openai_error 400 ''Invalid video generation payload'' ''invalid_request_error'' '''' w
                    else create_and_submit R env rq raw user (vr_model v) w)))"

section \<open>Polling and cancelling\<close>

definition apply_answer ::
  "'r redis_api \<Rightarrow> async_task_row \<Rightarrow> async_answer \<Rightarrow> 'r world \<Rightarrow> async_task_row option \<times> 'r world" where
  "apply_answer R t a w =
     (case mark_status (at_id t) (an_status a) (rawJSONOrDefaultBytes (an_raw a))
             (buildErrorPayload (an_status a) (an_payload a)) (at_metadata t) (at_actual_cost t) w of
        (None, w1) \<Rightarrow> (None, w1)
      | (Some t', w1) \<Rightarrow>
          if isTerminalTaskStatus (at_status t')
          then (case finalizeTerminalTask R t' w1 of (t'', w2) \<Rightarrow> (Some t'', w2))
          else (Some t', w1))"

text \<open>An error leaves the caller with the row it had.\<close>

definition refreshTaskStatus ::
  "'r redis_api \<Rightarrow> async_env \<Rightarrow> async_task_row \<Rightarrow> 'r world \<Rightarrow> async_task_row option \<times> 'r world" where
  "refreshTaskStatus R env t w =
     (case (at_channel t, at_upstream t) of
        (Some c, Some u) \<Rightarrow>
          (case db_query (getChannelByID c) w of
             (None, w1) \<Rightarrow> (None, w1)
           | (Some ch, w1) \<Rightarrow>
               if \<not> c_supports_async ch then (Some t, w1)
               else if \<not> sp_async (getProvider catalog (c_provider ch)) then (None, w1)
               else case getUpstreamTask env ch u of
                      Inl _ \<Rightarrow> (None, w1)
                    | Inr a \<Rightarrow> if 400 \<le> an_code a then (Some t, w1) else apply_answer R t a w1)
      | _ \<Rightarrow> (Some t, w))"

text \<open>The lookup that both handlers begin with: the task belongs to the caller.\<close>

definition find_task :: "http_request \<Rightarrow> string \<Rightarrow> 'r world \<Rightarrow> (response + async_task_row) \<times> 'r world" where
  "find_task rq i w =
     (case cx_user (hr_ctx rq) of
        None \<Rightarrow> (Inl no_user, w)
      | Some user \<Rightarrow>
          (case db_query (\<lambda>d. Some (getAsyncTaskByIDAndUser i user d)) w of
             (None, w1) \<Rightarrow> (Inl (writeOpenAIError 500 ''Failed to fetch task'' ''server_error'' ''''), w1)
           | (Some None, w1) \<Rightarrow>
               (Inl (writeOpenAIError 404 ''Task not found'' ''invalid_request_error'' ''task_not_found''), w1)
           | (Some (Some t), w1) \<Rightarrow> (Inr t, w1)))"

definition getTask :: "'r redis_api \<Rightarrow> async_env \<Rightarrow> string \<Rightarrow> 'r handler" where
  "getTask R env i rq w =
     (case find_task rq i w of
        (Inl e, w1) \<Rightarrow> (e, w1)
      | (Inr t, w1) \<Rightarrow>
          if isTerminalTaskStatus (at_status t) then (writeJSON 200 (taskResponse t), w1)
          else (case refreshTaskStatus R env t w1 of
                  (Some t', w2) \<Rightarrow> (writeJSON 200 (taskResponse t'), w2)
                | (None, w2) \<Rightarrow> (writeJSON 200 (taskResponse t), w2)))"

text \<open>What the upstream says to the cancelling: \<open>None\<close> lets it go on.\<close>

definition cancel_upstream :: "async_env \<Rightarrow> async_task_row \<Rightarrow> 'r world \<Rightarrow> response option \<times> 'r world" where
  "cancel_upstream env t w =
     (case (at_channel t, at_upstream t) of
        (Some c, Some u) \<Rightarrow>
          (case db_query (getChannelByID c) w of
             (None, w1) \<Rightarrow> (None, w1)
           | (Some ch, w1) \<Rightarrow>
               if \<not> sp_async (getProvider catalog (c_provider ch))
               then (Some (writeOpenAIError 502 ''Provider does not support async tasks'' ''server_error''
                             ''async_provider_unsupported''), w1)
               else case cancelUpstreamTask env ch u of
                      Inr a \<Rightarrow> if an_code a < 400 then (None, w1)
                               else (Some (writeOpenAIError 502 ''Upstream task cancellation failed'' ''server_error''
                                             ''upstream_cancel_failed''), w1)
                    | Inl _ \<Rightarrow> (Some (writeOpenAIError 502 ''Upstream task cancellation failed'' ''server_error''
                                       ''upstream_cancel_failed''), w1))
      | _ \<Rightarrow> (None, w))"

definition cancel_locally :: "'r redis_api \<Rightarrow> async_task_row \<Rightarrow> 'r world \<Rightarrow> response \<times> 'r world" where
  "cancel_locally R t w =
     (case mark_status (at_id t) ''canceled'' (Some (at_output t))
             (JObj [(''message'', JStr ''Task canceled by user'')]) (at_metadata t) (at_actual_cost t) w of
        (None, w1) \<Rightarrow> openai_error 500 ''Failed to cancel task'' ''server_error'' '''' w1
      | (Some t', w1) \<Rightarrow>
          (writeJSON 200 (taskResponse t'),
           if at_pre_deducted t' > 0 \<and> at_actual_cost t' = 0 then refund_task R t' w1 else w1))"

definition cancelTask :: "'r redis_api \<Rightarrow> async_env \<Rightarrow> string \<Rightarrow> 'r handler" where
  "cancelTask R env i rq w =
     (case find_task rq i w of
        (Inl e, w1) \<Rightarrow> (e, w1)
      | (Inr t, w1) \<Rightarrow>
          if isTerminalTaskStatus (at_status t) then (writeJSON 200 (taskResponse t), w1)
          else (case cancel_upstream env t w1 of
                  (Some e, w2) \<Rightarrow> (e, w2)
                | (None, w2) \<Rightarrow> cancel_locally R t w2))"

section \<open>A task is billed at most once\<close>

text \<open>What bills a user: the pools in Redis, the queue of billing records and the outbox.\<close>

definition same_books :: "'r world \<Rightarrow> 'r world \<Rightarrow> bool" where
  "same_books w w' \<longleftrightarrow> w_redis w' = w_redis w \<and> w_queue w' = w_queue w \<and>
     settlement_outbox (w_db w') = settlement_outbox (w_db w)"

text \<open>Every row of the task, of which there is one, is terminal.\<close>

definition task_closed :: "string \<Rightarrow> 'r world \<Rightarrow> bool" where
  "task_closed i w \<longleftrightarrow> (\<forall>t \<in> set (async_tasks (w_db w)). at_id t = i \<longrightarrow> isTerminalTaskStatus (at_status t))"

lemma same_books_refl [simp]: "same_books w w"
  and same_books_trans: "same_books u v \<Longrightarrow> same_books v w \<Longrightarrow> same_books u w"
  by (simp_all add: same_books_def)

lemma db_query_same: "db_query f w = (a, w') \<Longrightarrow> w_redis w' = w_redis w \<and> w_queue w' = w_queue w \<and> w_db w' = w_db w"
  by (auto simp: db_query_def db_call_def next_fault_eq split: fault.splits option.splits)

lemma db_query_same_snd [simp]: "w_db (snd (db_query f w)) = w_db w"
  using db_query_same [of f w] by (cases "db_query f w") simp

lemma mark_effect:
  assumes "markAsyncTaskStatus now i status out err metadata actual d = Some (t, d')"
  shows "settlement_outbox d' = settlement_outbox d \<and> at_id t = i \<and> at_status t = status \<and>
    (isTerminalTaskStatus status \<longrightarrow> (\<forall>x \<in> set (async_tasks d'). at_id x = i \<longrightarrow> isTerminalTaskStatus (at_status x)))"
  using assms by (auto simp: markAsyncTaskStatus_def update_task_def find_Some_iff split: if_splits option.splits)

lemma mark_status_effect:
  assumes "mark_status i status out err metadata actual w = (r, w')"
  shows "same_books w w' \<and> (\<forall>t. r = Some t \<longrightarrow> at_id t = i \<and> at_status t = status \<and>
    (isTerminalTaskStatus status \<longrightarrow> task_closed i w'))"
  using assms unfolding mark_status_def db_call_def next_fault_eq
  by (auto simp: same_books_def task_closed_def split: fault.splits option.splits dest!: mark_effect)

lemma outbox_tasks: "insertSettlementOutbox now rid p d = Some d' \<Longrightarrow> async_tasks d' = async_tasks d"
  by (auto simp: insertSettlementOutbox_def split: if_splits)

lemma db_update_tasks:
  assumes "\<And>d d'. f d = Some d' \<Longrightarrow> async_tasks d' = async_tasks d"
  shows "async_tasks (w_db (snd (db_update f w))) = async_tasks (w_db w)"
  using db_update_effect [of f w] assms by auto

lemma insert_outbox_tasks [simp]:
  "async_tasks (w_db (snd (db_update (insertSettlementOutbox now rid p) w))) = async_tasks (w_db w)"
  by (rule db_update_tasks) (rule outbox_tasks)

lemma redis_call_db [simp]: "w_db (snd (redis_call f w)) = w_db w"
  using redis_call_frame(1) [of f w] by (cases "redis_call f w") simp

lemma settle_redis_db [simp]: "w_db (settle_redis R req w) = w_db w"
  by (auto simp: settle_redis_def settle_policy_def Let_def split: prod.splits option.splits dest: db_query_same)

lemma refund_tasks [simp]: "async_tasks (w_db (refund R u x d req w)) = async_tasks (w_db w)"
  by (auto simp: refund_def Let_def split: prod.splits bool.splits dest!: enqueue_frame(2))

lemma settle_tasks [simp]: "async_tasks (w_db (snd (settle R req w))) = async_tasks (w_db w)"
proof -
  obtain b w2 where e: "enqueue (TaskRecordBillingLog (Some req)) (settle_redis R req w) = (b, w2)" by fastforce
  then have "w_db w2 = w_db w" by (simp add: enqueue_frame(2))
  moreover obtain r w3 where u: "db_update (insertSettlementOutbox (w_now w2) (s_request_id req) (Some req)) w2 = (r, w3)"
    by fastforce
  moreover have "async_tasks (w_db w3) = async_tasks (w_db w2)"
    using insert_outbox_tasks [of "w_now w2" "s_request_id req" "Some req" w2] u by simp
  ultimately show ?thesis using e by (auto simp: settle_def Let_def split: bool.splits option.splits)
qed

lemma refund_task_tasks [simp]: "async_tasks (w_db (refund_task R t w)) = async_tasks (w_db w)"
  using db_query_same_snd [of "getAsyncTaskSubDeducted (at_id t)" w]
  by (cases "db_query (getAsyncTaskSubDeducted (at_id t)) w") (simp add: refund_task_def subOf_def)

lemma finalize_closed:
  assumes "task_closed (at_id t) w" "isTerminalTaskStatus (at_status t)"
  shows "task_closed (at_id t) (snd (finalizeTerminalTask R t w))"
proof -
  obtain s w1 where s: "subOf (at_id t) w = (s, w1)" by fastforce
  then have d1: "w_db w1 = w_db w"
    by (auto simp: subOf_def split: prod.splits dest: db_query_same)
  let ?req = "(task_request t)\<lparr>s_pre_deducted := at_pre_deducted t, s_sub_deducted := s,
    s_grant_deducted := at_grant_deducted t, s_cash_deducted := at_cash_deducted t, s_actual_cost := at_pre_deducted t\<rparr>"
  obtain b w2 where b: "settle R ?req w1 = (b, w2)" by fastforce
  then have d2: "async_tasks (w_db w2) = async_tasks (w_db w)"
    using settle_tasks [of R ?req w1] d1 by simp
  obtain r w3 where m: "mark_status (at_id t) (at_status t) (Some (at_output t)) (at_error t) (at_metadata t)
      (at_pre_deducted t) w2 = (r, w3)" by fastforce
  have "task_closed (at_id t) w3"
  proof (cases r)
    case (Some x)
    with mark_status_effect [OF m] assms(2) show ?thesis by simp
  next
    case None
    then have "\<forall>x \<in> set (async_tasks (w_db w3)). at_id x = at_id t \<longrightarrow> isTerminalTaskStatus (at_status x)"
      using m assms d2 unfolding mark_status_def db_call_def next_fault_eq
      by (auto simp: task_closed_def split: fault.splits option.splits dest!: mark_effect)
    then show ?thesis by (simp add: task_closed_def)
  qed
  with s b d2 m assms(1) show ?thesis
    by (auto simp: finalizeTerminalTask_def task_closed_def split: bool.splits option.splits)
qed

datatype task_call = PollTask async_env http_request | CancelTask async_env http_request

fun serve_task :: "'r redis_api \<Rightarrow> string \<Rightarrow> task_call \<Rightarrow> 'r world \<Rightarrow> response \<times> 'r world" where
  "serve_task R i (PollTask env rq) w = getTask R env i rq w"
| "serve_task R i (CancelTask env rq) w = cancelTask R env i rq w"

definition serve_tasks :: "'r redis_api \<Rightarrow> string \<Rightarrow> task_call list \<Rightarrow> 'r world \<Rightarrow> 'r world" where
  "serve_tasks R i cs w = fold (\<lambda>c w. snd (serve_task R i c w)) cs w"

lemma find_task_effect:
  assumes "find_task rq i w = (r, w')"
  shows "w_redis w' = w_redis w \<and> w_queue w' = w_queue w \<and> w_db w' = w_db w \<and>
    (\<forall>t. r = Inr t \<longrightarrow> t \<in> set (async_tasks (w_db w)) \<and> at_id t = i)"
proof (cases "cx_user (hr_ctx rq)")
  case (Some user)
  let ?f = "\<lambda>d. Some (getAsyncTaskByIDAndUser i user d)"
  obtain a w1 where q: "db_query ?f w = (a, w1)" by fastforce
  then have v: "a = None \<or> a = Some (getAsyncTaskByIDAndUser i user (w_db w))"
    using db_query_models [OF q] by (cases a) auto
  have m: "t \<in> set (async_tasks d) \<and> at_id t = i" if "getAsyncTaskByIDAndUser i user d = Some t" for t d
    using that by (auto simp: getAsyncTaskByIDAndUser_def find_Some_iff)
  have "w' = w1" using assms q Some by (auto simp: find_task_def split: option.splits)
  moreover have "r = Inr t \<Longrightarrow> a = Some (Some t)" for t
    using assms q Some by (auto simp: find_task_def split: option.splits)
  ultimately show ?thesis using db_query_same [OF q] v m by auto
qed (use assms in \<open>auto simp: find_task_def\<close>)

lemma closed_answers:
  assumes "task_closed i w" "find_task rq i w = (Inr t, w')"
  shows "isTerminalTaskStatus (at_status t)"
  using find_task_effect [OF assms(2)] assms(1) by (auto simp: task_closed_def)

lemma closed_task_stays:
  assumes "task_closed i w"
  shows "same_books w (snd (serve_task R i c w)) \<and> task_closed i (snd (serve_task R i c w))"
proof -
  have *: "same_books w w' \<and> task_closed i w'" if "find_task rq i w = (r, w')" for rq r w'
    using find_task_effect [OF that] assms by (simp add: same_books_def task_closed_def)
  show ?thesis
  proof (cases c)
    case (PollTask env rq)
    obtain r w' where f: "find_task rq i w = (r, w')" by fastforce
    with * [OF f] closed_answers [OF assms] PollTask show ?thesis by (cases r) (simp_all add: getTask_def)
  next
    case (CancelTask env rq)
    obtain r w' where f: "find_task rq i w = (r, w')" by fastforce
    with * [OF f] closed_answers [OF assms] CancelTask show ?thesis by (cases r) (simp_all add: cancelTask_def)
  qed
qed

lemma apply_answer_closed:
  assumes "apply_answer R t x w = (r, w')"
  shows "same_books w w' \<or> task_closed (at_id t) w'"
proof -
  obtain m w2 where m: "mark_status (at_id t) (an_status x) (rawJSONOrDefaultBytes (an_raw x))
      (buildErrorPayload (an_status x) (an_payload x)) (at_metadata t) (at_actual_cost t) w = (m, w2)" by fastforce
  note e = mark_status_effect [OF m]
  show ?thesis
  proof (cases m)
    case None
    with assms m e show ?thesis by (simp add: apply_answer_def)
  next
    case (Some y)
    obtain z w3 where z: "finalizeTerminalTask R y w2 = (z, w3)" by fastforce
    with assms m Some have "w' = (if isTerminalTaskStatus (at_status y) then w3 else w2)"
      by (simp add: apply_answer_def split: if_splits)
    moreover have "task_closed (at_id t) w3" if "isTerminalTaskStatus (at_status y)"
    proof -
      have i: "at_id y = at_id t" "at_status y = an_status x" and c: "isTerminalTaskStatus (an_status x) \<Longrightarrow> task_closed (at_id t) w2"
        using e Some by blast+
      from finalize_closed [of y w2 R, unfolded z i snd_conv] c that show ?thesis unfolding i by blast
    qed
    ultimately show ?thesis using e by (metis (full_types))
  qed
qed

lemma refresh_bills_closed:
  assumes "refreshTaskStatus R env t w = (r, w')"
  shows "same_books w w' \<or> task_closed (at_id t) w'"
proof (cases "at_channel t = None \<or> at_upstream t = None")
  case True
  with assms show ?thesis by (auto simp: refreshTaskStatus_def split: option.splits)
next
  case False
  then obtain c u where cu: "at_channel t = Some c" "at_upstream t = Some u" by auto
  obtain a w1 where q: "db_query (getChannelByID c) w = (a, w1)" by fastforce
  then have s1: "same_books w w1" by (auto simp: same_books_def dest: db_query_same)
  have "w' = w1 \<or> (\<exists>x. apply_answer R t x w1 = (r, w'))"
  proof (cases a)
    case None
    with assms cu q show ?thesis by (simp add: refreshTaskStatus_def)
  next
    case (Some ch)
    with assms cu q show ?thesis
      by (cases "getUpstreamTask env ch u") (auto simp: refreshTaskStatus_def split: if_splits)
  qed
  then show ?thesis using apply_answer_closed same_books_trans [OF s1] s1 by blast
qed

lemma cancel_bills_closed: "same_books w (snd (cancel_locally R t w)) \<or> task_closed (at_id t) (snd (cancel_locally R t w))"
proof -
  obtain m w1 where m: "mark_status (at_id t) ''canceled'' (Some (at_output t))
      (JObj [(''message'', JStr ''Task canceled by user'')]) (at_metadata t) (at_actual_cost t) w = (m, w1)" by fastforce
  note e = mark_status_effect [OF m]
  show ?thesis
  proof (cases m)
    case None
    with m e show ?thesis by (simp add: cancel_locally_def openai_error_def)
  next
    case (Some y)
    then have "task_closed (at_id t) w1" using e by (simp add: isTerminalTaskStatus_def)
    with Some m show ?thesis by (simp add: cancel_locally_def task_closed_def)
  qed
qed

lemma cancel_upstream_same: "cancel_upstream env t w = (r, w') \<Longrightarrow> same_books w w'"
  by (auto simp: cancel_upstream_def same_books_def split: option.splits prod.splits sum.splits if_splits
      dest!: db_query_same)

lemma billing_closes:
  assumes "\<not> same_books w (snd (serve_task R i c w))"
  shows "task_closed i (snd (serve_task R i c w))"
proof (cases c)
  case (PollTask env rq)
  obtain r w1 where f: "find_task rq i w = (r, w1)" by fastforce
  note e = find_task_effect [OF f]
  then have s: "same_books w w1" by (simp add: same_books_def)
  then obtain t where t: "r = Inr t" "\<not> isTerminalTaskStatus (at_status t)"
    using assms f PollTask by (cases r) (auto simp: getTask_def split: if_splits)
  obtain x w2 where x: "refreshTaskStatus R env t w1 = (x, w2)" by fastforce
  have "snd (serve_task R i c w) = w2" using PollTask f t x by (simp add: getTask_def split: option.splits)
  with refresh_bills_closed [OF x] same_books_trans [OF s] assms e t(1) show ?thesis by auto
next
  case (CancelTask env rq)
  obtain r w1 where f: "find_task rq i w = (r, w1)" by fastforce
  note e = find_task_effect [OF f]
  then have s: "same_books w w1" by (simp add: same_books_def)
  then obtain t where t: "r = Inr t" "\<not> isTerminalTaskStatus (at_status t)"
    using assms f CancelTask by (cases r) (auto simp: cancelTask_def split: if_splits)
  obtain x w2 where x: "cancel_upstream env t w1 = (x, w2)" by fastforce
  note s2 = same_books_trans [OF s cancel_upstream_same [OF x]]
  then have "x = None" using assms CancelTask f t x by (cases x) (simp_all add: cancelTask_def)
  then have "snd (serve_task R i c w) = snd (cancel_locally R t w2)" using CancelTask f t x by (simp add: cancelTask_def)
  with cancel_bills_closed [of w2 R t] same_books_trans [OF s2] assms e t(1) show ?thesis by auto
qed

text \<open>
  C35. A task is billed at most once. Once a poll or a cancellation of a task has changed a balance, the
  queue of billing records or the outbox, no later poll or cancellation of that task, by whomever and
  whatever the upstream says and whatever fails, changes any of them.
\<close>

theorem task_billed_once:
  assumes "\<not> same_books w (snd (serve_task R i c w))"
  shows "same_books (snd (serve_task R i c w)) (serve_tasks R i cs (snd (serve_task R i c w)))"
proof -
  have "task_closed i v \<Longrightarrow> same_books v (serve_tasks R i cs v)" for v
  proof (induction cs arbitrary: v)
    case (Cons x cs)
    from closed_task_stays [OF Cons.prems, of R x] Cons.IH [of "snd (serve_task R i x v)"]
    show ?case by (auto simp: serve_tasks_def dest: same_books_trans)
  qed (simp add: serve_tasks_def)
  with billing_closes [OF assms] show ?thesis by simp
qed

definition waiting_task :: async_task_row where
  "waiting_task = (video_task ''t1'' ''r1'' 7 witness_ctx ''m1'' empty_object)\<lparr>at_sub_deducted := 30\<rparr>"

definition task_world :: "keyspace world" where
  "task_world = witness_world (cached 7 (0, 0, 100))
     (empty_db\<lparr>users := [witness_user 7 (0, 0, 100)], async_tasks := [waiting_task]\<rparr>) []"

definition silent_upstream :: async_env where
  "silent_upstream = \<lparr>ae_reply = (\<lambda>_. TransportError ''timeout'' True), ae_text = (\<lambda>_. '''')\<rparr>"

lemma cancel_waiting:
  "\<exists>s. w_queue (snd (serve_task mem_redis ''t1'' (CancelTask silent_upstream witness_http) task_world)) =
     [TaskRecordBillingLog (Some s)] \<and> s_pre_deducted s = 60 \<and> s_actual_cost s = 0"
  by (simp add: cancelTask_def find_task_def getAsyncTaskByIDAndUser_def task_world_def waiting_task_def video_task_def
      witness_ctx_def witness_http_def isTerminalTaskStatus_def cancel_upstream_def cancel_locally_def mark_status_def
      markAsyncTaskStatus_def update_task_def fits_def refund_task_def subOf_def refund_def Let_def refund_record_def
      task_request_def empty_object_def openai_error_def)

theorem task_billed_once_witness:
  "w_queue (serve_tasks mem_redis ''t1'' [PollTask silent_upstream witness_http, CancelTask silent_upstream witness_http]
     (snd (serve_task mem_redis ''t1'' (CancelTask silent_upstream witness_http) task_world))) =
   w_queue (snd (serve_task mem_redis ''t1'' (CancelTask silent_upstream witness_http) task_world))"
proof -
  have "w_queue task_world = []" by (simp add: task_world_def)
  then have "\<not> same_books task_world (snd (serve_task mem_redis ''t1'' (CancelTask silent_upstream witness_http) task_world))"
    using cancel_waiting by (auto simp: same_books_def)
  from task_billed_once [OF this] show ?thesis by (simp add: same_books_def)
qed

text \<open>
  The order matters: two cancellations that both read the row before one of them marks it each give the
  whole estimate back.
\<close>

lemma stale_cancel_refunds_twice:
  "length (w_queue (snd (cancel_locally mem_redis waiting_task (snd (cancel_locally mem_redis waiting_task task_world))))) = 2"
  by (simp add: task_world_def waiting_task_def video_task_def witness_ctx_def cancel_locally_def mark_status_def
      markAsyncTaskStatus_def update_task_def fits_def refund_task_def subOf_def refund_def Let_def refund_record_def
      task_request_def empty_object_def openai_error_def)

section \<open>What a task costs\<close>

text \<open>The billing record of a task: what was deducted for it, and a cost.\<close>

definition task_record :: "async_task_row \<Rightarrow> int \<Rightarrow> settlement_request \<Rightarrow> bool" where
  "task_record t cost s \<longleftrightarrow> s_user s = at_user t \<and> s_request_id s = at_request_id t \<and> s_model s = at_model t \<and>
     s_pre_deducted s = at_pre_deducted t \<and> s_sub_deducted s = at_sub_deducted t \<and>
     s_grant_deducted s = at_grant_deducted t \<and> s_cash_deducted s = at_cash_deducted t \<and> s_actual_cost s = cost"

lemma subOf_fine: "w_faults w = [] \<Longrightarrow> subOf i w = (coalesce0 (getAsyncTaskSubDeducted i (w_db w)), w)"
  by (simp add: subOf_def)

lemma refund_task_record:
  assumes "w_faults w = []" "0 < at_pre_deducted t" "getAsyncTaskSubDeducted (at_id t) (w_db w) = Some (at_sub_deducted t)"
  shows "\<exists>s. w_queue (refund_task R t w) = w_queue w @ [TaskRecordBillingLog (Some s)] \<and> task_record t 0 s"
  using assms by (simp add: refund_task_def subOf_fine refund_def Let_def refund_record_def task_request_def task_record_def)

lemma mark_status_fine:
  assumes "w_faults w = []" "find (\<lambda>x. at_id x = i) (async_tasks (w_db w)) = Some t" "fits 20 status"
    "list_all jsonb_ok [out, err, meta]"
  obtains t' w' where "mark_status i status (Some out) err meta actual w = (Some t', w')" "w_faults w' = []"
    "w_queue w' = w_queue w" "at_id t' = i" "at_status t' = status" "at_actual_cost t' = actual"
    "getAsyncTaskSubDeducted i (w_db w') = Some (at_sub_deducted t')" "task_record t' = task_record t"
    "at_pre_deducted t' = at_pre_deducted t"
proof -
  let ?f = "\<lambda>x. x\<lparr>at_status := status, at_output := out, at_error := err, at_metadata := meta, at_actual_cost := actual,
    at_updated := w_now w, at_finished := (if status \<in> {''succeeded'', ''failed'', ''canceled''} then Some (w_now w) else at_finished x),
    at_canceled := (if status = ''canceled'' then Some (w_now w) else at_canceled x)\<rparr>"
  have i: "at_id t = i" using assms(2) by (auto simp: find_Some_iff)
  have f: "find (\<lambda>x. at_id x = i) (map (\<lambda>x. if at_id x = i then ?f x else x) ts) = map_option ?f (find (\<lambda>x. at_id x = i) ts)" for ts
    by (induction ts) auto
  show thesis
    using assms i by (intro that [of "?f t" "w\<lparr>w_db := (w_db w)\<lparr>async_tasks :=
        map (\<lambda>x. if at_id x = i then ?f x else x) (async_tasks (w_db w))\<rparr>\<rparr>"])
      (simp_all add: mark_status_def markAsyncTaskStatus_def update_task_def getAsyncTaskSubDeducted_def f task_record_def fun_eq_iff)
qed

lemma finalize_record:
  assumes "w_faults w = []" "0 < at_pre_deducted t" "at_actual_cost t = 0" "isTerminalTaskStatus (at_status t)"
    "getAsyncTaskSubDeducted (at_id t) (w_db w) = Some (at_sub_deducted t)"
  shows "\<exists>s. w_queue (snd (finalizeTerminalTask R t w)) = w_queue w @ [TaskRecordBillingLog (Some s)] \<and>
    task_record t (if at_status t = ''succeeded'' then at_pre_deducted t else 0) s"
proof (cases "at_status t = ''succeeded''")
  case False
  with assms refund_task_record [OF assms(1,2,5)] show ?thesis
    by (auto simp: finalizeTerminalTask_def isTerminalTaskStatus_def)
next
  case True
  let ?s = "(task_request t)\<lparr>s_pre_deducted := at_pre_deducted t, s_sub_deducted := at_sub_deducted t,
    s_grant_deducted := at_grant_deducted t, s_cash_deducted := at_cash_deducted t, s_actual_cost := at_pre_deducted t\<rparr>"
  obtain b w2 where b: "settle R ?s w = (b, w2)" by fastforce
  then have q: "w_queue w2 = w_queue w @ [TaskRecordBillingLog (Some ?s)]" using settle_enqueues [OF assms(1), of R ?s] by simp
  obtain m w3 where m: "mark_status (at_id t) (at_status t) (Some (at_output t)) (at_error t) (at_metadata t)
      (at_pre_deducted t) w2 = (m, w3)" by fastforce
  then have "w_queue w3 = w_queue w2" using mark_status_effect [OF m] by (simp add: same_books_def)
  then have "w_queue (snd (finalizeTerminalTask R t w)) = w_queue w @ [TaskRecordBillingLog (Some ?s)]"
    using True assms(1,3,5) b m q by (simp add: finalizeTerminalTask_def subOf_fine split: bool.splits option.splits)
  moreover have "task_record t (at_pre_deducted t) ?s" by (simp add: task_record_def task_request_def)
  ultimately show ?thesis using True by auto
qed

lemma terminal_fits: "isTerminalTaskStatus s \<Longrightarrow> fits 20 s"
  by (auto simp: isTerminalTaskStatus_def fits_def)

lemma apply_answer_record:
  assumes "w_faults w = []" "find (\<lambda>x. at_id x = at_id t) (async_tasks (w_db w)) = Some t"
    and "0 < at_pre_deducted t" "at_actual_cost t = 0" "isTerminalTaskStatus (an_status a)"
    and "rawJSONOrDefaultBytes (an_raw a) = Some out"
    and "list_all jsonb_ok [out, buildErrorPayload (an_status a) (an_payload a), at_metadata t]"
  shows "\<exists>s. w_queue (snd (apply_answer R t a w)) = w_queue w @ [TaskRecordBillingLog (Some s)] \<and>
    task_record t (if an_status a = ''succeeded'' then at_pre_deducted t else 0) s"
proof -
  obtain t' w' where m: "mark_status (at_id t) (an_status a) (Some out) (buildErrorPayload (an_status a) (an_payload a))
      (at_metadata t) (at_actual_cost t) w = (Some t', w')"
    and f: "w_faults w' = []" "w_queue w' = w_queue w" and i: "at_id t' = at_id t" "at_status t' = an_status a"
    "at_actual_cost t' = at_actual_cost t" and s: "getAsyncTaskSubDeducted (at_id t) (w_db w') = Some (at_sub_deducted t')"
    and r: "task_record t' = task_record t" and p: "at_pre_deducted t' = at_pre_deducted t"
    by (rule mark_status_fine [OF assms(1,2) terminal_fits [OF assms(5)] assms(7), of "at_actual_cost t"])
  have "\<exists>s. w_queue (snd (finalizeTerminalTask R t' w')) = w_queue w' @ [TaskRecordBillingLog (Some s)] \<and>
      task_record t' (if at_status t' = ''succeeded'' then at_pre_deducted t' else 0) s"
    by (rule finalize_record) (use f i s p assms in simp_all)
  then show ?thesis using m f i r p assms(5,6)
    by (cases "finalizeTerminalTask R t' w'"; cases "an_status a = ''succeeded''") (simp_all add: apply_answer_def)
qed

text \<open>
  C36. A finished task costs its estimate, a failed or cancelled one nothing. When a poll of an open task
  finds it in a terminal status upstream, and nothing of the gateway's own fails, exactly one billing
  record is queued, for the task's user and request, with what was deducted in total and per pool, and
  with the whole estimate as its cost for a success and none otherwise.
\<close>

theorem task_costs_estimate:
  assumes "w_faults w = []" "find (\<lambda>x. at_id x = i) (async_tasks (w_db w)) = Some t"
    and "cx_user (hr_ctx rq) = Some (at_user t)" "\<not> isTerminalTaskStatus (at_status t)"
    and "0 < at_pre_deducted t" "at_actual_cost t = 0" "at_channel t = Some c" "at_upstream t = Some u"
    and "getChannelByID c (w_db w) = Some ch" "c_supports_async ch" "sp_async (getProvider catalog (c_provider ch))"
    and "getUpstreamTask env ch u = Inr a" "an_code a < 400" "isTerminalTaskStatus (an_status a)"
    and "rawJSONOrDefaultBytes (an_raw a) = Some out"
    and "list_all jsonb_ok [out, buildErrorPayload (an_status a) (an_payload a), at_metadata t]"
  shows "\<exists>s. w_queue (snd (getTask R env i rq w)) = w_queue w @ [TaskRecordBillingLog (Some s)] \<and>
    task_record t (if an_status a = ''succeeded'' then at_pre_deducted t else 0) s"
proof -
  have i: "at_id t = i" using assms(2) by (auto simp: find_Some_iff)
  have g: "getAsyncTaskByIDAndUser i (at_user t) (w_db w) = Some t"
    using assms(2) i unfolding getAsyncTaskByIDAndUser_def find_Some_iff by (metis order.strict_trans)
  then have "find_task rq i w = (Inr t, w)" using assms(1,3) by (simp add: find_task_def)
  moreover obtain r w' where r: "apply_answer R t a w = (r, w')" by fastforce
  moreover have "refreshTaskStatus R env t w = (r, w')" using assms r by (simp add: refreshTaskStatus_def)
  ultimately have "snd (getTask R env i rq w) = w'" using assms(4) by (simp add: getTask_def split: option.splits)
  moreover have "find (\<lambda>x. at_id x = at_id t) (async_tasks (w_db w)) = Some t" using assms(2) i by simp
  ultimately show ?thesis using apply_answer_record [OF assms(1) _ assms(5,6,14-16), of R] r by simp
qed

definition answering_upstream :: async_env where
  "answering_upstream = \<lparr>ae_reply = (\<lambda>c. Reply \<lparr>up_status = 200, up_headers = [],
       up_text = Some (''{'' @ [char_of (34::nat)] @ ''state'' @ [char_of (34::nat), CHR '':'', char_of (34::nat)] @
         ''Completed'' @ [char_of (34::nat)] @ ''}''), up_reads = []\<rparr>), ae_text = (\<lambda>_. '''')\<rparr>"

theorem task_costs_estimate_witness:
  "\<exists>s. w_queue (snd (getTask mem_redis answering_upstream ''t1'' witness_http
      (witness_world [] (empty_db\<lparr>async_tasks := [waiting_task\<lparr>at_channel := Some 2, at_upstream := Some ''v9''\<rparr>],
        channels := [(witness_channel 2)\<lparr>c_base_url := ''https://a.example/v1'', c_supports_async := True\<rparr>]\<rparr>) []))) =
      [TaskRecordBillingLog (Some s)] \<and> s_actual_cost s = 60 \<and> s_request_id s = ''r1''"
proof -
  let ?t = "waiting_task\<lparr>at_channel := Some 2, at_upstream := Some ''v9''\<rparr>"
  let ?ch = "(witness_channel 2)\<lparr>c_base_url := ''https://a.example/v1'', c_supports_async := True\<rparr>"
  let ?w = "witness_world [] (empty_db\<lparr>async_tasks := [?t], channels := [?ch]\<rparr>) []"
  let ?a = "\<lparr>an_task = '''', an_status = ''succeeded'', an_code = 200,
     an_raw = ''{'' @ [char_of (34::nat)] @ ''state'' @ [char_of (34::nat), CHR '':'', char_of (34::nat)] @
         ''Completed'' @ [char_of (34::nat)] @ ''}'', an_payload = Some [(''state'', JStr ''Completed'')]\<rparr>"
  have a: "getUpstreamTask answering_upstream ?ch ''v9'' = Inr ?a"
    "rawJSONOrDefaultBytes (an_raw ?a) = Some (JObj [(''state'', JStr ''Completed'')])"
    "sp_async (getProvider catalog (c_provider ?ch))"
    by code_simp+
  have t: "find (\<lambda>x. at_id x = ''t1'') (async_tasks (w_db ?w)) = Some ?t" "cx_user (hr_ctx witness_http) = Some (at_user ?t)"
    "\<not> isTerminalTaskStatus (at_status ?t)" "at_pre_deducted ?t = 60" "at_actual_cost ?t = 0" "at_request_id ?t = ''r1''"
    "getChannelByID 2 (w_db ?w) = Some ?ch" "at_metadata ?t = empty_object"
    by (simp_all add: waiting_task_def video_task_def witness_http_def witness_ctx_def isTerminalTaskStatus_def
        getChannelByID_def witness_channel_def)
  have "\<exists>s. w_queue (snd (getTask mem_redis answering_upstream ''t1'' witness_http ?w)) =
      w_queue ?w @ [TaskRecordBillingLog (Some s)] \<and>
      task_record ?t (if an_status ?a = ''succeeded'' then at_pre_deducted ?t else 0) s"
    by (rule task_costs_estimate [OF _ t(1,2,3) _ t(5) _ _ t(7) _ a(3,1) _ _ a(2)])
      (use t in \<open>simp_all add: isTerminalTaskStatus_def buildErrorPayload_def empty_object_def\<close>)
  then show ?thesis using t(4,6) by (auto simp: task_record_def)
qed

end
