(* ===== verification/RateLimit.thy ===== *)
theory RateLimit
  imports Http
begin

text \<open>
  internal/middleware/rate_limit.go: three counters per minute (requests and tokens of a user,
  requests of a user to a model), each kept by rate_limit.lua. A request over a limit gets its
  estimate back and the status 429; when Redis does not answer, the request goes on.
\<close>

section \<open>The stage\<close>

definition checkRateLimit ::
  "'r redis_api \<Rightarrow> string \<Rightarrow> int \<Rightarrow> int \<Rightarrow> int \<Rightarrow> 'r world \<Rightarrow> bool option \<times> 'r world" where
  "checkRateLimit R key windowSeconds maxAllowed increment w =
     (case redis_call (lua_rate_limit R key windowSeconds maxAllowed increment) w of
        (None, w1) \<Rightarrow> (None, w1)
      | (Some n, w1) \<Rightarrow> (Some (n \<noteq> 0), w1))"

definition rpmKey :: "int \<Rightarrow> string" where
  "rpmKey uid = ''rate:rpm:'' @ show_int uid"

definition tpmKey :: "int \<Rightarrow> string" where
  "tpmKey uid = ''rate:tpm:'' @ show_int uid"

definition modelRPMKey :: "int \<Rightarrow> string \<Rightarrow> string" where
  "modelRPMKey uid model = ''rate:model_rpm:'' @ show_int uid @ '':'' @ model"

definition limit_error :: "string \<Rightarrow> string \<Rightarrow> response" where
  "limit_error message code = writeOpenAIError 429 message ''rate_limit_error'' code"

definition rpmAndTPMMiddleware ::
  "'r redis_api \<Rightarrow> server_config \<Rightarrow> 'r handler \<Rightarrow> 'r handler" where
  "rpmAndTPMMiddleware R cfg next rq w =
     (let cx = hr_ctx rq in
      if \<not> or_false (cx_billing cx) then next rq w
      else case cx_user cx of None \<Rightarrow> next rq w | Some uid \<Rightarrow>
        let lim = resolveTierLimit cfg (coalesce0 (cx_tier cx));
            tokens = (case cx_est_tokens cx of Some t \<Rightarrow> if t \<le> 0 then 1 else t | None \<Rightarrow> 1);
            model = or_empty (cx_model cx)
        in case checkRateLimit R (rpmKey uid) 60 (tl_rpm lim) 1 w of (rpm, w1) \<Rightarrow>
           if rpm = Some False
           then (limit_error ''RPM limit exceeded'' ''rpm_exceeded'', refund_ctx R model cx uid w1)
           else case checkRateLimit R (tpmKey uid) 60 (tl_tpm lim) tokens w1 of (tpm, w2) \<Rightarrow>
           if tpm = Some False
           then (limit_error ''TPM limit exceeded'' ''tpm_exceeded'', refund_ctx R model cx uid w2)
           else if tl_model_rpm lim > 0 \<and> model \<noteq> ''''
           then (case checkRateLimit R (modelRPMKey uid model) 60 (tl_model_rpm lim) 1 w2 of (mrpm, w3) \<Rightarrow>
             if mrpm = Some False
             then (limit_error (''Model '' @ model @ '' RPM limit exceeded'') ''model_rpm_exceeded'',
                   refund_ctx R model cx uid w3)
             else next rq w3)
           else next rq w2)"

section \<open>One window of a counter\<close>

text \<open>
  What the counter should admit, without Redis: the first request of a window whatever it asks
  for, and then each request for which there is still room.
\<close>

fun admit :: "int \<Rightarrow> int option \<Rightarrow> int list \<Rightarrow> bool list" where
  "admit limit n [] = []"
| "admit limit None (i # js) = True # admit limit (Some i) js"
| "admit limit (Some n) (i # js) =
     (if n + i > limit then False # admit limit (Some n) js else True # admit limit (Some (n + i)) js)"

fun run_checks :: "'r redis_api \<Rightarrow> string \<Rightarrow> int \<Rightarrow> int list \<Rightarrow> 'r world \<Rightarrow> bool option list" where
  "run_checks R key limit [] w = []"
| "run_checks R key limit (i # js) w =
     (case checkRateLimit R key 60 limit i w of (a, w') \<Rightarrow> a # run_checks R key limit js w')"

definition admitted :: "int list \<Rightarrow> bool list \<Rightarrow> int" where
  "admitted js bs = sum_list (map fst (filter snd (zip js bs)))"

lemma admit_bound:
  "\<forall>i \<in> set js. 0 \<le> i \<Longrightarrow> n \<le> limit \<Longrightarrow> n + admitted js (admit limit (Some n) js) \<le> limit"
proof (induction js arbitrary: n)
  case (Cons i js)
  show ?case
  proof (cases "n + i > limit")
    case True
    then show ?thesis using Cons.IH [of n] Cons.prems by (simp add: admitted_def)
  next
    case False
    then show ?thesis using Cons.IH [of "n + i"] Cons.prems by (simp add: admitted_def)
  qed
qed (simp add: admitted_def)

lemma admit_bound_over:
  "\<forall>i \<in> set js. 0 \<le> i \<Longrightarrow> limit < n \<Longrightarrow> admitted js (admit limit (Some n) js) = 0"
proof (induction js)
  case (Cons i js)
  then show ?case by (simp add: admitted_def)
qed (simp add: admitted_def)

lemma admit_total:
  assumes "\<forall>i \<in> set js. 0 \<le> i" "js \<noteq> []"
  shows "admitted js (admit limit None js) \<le> max limit (hd js)"
proof -
  obtain i js' where js: "js = i # js'" using assms(2) by (cases js) auto
  have "admitted js (admit limit None js) = i + admitted js' (admit limit (Some i) js')"
    by (simp add: js admitted_def)
  then show ?thesis
    using admit_bound [of js' i limit] admit_bound_over [of js' limit i] assms(1) js
    by (cases "i \<le> limit") auto
qed

context redis_server
begin

lemma check_over:
  assumes "w_faults w = []" "holds R (w_redis w) k n" "exact n" "exact i" "exact (n + i)" "exact limit" "limit < n + i"
  shows "checkRateLimit R k 60 limit i w = (Some False, w)"
  using assms rate_limit_over [of "w_redis w" k n i limit 60] by (simp add: checkRateLimit_def)

lemma check_under:
  assumes "w_faults w = []" "holds R (w_redis w) k n" "exact n" "exact i" "exact (n + i)" "exact limit" "n + i \<le> limit"
  obtains r where "checkRateLimit R k 60 limit i w = (Some True, w\<lparr>w_redis := r\<rparr>)"
    and "holds R r k (n + i)" "\<And>k'. k' \<noteq> k \<Longrightarrow> rd_get R r k' = rd_get R (w_redis w) k'"
proof -
  obtain r where "lua_rate_limit R k 60 limit i (w_redis w) = (Some 1, r)" "holds R r k (n + i)"
    "\<And>k'. k' \<noteq> k \<Longrightarrow> rd_get R r k' = rd_get R (w_redis w) k'"
    by (rule rate_limit_under [OF assms(2-7), of 60]) blast
  with assms(1) show thesis by (intro that [of r]) (simp_all add: checkRateLimit_def)
qed

lemma check_first:
  assumes "w_faults w = []" "rd_get R (w_redis w) k = None" "exact i"
  obtains r where "checkRateLimit R k 60 limit i w = (Some True, w\<lparr>w_redis := r\<rparr>)"
    and "holds R r k i" "\<And>k'. k' \<noteq> k \<Longrightarrow> rd_get R r k' = rd_get R (w_redis w) k'"
proof -
  have "(0 :: int) < 60" by simp
  from rate_limit_first [OF assms(2,3) this] obtain r where
    "lua_rate_limit R k 60 limit i (w_redis w) = (Some 1, r)" "holds R r k i"
    "\<And>k'. k' \<noteq> k \<Longrightarrow> rd_get R r k' = rd_get R (w_redis w) k'"
    by blast
  with assms(1) show thesis by (intro that [of r]) (simp_all add: checkRateLimit_def)
qed

lemma run_checks_from:
  assumes "w_faults w = []" "holds R (w_redis w) k n" "0 \<le> n" "\<forall>i \<in> set js. 0 \<le> i" "exact limit"
    and "exact (n + sum_list js)"
  shows "run_checks R k limit js w = map Some (admit limit (Some n) js)"
  using assms
proof (induction js arbitrary: n w)
  case (Cons i js)
  have nn: "0 \<le> sum_list js" using Cons.prems(4) by (intro sum_list_nonneg) simp
  then have e: "exact n" "exact i" "exact (n + i)" "exact (n + sum_list js)" "exact (n + i + sum_list js)"
    using Cons.prems(3,4,6) by (auto simp: exact_def)
  show ?case
  proof (cases "limit < n + i")
    case True
    then show ?thesis
      using check_over [OF Cons.prems(1,2) e(1-3) Cons.prems(5) True]
        Cons.IH [OF Cons.prems(1-3) _ Cons.prems(5) e(4)] Cons.prems(4) by simp
  next
    case False
    then have le: "n + i \<le> limit" by simp
    obtain r where r: "checkRateLimit R k 60 limit i w = (Some True, w\<lparr>w_redis := r\<rparr>)" "holds R r k (n + i)"
      by (rule check_under [OF Cons.prems(1,2) e(1-3) Cons.prems(5) le])
    have "run_checks R k limit js (w\<lparr>w_redis := r\<rparr>) = map Some (admit limit (Some (n + i)) js)"
      by (rule Cons.IH) (use Cons.prems r e in simp_all)
    with r le show ?thesis by simp
  qed
qed simp

lemma run_checks_fresh:
  assumes "w_faults w = []" "rd_get R (w_redis w) k = None" "\<forall>i \<in> set js. 0 \<le> i" "exact limit"
    and "exact (sum_list js)"
  shows "run_checks R k limit js w = map Some (admit limit None js)"
proof (cases js)
  case (Cons i js')
  have nn: "0 \<le> sum_list js'" using assms(3) Cons by (intro sum_list_nonneg) simp
  then have e: "exact i" using assms(3,5) Cons by (auto simp: exact_def)
  obtain r where r: "checkRateLimit R k 60 limit i w = (Some True, w\<lparr>w_redis := r\<rparr>)" "holds R r k i"
    by (rule check_first [OF assms(1,2) e])
  have "run_checks R k limit js' (w\<lparr>w_redis := r\<rparr>) = map Some (admit limit (Some i) js')"
    by (rule run_checks_from) (use assms r Cons in simp_all)
  with r Cons show ?thesis by simp
qed simp

end

text \<open>
  C22. One window of a counter admits what the reference \<open>admit\<close> does: from a counter that does not
  exist, whatever increments the requests bring, the sequence of decisions is the reference's,
  and the admitted increments add up to at most the limit, or to the first request's own
  increment where that alone is over the limit.
\<close>

theorem rate_window_admits:
  assumes "redis_server R" "w_faults w = []" "rd_get R (w_redis w) k = None"
    and "\<forall>i \<in> set js. 0 \<le> i" "js \<noteq> []" "exact limit" "exact (sum_list js)"
  shows "run_checks R k limit js w = map Some (admit limit None js) \<and>
    admitted js (map (\<lambda>a. a = Some True) (run_checks R k limit js w)) \<le> max limit (hd js)"
proof -
  have run: "run_checks R k limit js w = map Some (admit limit None js)"
    by (rule redis_server.run_checks_fresh [OF assms(1-4,6,7)])
  then have "map (\<lambda>a. a = Some True) (run_checks R k limit js w) = admit limit None js"
    by (simp add: comp_def)
  with run admit_total [OF assms(4,5)] show ?thesis by simp
qed

theorem rate_window_admits_witness:
  "run_checks mem_redis (rpmKey 7) 2 [1, 1, 1, 1] (witness_world [] empty_db []) =
     [Some True, Some True, Some False, Some False]"
  using rate_window_admits [OF mem.redis_server_axioms, of "witness_world [] empty_db []" "rpmKey 7"
      "[1, 1, 1, 1]" 2] by (simp add: exact_def)

section \<open>Turning a request away\<close>

text \<open>A counter of the stage: an integer with room for the increment, or no key yet.\<close>

definition counter_room :: "'r redis_api \<Rightarrow> 'r \<Rightarrow> string \<Rightarrow> int \<Rightarrow> bool" where
  "counter_room R r k inc \<longleftrightarrow> rd_get R r k = None \<or>
     (\<exists>n. holds R r k n \<and> exact n \<and> exact (n + inc))"

definition rate_keys :: "int \<Rightarrow> string \<Rightarrow> string list" where
  "rate_keys uid model = [rpmKey uid, tpmKey uid, modelRPMKey uid model]"

lemma rate_keys_distinct: "tpmKey uid \<noteq> rpmKey uid" "modelRPMKey uid model \<noteq> rpmKey uid"
  "modelRPMKey uid model \<noteq> tpmKey uid"
  by (simp_all add: rpmKey_def tpmKey_def modelRPMKey_def)

lemma counters_are_no_pools:
  "same_elsewhere R (rate_keys uid model) r r' \<Longrightarrow> pools_are R (balanceKeys3 uid') r b \<Longrightarrow>
     pools_are R (balanceKeys3 uid') r' b"
  by (cases b) (simp add: same_elsewhere_def pools_are_def holds_def rate_keys_def balanceKeys3_def
      rpmKey_def tpmKey_def modelRPMKey_def subBalanceKey_def grantBalanceKey_def cashBalanceKey_def)

context redis_server
begin

lemma check_fine:
  assumes "w_faults w = []" "counter_room R (w_redis w) k inc" "exact inc" "exact limit"
  obtains a r where "checkRateLimit R k 60 limit inc w = (Some a, w\<lparr>w_redis := r\<rparr>)"
    and "\<And>k'. k' \<noteq> k \<Longrightarrow> rd_get R r k' = rd_get R (w_redis w) k'"
proof -
  consider (none) "rd_get R (w_redis w) k = None"
    | (over) n where "holds R (w_redis w) k n" "exact n" "exact (n + inc)" "limit < n + inc"
    | (under) n where "holds R (w_redis w) k n" "exact n" "exact (n + inc)" "n + inc \<le> limit"
    using assms(2) unfolding counter_room_def by (meson not_le)
  then show thesis
  proof cases
    case none
    show thesis by (rule check_first [OF assms(1) none assms(3)]) (rule that)
  next
    case over
    then show thesis
      using check_over [OF assms(1) over(1,2) assms(3) over(3) assms(4) over(4)] that [of False "w_redis w"] by simp
  next
    case under
    show thesis by (rule check_under [OF assms(1) under(1,2) assms(3) under(3) assms(4) under(4)]) (rule that)
  qed
qed

text \<open>Without failures the stage ends in a refusal or in the next stage, and touches its counters only.\<close>

lemma stage_outcome:
  assumes "w_faults w = []" "hr_ctx rq = cx" "cx_billing cx = Some True" "cx_user cx = Some uid"
    and "lim = resolveTierLimit cfg (coalesce0 (cx_tier cx))" "model = or_empty (cx_model cx)"
    and "tokens = (case cx_est_tokens cx of Some t \<Rightarrow> if t \<le> 0 then 1 else t | None \<Rightarrow> 1)"
    and e: "exact (tl_rpm lim)" "exact (tl_tpm lim)" "exact (tl_model_rpm lim)" "exact tokens"
    and room: "counter_room R (w_redis w) (rpmKey uid) 1" "counter_room R (w_redis w) (tpmKey uid) tokens"
      "counter_room R (w_redis w) (modelRPMKey uid model) 1"
  shows "\<exists>r. same_elsewhere R (rate_keys uid model) (w_redis w) r \<and>
    (rpmAndTPMMiddleware R cfg next rq w = next rq (w\<lparr>w_redis := r\<rparr>) \<or>
     (\<exists>msg code. rpmAndTPMMiddleware R cfg next rq w =
        (limit_error msg code, refund_ctx R model cx uid (w\<lparr>w_redis := r\<rparr>))))"
proof -
  have e1: "exact 1" by (simp add: exact_def)
  obtain a1 r1 where c1: "checkRateLimit R (rpmKey uid) 60 (tl_rpm lim) 1 w = (Some a1, w\<lparr>w_redis := r1\<rparr>)"
    and g1: "\<And>k'. k' \<noteq> rpmKey uid \<Longrightarrow> rd_get R r1 k' = rd_get R (w_redis w) k'"
    by (rule check_fine [OF assms(1) room(1) e1 e(1)]) blast
  let ?w1 = "w\<lparr>w_redis := r1\<rparr>"
  have "counter_room R (w_redis ?w1) (tpmKey uid) tokens"
    using room(2) g1 [OF rate_keys_distinct(1)] by (simp add: counter_room_def holds_def)
  then obtain a2 r2 where c2: "checkRateLimit R (tpmKey uid) 60 (tl_tpm lim) tokens ?w1 = (Some a2, ?w1\<lparr>w_redis := r2\<rparr>)"
    and g2: "\<And>k'. k' \<noteq> tpmKey uid \<Longrightarrow> rd_get R r2 k' = rd_get R r1 k'"
    using check_fine [of ?w1 "tpmKey uid" tokens "tl_tpm lim"] assms(1) e by auto
  let ?w2 = "w\<lparr>w_redis := r2\<rparr>"
  have "counter_room R (w_redis ?w2) (modelRPMKey uid model) 1"
    using room(3) g1 g2 rate_keys_distinct(2,3) by (simp add: counter_room_def holds_def)
  then obtain a3 r3 where c3: "checkRateLimit R (modelRPMKey uid model) 60 (tl_model_rpm lim) 1 ?w2 = (Some a3, ?w2\<lparr>w_redis := r3\<rparr>)"
    and g3: "\<And>k'. k' \<noteq> modelRPMKey uid model \<Longrightarrow> rd_get R r3 k' = rd_get R r2 k'"
    using check_fine [of ?w2 "modelRPMKey uid model" 1 "tl_model_rpm lim"] assms(1) e e1 by auto
  have s1: "same_elsewhere R (rate_keys uid model) (w_redis w) r1"
    using g1 by (simp add: same_elsewhere_def rate_keys_def)
  have s2: "same_elsewhere R (rate_keys uid model) (w_redis w) r2"
    using g1 g2 by (simp add: same_elsewhere_def rate_keys_def)
  have s3: "same_elsewhere R (rate_keys uid model) (w_redis w) r3"
    using g1 g2 g3 by (simp add: same_elsewhere_def rate_keys_def)
  let ?m = "rpmAndTPMMiddleware R cfg next rq w"
  have m: "?m = (if \<not> a1 then (limit_error ''RPM limit exceeded'' ''rpm_exceeded'', refund_ctx R model cx uid ?w1)
    else if \<not> a2 then (limit_error ''TPM limit exceeded'' ''tpm_exceeded'', refund_ctx R model cx uid ?w2)
    else if tl_model_rpm lim > 0 \<and> model \<noteq> ''''
    then (if \<not> a3 then (limit_error (''Model '' @ model @ '' RPM limit exceeded'') ''model_rpm_exceeded'',
            refund_ctx R model cx uid (w\<lparr>w_redis := r3\<rparr>)) else next rq (w\<lparr>w_redis := r3\<rparr>))
    else next rq ?w2)"
    using c1 c2 c3 assms(2-4)
    by (simp add: rpmAndTPMMiddleware_def Let_def assms(5) [symmetric] assms(6) [symmetric] assms(7) [symmetric])
  show ?thesis
  proof (cases a1)
    case False
    with m s1 show ?thesis by (intro exI [of _ r1]) auto
  next
    case a1: True
    show ?thesis
    proof (cases "a2 \<and> tl_model_rpm lim > 0 \<and> model \<noteq> ''''")
      case True
      with m s3 a1 show ?thesis by (intro exI [of _ r3]) auto
    next
      case False
      with m s2 a1 show ?thesis by (intro exI [of _ r2]) auto
    qed
  qed
qed

end

text \<open>
  C23. Without failures a billed request either goes on to the next stage with its balances as they
  were, or it is answered with 429, its three pools get back exactly what was deducted for it, and
  a refund record is queued. Other keys than the counters and the pools do not change.
\<close>

theorem limit_stage_refunds:
  assumes "redis_server R" "w_faults w = []" "hr_ctx rq = cx" "cx_billing cx = Some True" "cx_user cx = Some uid"
    and "lim = resolveTierLimit cfg (coalesce0 (cx_tier cx))" "model = or_empty (cx_model cx)"
    and "tokens = (case cx_est_tokens cx of Some t \<Rightarrow> if t \<le> 0 then 1 else t | None \<Rightarrow> 1)"
    and "exact (tl_rpm lim)" "exact (tl_tpm lim)" "exact (tl_model_rpm lim)" "exact tokens"
    and "counter_room R (w_redis w) (rpmKey uid) 1" "counter_room R (w_redis w) (tpmKey uid) tokens"
      "counter_room R (w_redis w) (modelRPMKey uid model) 1"
    and "pools_are R (balanceKeys3 uid) (w_redis w) (s, g, c)" "exact s" "exact g" "exact c"
    and "cx_sub cx = Some ds" "cx_grant cx = Some dg" "cx_cash cx = Some dc"
    and "cx_pre_deducted cx = Some (ds + dg + dc)" "0 \<le> ds" "0 \<le> dg" "0 \<le> dc" "0 < ds + dg + dc"
    and "exact (ds + dg + dc)" "exact (s + ds)" "exact (g + dg)" "exact (c + dc)"
  shows "\<exists>w1. w_db w1 = w_db w \<and> same_elsewhere R (rate_keys uid model) (w_redis w) (w_redis w1) \<and>
    pools_are R (balanceKeys3 uid) (w_redis w1) (s, g, c) \<and>
    (rpmAndTPMMiddleware R cfg next rq w = next rq w1 \<or>
     (\<exists>resp w'. rpmAndTPMMiddleware R cfg next rq w = (resp, w') \<and> rs_status resp = 429 \<and>
        pools_are R (balanceKeys3 uid) (w_redis w') (s + ds, g + dg, c + dc) \<and>
        same_elsewhere R (balanceKeys3 uid) (w_redis w1) (w_redis w') \<and> w_db w' = w_db w \<and>
        w_queue w' = w_queue w @ [TaskRecordBillingLog (Some (refund_record (ds + dg + dc)
          \<lparr>d_sub = ds, d_grant = dg, d_cash = dc\<rparr> (refund_request model cx uid)))]))"
proof -
  let ?d = "\<lparr>d_sub = ds, d_grant = dg, d_cash = dc\<rparr>"
  obtain r where same: "same_elsewhere R (rate_keys uid model) (w_redis w) r"
    and out: "rpmAndTPMMiddleware R cfg next rq w = next rq (w\<lparr>w_redis := r\<rparr>) \<or>
     (\<exists>msg code. rpmAndTPMMiddleware R cfg next rq w =
        (limit_error msg code, refund_ctx R model cx uid (w\<lparr>w_redis := r\<rparr>)))"
    using redis_server.stage_outcome [OF assms(1-15), of "next"] by blast
  let ?w1 = "w\<lparr>w_redis := r\<rparr>"
  have p: "pools_are R (balanceKeys3 uid) (w_redis ?w1) (s, g, c)"
    using counters_are_no_pools [OF same assms(16)] by simp
  have "exact (ds + dg)" using assms(24-28) by (auto simp: exact_def)
  then have t: "deduction_total ?d = ds + dg + dc" using assms(28) by (simp add: deduction_total_def)
  have rf: "refund_ctx R model cx uid ?w1 = refund R uid (deduction_total ?d) ?d (refund_request model cx uid) ?w1"
    using assms(20-23,27) by (simp add: refund_ctx_def t)
  have full: "pools_are R (balanceKeys3 uid) (w_redis (refund_ctx R model cx uid ?w1)) (s + ds, g + dg, c + dc) \<and>
      same_elsewhere R (balanceKeys3 uid) r (w_redis (refund_ctx R model cx uid ?w1)) \<and>
      w_db (refund_ctx R model cx uid ?w1) = w_db w \<and>
      w_queue (refund_ctx R model cx uid ?w1) =
        w_queue w @ [TaskRecordBillingLog (Some (refund_record (ds + dg + dc) ?d (refund_request model cx uid)))]"
    using refund_full [OF assms(1) _ p assms(17-19), of ?d _ "refund_request model cx uid"] assms(2,24-31) rf
    by (simp add: t)
  from out same p full show ?thesis
    by (intro exI [of _ ?w1]) (auto simp: limit_error_def writeOpenAIError_def)
qed

theorem limit_stage_refunds_witness:
  "\<exists>w1. pools_are mem_redis (balanceKeys3 7) (w_redis w1) (0, 0, 90) \<and>
    (rpmAndTPMMiddleware mem_redis witness_config (\<lambda>_ w. (writeOpenAIError 200 '''' '''' '''', w)) witness_http
       (witness_world (cached 7 (0, 0, 90)) empty_db []) = (writeOpenAIError 200 '''' '''' '''', w1) \<or>
     (\<exists>resp w'. rpmAndTPMMiddleware mem_redis witness_config (\<lambda>_ w. (writeOpenAIError 200 '''' '''' '''', w)) witness_http
       (witness_world (cached 7 (0, 0, 90)) empty_db []) = (resp, w') \<and> rs_status resp = 429 \<and>
       pools_are mem_redis (balanceKeys3 7) (w_redis w') (30, 20, 100)))"
proof -
  let ?w = "witness_world (cached 7 (0, 0, 90)) empty_db []"
  have free: "rd_get mem_redis (w_redis ?w) k = None" if "k \<in> set (rate_keys 7 ''m1'')" for k
    using that by (auto simp: rate_keys_def cached_def rpmKey_def tpmKey_def modelRPMKey_def
        subBalanceKey_def grantBalanceKey_def cashBalanceKey_def map_of_eq_None_iff)
  then have room: "counter_room mem_redis (w_redis ?w) (rpmKey 7) 1" "counter_room mem_redis (w_redis ?w) (tpmKey 7) 500"
    "counter_room mem_redis (w_redis ?w) (modelRPMKey 7 ''m1'') 1"
    by (simp_all add: counter_room_def rate_keys_def)
  have t1: "show_int 1 = ''1''" by code_simp
  have lim: "resolveTierLimit witness_config 1 = \<lparr>tl_rpm = 2, tl_tpm = 2000000, tl_model_rpm = 1\<rparr>"
    by (simp add: resolveTierLimit_def witness_config_def t1)
  note t = limit_stage_refunds [OF mem.redis_server_axioms, of ?w witness_http witness_ctx 7
      "\<lparr>tl_rpm = 2, tl_tpm = 2000000, tl_model_rpm = 1\<rparr>" witness_config "''m1''" 500 0 0 90 30 20 10
      "\<lambda>_ w. (writeOpenAIError 200 '''' '''' '''', w)"]
  have cx: "hr_ctx witness_http = witness_ctx" by (simp add: witness_http_def)
  have v: "cx_billing witness_ctx = Some True" "cx_user witness_ctx = Some 7" "cx_tier witness_ctx = Some 1"
    "cx_model witness_ctx = Some ''m1''" "cx_est_tokens witness_ctx = Some 500" "cx_sub witness_ctx = Some 30"
    "cx_grant witness_ctx = Some 20" "cx_cash witness_ctx = Some 10" "cx_pre_deducted witness_ctx = Some 60"
    by (simp_all add: witness_ctx_def)
  from t show ?thesis using room lim cx v by (auto simp: exact_def)
qed

end
