(* ===== verification/Concurrency.thy ===== *)
theory Concurrency
  imports RateLimit
begin

text \<open>
  internal/middleware/model_concurrency.go: a counter in Redis of the requests under way per model.
  The first part is the stage as one request sees it; the second interleaves the commands of many
  requests, one command per step.
\<close>

section \<open>The stage\<close>

definition concurrencyKey :: "string \<Rightarrow> string" where
  "concurrencyKey model = ''concurrency:model:'' @ model"

definition modelConcurrencyKeyTTL :: int where
  "modelConcurrencyKeyTTL = 15 * 60"

text \<open>What the caller gets: a release that does nothing, a slot to release, or an error.\<close>

datatype acquired = NoLimit | Slot | ConcurrencyExceeded | AcquireFailed

definition acquireModelConcurrencySlot ::
  "'r redis_api \<Rightarrow> string \<Rightarrow> int \<Rightarrow> 'r world \<Rightarrow> acquired \<times> 'r world" where
  "acquireModelConcurrencySlot R model limit w =
     (if limit \<le> 0 \<or> \<not> w_redis_on w then (NoLimit, w)
      else
        let key = concurrencyKey model in
        case redis_call (rd_incrby R key 1) w of
          (None, w1) \<Rightarrow> (AcquireFailed, w1)
        | (Some current, w1) \<Rightarrow>
          (case redis_call (\<lambda>r. (Some (), rd_expire R key modelConcurrencyKeyTTL r)) w1 of
             (None, w2) \<Rightarrow> (AcquireFailed, snd (redis_call (rd_decrby R key 1) w2))
           | (Some _, w2) \<Rightarrow>
             if current > limit
             then (ConcurrencyExceeded, snd (redis_call (rd_decrby R key 1) w2))
             else (Slot, w2)))"

definition release_slot :: "'r redis_api \<Rightarrow> string \<Rightarrow> 'r world \<Rightarrow> 'r world" where
  "release_slot R model w =
     (if \<not> w_redis_on w then w
      else case redis_call (rd_decrby R (concurrencyKey model) 1) w of
             (None, w1) \<Rightarrow> w1
           | (Some value, w1) \<Rightarrow>
               if value \<le> 0
               then snd (redis_call (\<lambda>r. (Some (), rd_del R [concurrencyKey model] r)) w1)
               else w1)"

definition refundPreDeduction :: "'r redis_api \<Rightarrow> request_ctx \<Rightarrow> int \<Rightarrow> 'r world \<Rightarrow> 'r world" where
  "refundPreDeduction R cx user w =
     (let model = (if or_empty (cx_public_model cx) = '''' then or_empty (cx_model cx)
                   else or_empty (cx_public_model cx))
      in refund_ctx R model cx user w)"

definition modelConcurrencyMiddleware :: "'r redis_api \<Rightarrow> 'r handler \<Rightarrow> 'r handler" where
  "modelConcurrencyMiddleware R next rq w =
     (let cx = hr_ctx rq; model = or_empty (cx_model cx) in
      if \<not> or_false (cx_billing cx) then next rq w
      else case cx_user cx of None \<Rightarrow> next rq w | Some uid \<Rightarrow>
      if model = '''' then next rq w
      else case getModel model w of
        (None, w1) \<Rightarrow> (writeOpenAIError 400 (''Unsupported model: '' @ model) ''invalid_request_error''
                        ''unsupported_model'', refundPreDeduction R cx uid w1)
      | (Some info, w1) \<Rightarrow>
        (case acquireModelConcurrencySlot R model (m_max_concurrency info) w1 of (slot, w2) \<Rightarrow>
         if slot = ConcurrencyExceeded
         then (limit_error ''Model concurrency limit exceeded'' ''model_concurrency_exceeded'',
               refundPreDeduction R cx uid w2)
         else if slot = Slot
         then (case next rq w2 of (resp, w3) \<Rightarrow> (resp, release_slot R model w3))
         else next rq w2))"

section \<open>A slot is given back\<close>

text \<open>The requests under way, as the counter has them: no key is none.\<close>

definition in_flight :: "'r redis_api \<Rightarrow> 'r \<Rightarrow> string \<Rightarrow> int \<Rightarrow> bool" where
  "in_flight R r model n \<longleftrightarrow> counts_as R r (concurrencyKey model) n"

definition small_count :: "int \<Rightarrow> bool" where
  "small_count n \<longleftrightarrow> 0 \<le> n \<and> n < 2 ^ 62"

lemma small_count_i64: "small_count n \<Longrightarrow> in_i64 n \<and> in_i64 (n + 1) \<and> in_i64 (n - 1) \<and> in_i64 1"
  by (simp add: small_count_def in_i64_def)

context redis_server
begin

lemma incr_counter:
  assumes "in_flight R r model n" "small_count n"
  obtains r' where "rd_incrby R (concurrencyKey model) 1 r = (Some (n + 1), r')" and "holds R r' (concurrencyKey model) (n + 1)"
    and "\<And>k. k \<noteq> concurrencyKey model \<Longrightarrow> rd_get R r' k = rd_get R r k"
proof -
  note c = assms(1) [unfolded in_flight_def] and i = small_count_i64 [OF assms(2)]
  show thesis
    using that [of "snd (rd_incrby R (concurrencyKey model) 1 r)"] incrby_reply [OF c, of 1]
      incrby_get [OF c, of 1] i
    by (metis holds_def prod.collapse)
qed

lemma decr_counter:
  assumes "in_flight R r model n" "small_count n"
  obtains r' where "rd_decrby R (concurrencyKey model) 1 r = (Some (n - 1), r')" and "holds R r' (concurrencyKey model) (n - 1)"
    and "\<And>k. k \<noteq> concurrencyKey model \<Longrightarrow> rd_get R r' k = rd_get R r k"
proof -
  note c = assms(1) [unfolded in_flight_def] and i = small_count_i64 [OF assms(2)]
  show thesis
    using that [of "snd (rd_decrby R (concurrencyKey model) 1 r)"] decrby_reply [OF c, of 1]
      decrby_get [OF c, of 1] i
    by (metis holds_def prod.collapse)
qed

lemma acquire_fine:
  assumes "w_faults w = []" "w_redis_on w" "0 < limit" "in_flight R (w_redis w) model n" "small_count n"
  obtains r where "acquireModelConcurrencySlot R model limit w =
      (if n < limit then Slot else ConcurrencyExceeded, w\<lparr>w_redis := r\<rparr>)"
    and "in_flight R r model (if n < limit then n + 1 else n)"
    and "\<And>k. k \<noteq> concurrencyKey model \<Longrightarrow> rd_get R r k = rd_get R (w_redis w) k"
proof -
  obtain r1 where i: "rd_incrby R (concurrencyKey model) 1 (w_redis w) = (Some (n + 1), r1)"
    and h1: "holds R r1 (concurrencyKey model) (n + 1)"
    and g1: "\<And>k. k \<noteq> concurrencyKey model \<Longrightarrow> rd_get R r1 k = rd_get R (w_redis w) k"
    by (rule incr_counter [OF assms(4,5)]) blast
  let ?r2 = "rd_expire R (concurrencyKey model) modelConcurrencyKeyTTL r1"
  have g2: "rd_get R ?r2 k = rd_get R r1 k" for k
    by (rule expire_get) (simp add: modelConcurrencyKeyTTL_def)
  have h2: "in_flight R ?r2 model (n + 1)" using h1 g2 by (simp add: in_flight_def counts_as_def holds_def)
  show thesis
  proof (cases "n < limit")
    case True
    then show thesis using assms i h2 g1 g2
      by (intro that [of ?r2]) (simp_all add: acquireModelConcurrencySlot_def Let_def)
  next
    case False
    have nf: "n + 1 \<noteq> 0" using assms(5) by (simp add: small_count_def)
    have "counts_as R ?r2 (concurrencyKey model) (n + 1)" using h2 by (simp add: in_flight_def)
    then have d: "fst (rd_decrby R (concurrencyKey model) 1 ?r2) = Some n"
      "rd_get R (snd (rd_decrby R (concurrencyKey model) 1 ?r2)) k =
        (if k = concurrencyKey model then Some (show_int n) else rd_get R ?r2 k)" for k
      using decrby_reply [of ?r2 _ "n + 1" 1] decrby_get [of ?r2 _ "n + 1" 1] small_count_i64 [OF assms(5)]
      by simp_all
    let ?r3 = "snd (rd_decrby R (concurrencyKey model) 1 ?r2)"
    have "in_flight R ?r3 model n" using d(2) by (simp add: in_flight_def counts_as_def holds_def)
    with False assms i g1 g2 d(2) show thesis
      by (intro that [of ?r3]) (simp_all add: acquireModelConcurrencySlot_def Let_def)
  qed
qed

lemma release_fine:
  assumes "w_faults w = []" "w_redis_on w" "in_flight R (w_redis w) model (n + 1)" "small_count (n + 1)" "0 \<le> n"
  obtains r where "release_slot R model w = w\<lparr>w_redis := r\<rparr>" and "in_flight R r model n"
    and "\<And>k. k \<noteq> concurrencyKey model \<Longrightarrow> rd_get R r k = rd_get R (w_redis w) k"
proof -
  obtain r1 where d: "rd_decrby R (concurrencyKey model) 1 (w_redis w) = (Some n, r1)"
    and h: "holds R r1 (concurrencyKey model) n"
    and g: "\<And>k. k \<noteq> concurrencyKey model \<Longrightarrow> rd_get R r1 k = rd_get R (w_redis w) k"
    using decr_counter [OF assms(3,4)] by (metis add_diff_cancel_right')
  show thesis
  proof (cases "n = 0")
    case True
    have "rd_get R (rd_del R [concurrencyKey model] r1) k =
        (if k = concurrencyKey model then None else rd_get R r1 k)" for k
      by (simp add: get_del)
    with True d g assms(1,2) show thesis
      by (intro that [of "rd_del R [concurrencyKey model] r1"])
        (simp_all add: release_slot_def in_flight_def counts_as_def)
  next
    case False
    with d g h assms(1,2,5) show thesis
      by (intro that [of r1]) (simp_all add: release_slot_def in_flight_def counts_as_def)
  qed
qed

end

text \<open>
  A slot is given back: without failures a request that finds fewer requests of the model
  under way than the limit goes through with the counter one higher, and, if what comes after
  leaves the counter as it found it, the counter ends where it was; a request that finds the limit
  reached is answered with 429, the counter stays, and the next stage is not called.
\<close>

lemma concurrency_slot_returned:
  assumes "redis_server R" "w_faults w = []" "w_redis_on w"
    and "cx_billing (hr_ctx rq) = Some True" "cx_user (hr_ctx rq) = Some uid" "cx_model (hr_ctx rq) = Some model"
    and "model \<noteq> ''''" "w_models w model = Some info" "0 < m_max_concurrency info"
    and "in_flight R (w_redis w) model n" "0 \<le> n" "n < 2 ^ 61"
    and "coalesce0 (cx_pre_deducted (hr_ctx rq)) = 0"
    and "\<And>r resp w3. next rq (w\<lparr>w_redis := r\<rparr>) = (resp, w3) \<Longrightarrow> in_flight R r model (n + 1) \<Longrightarrow>
      w_faults w3 = [] \<and> w_redis_on w3 \<and> in_flight R (w_redis w3) model (n + 1)"
  shows "\<exists>r. in_flight R r model (if n < m_max_concurrency info then n + 1 else n) \<and>
    in_flight R (w_redis (snd (modelConcurrencyMiddleware R next rq w))) model n \<and>
    (if n < m_max_concurrency info
     then fst (modelConcurrencyMiddleware R next rq w) = fst (next rq (w\<lparr>w_redis := r\<rparr>))
     else rs_status (fst (modelConcurrencyMiddleware R next rq w)) = 429 \<and>
       w_db (snd (modelConcurrencyMiddleware R next rq w)) = w_db w)"
proof -
  have sm: "small_count n" "small_count (n + 1)" using assms(11,12) by (simp_all add: small_count_def)
  obtain r where acq: "acquireModelConcurrencySlot R model (m_max_concurrency info) w =
      (if n < m_max_concurrency info then Slot else ConcurrencyExceeded, w\<lparr>w_redis := r\<rparr>)"
    and fl: "in_flight R r model (if n < m_max_concurrency info then n + 1 else n)"
    by (rule redis_server.acquire_fine [OF assms(1,2,3,9,10) sm(1)]) blast
  have g: "getModel model w = (Some info, w)" using assms(8) by (simp add: getModel_def)
  show ?thesis
  proof (cases "n < m_max_concurrency info")
    case True
    obtain resp w3 where nx: "next rq (w\<lparr>w_redis := r\<rparr>) = (resp, w3)" by fastforce
    note k = assms(14) [OF nx] fl
    obtain r4 where rel: "release_slot R model w3 = w3\<lparr>w_redis := r4\<rparr>" "in_flight R r4 model n"
      using redis_server.release_fine [OF assms(1), of w3 model n] k True sm(2) assms(11) by auto
    have "modelConcurrencyMiddleware R next rq w = (resp, w3\<lparr>w_redis := r4\<rparr>)"
      using True assms(4-7) g acq nx rel(1) by (simp add: modelConcurrencyMiddleware_def Let_def)
    with True fl rel(2) nx show ?thesis by (intro exI [of _ r]) simp
  next
    case False
    have "refundPreDeduction R (hr_ctx rq) uid (w\<lparr>w_redis := r\<rparr>) = w\<lparr>w_redis := r\<rparr>"
      using assms(13) by (simp add: refundPreDeduction_def refund_ctx_def Let_def)
    then have "modelConcurrencyMiddleware R next rq w =
        (limit_error ''Model concurrency limit exceeded'' ''model_concurrency_exceeded'', w\<lparr>w_redis := r\<rparr>)"
      using False assms(4-7) g acq by (simp add: modelConcurrencyMiddleware_def Let_def)
    with False fl show ?thesis by (intro exI [of _ r]) (simp add: limit_error_def writeOpenAIError_def)
  qed
qed

definition witness_world_models :: "keyspace world" where
  "witness_world_models = (witness_world [] empty_db [])
     \<lparr>w_models := [''m1'' \<mapsto> witness_model\<lparr>m_max_concurrency := 1\<rparr>]\<rparr>"

definition answer_ok :: "'r handler" where
  "answer_ok rq w = (\<lparr>rs_status = 200, rs_headers = [], rs_body = JsonBytes JNull\<rparr>, w)"

lemma concurrency_slot_returned_witness:
  "\<exists>r. in_flight mem_redis r ''m1'' 1 \<and>
    in_flight mem_redis (w_redis (snd (modelConcurrencyMiddleware mem_redis answer_ok
      (witness_http\<lparr>hr_ctx := witness_ctx\<lparr>cx_pre_deducted := None\<rparr>\<rparr>) witness_world_models))) ''m1'' 0"
proof -
  let ?w = witness_world_models and ?rq = "witness_http\<lparr>hr_ctx := witness_ctx\<lparr>cx_pre_deducted := None\<rparr>\<rparr>"
  have w: "w_faults ?w = []" "w_redis_on ?w" "w_models ?w ''m1'' = Some (witness_model\<lparr>m_max_concurrency := 1\<rparr>)"
    "in_flight mem_redis (w_redis ?w) ''m1'' 0"
    by (simp_all add: witness_world_models_def witness_world_def in_flight_def counts_as_def mem_redis_def)
  have nx: "w_faults w3 = [] \<and> w_redis_on w3 \<and> in_flight mem_redis (w_redis w3) ''m1'' (0 + 1)"
    if "answer_ok ?rq (?w\<lparr>w_redis := r\<rparr>) = (resp, w3)" "in_flight mem_redis r ''m1'' (0 + 1)" for r resp w3
    using that w by (auto simp: answer_ok_def)
  have "\<exists>r. in_flight mem_redis r ''m1'' (if (0::int) < 1 then 0 + 1 else 0) \<and>
    in_flight mem_redis (w_redis (snd (modelConcurrencyMiddleware mem_redis answer_ok ?rq ?w))) ''m1'' 0"
    using concurrency_slot_returned [OF mem.redis_server_axioms w(1,2), of ?rq 7 "''m1''" _ 0 answer_ok, OF _ _ _ _ w(3) _ w(4)]
      nx by (auto simp: witness_ctx_def)
  then show ?thesis by simp
qed

section \<open>Commands of many requests, interleaved\<close>

text \<open>
  The stage as Redis sees it: single commands of any number of requests in any order. A request is
  holding a slot, about to give back a count above the limit, or has found the counter empty on
  release and is about to delete the key. A counter of 0 and no counter are the same to \<open>INCR\<close> and
  \<open>DECR\<close>.
\<close>

record conc =
  cs_count :: int
  cs_hold :: nat
  cs_reject :: nat
  cs_deleting :: nat

inductive conc_step :: "int \<Rightarrow> conc \<Rightarrow> conc \<Rightarrow> bool" for limit :: int where
  enter_ok: "cs_count c + 1 \<le> limit \<Longrightarrow>
    conc_step limit c (c\<lparr>cs_count := cs_count c + 1, cs_hold := Suc (cs_hold c)\<rparr>)"
| enter_full: "limit < cs_count c + 1 \<Longrightarrow>
    conc_step limit c (c\<lparr>cs_count := cs_count c + 1, cs_reject := Suc (cs_reject c)\<rparr>)"
| back_off: "cs_reject c = Suc k \<Longrightarrow>
    conc_step limit c (c\<lparr>cs_count := cs_count c - 1, cs_reject := k\<rparr>)"
| leave: "cs_hold c = Suc k \<Longrightarrow> 0 < cs_count c - 1 \<Longrightarrow>
    conc_step limit c (c\<lparr>cs_count := cs_count c - 1, cs_hold := k\<rparr>)"
| leave_last: "cs_hold c = Suc k \<Longrightarrow> cs_count c - 1 \<le> 0 \<Longrightarrow>
    conc_step limit c (c\<lparr>cs_count := cs_count c - 1, cs_hold := k, cs_deleting := Suc (cs_deleting c)\<rparr>)"
| delete: "cs_deleting c = Suc k \<Longrightarrow> conc_step limit c (c\<lparr>cs_count := 0, cs_deleting := k\<rparr>)"

inductive_cases conc_step_cases: "conc_step limit c c'"

definition conc_start :: conc where
  "conc_start = \<lparr>cs_count = 0, cs_hold = 0, cs_reject = 0, cs_deleting = 0\<rparr>"

text \<open>Runs in which nothing comes between the two commands of a release.\<close>

inductive undisturbed :: "int \<Rightarrow> conc \<Rightarrow> bool" for limit :: int where
  start: "undisturbed limit conc_start"
| other: "undisturbed limit c \<Longrightarrow> cs_deleting c = 0 \<Longrightarrow> conc_step limit c c' \<Longrightarrow> undisturbed limit c'"
| release: "undisturbed limit c \<Longrightarrow> cs_deleting c = Suc k \<Longrightarrow>
    undisturbed limit (c\<lparr>cs_count := 0, cs_deleting := k\<rparr>)"

text \<open>
  C25. As long as no command of another request falls between the two commands of a release, the
  counter is the number of requests that hold a slot or are about to back off, and never more
  requests hold a slot than the limit says.
\<close>

theorem undisturbed_within_limit:
  assumes "undisturbed limit c" "0 \<le> limit"
  shows "cs_count c = int (cs_hold c) + int (cs_reject c) \<and> int (cs_hold c) \<le> limit \<and> cs_deleting c \<le> 1 \<and>
    (cs_deleting c = 1 \<longrightarrow> cs_count c = 0)"
  using assms(1)
proof induction
  case start
  with assms(2) show ?case by (simp add: conc_start_def)
next
  case (other c c')
  from other(3) show ?case by cases (use other(2,4) in auto)
next
  case (release c k)
  then show ?case by auto
qed

theorem undisturbed_within_limit_witness:
  "undisturbed 1 (conc_start\<lparr>cs_count := 1, cs_hold := 1\<rparr>) \<and>
   int (cs_hold (conc_start\<lparr>cs_count := 1, cs_hold := 1\<rparr>)) \<le> 1"
proof -
  have "conc_step 1 conc_start (conc_start\<lparr>cs_count := 1, cs_hold := 1\<rparr>)"
    using enter_ok [of conc_start 1] by (simp add: conc_start_def)
  then have u: "undisturbed 1 (conc_start\<lparr>cs_count := 1, cs_hold := 1\<rparr>)"
    by (rule undisturbed.other [OF undisturbed.start, rotated]) (simp add: conc_start_def)
  with undisturbed_within_limit [OF u] show ?thesis by simp
qed

text \<open>
  The limit can be exceeded: the release decrements and then deletes in two commands, and a
  request that comes between them loses its count, so that with a limit of 1 two requests can hold
  a slot at the same time.
\<close>

lemma release_race_exceeds_limit:
  "\<exists>c. (conc_step 1)\<^sup>*\<^sup>* conc_start c \<and> cs_hold c = 2 \<and> cs_count c = 1"
proof -
  let ?s = "\<lambda>n h d. \<lparr>cs_count = n, cs_hold = h, cs_reject = 0, cs_deleting = d\<rparr>"
  have "conc_step 1 (?s 0 0 0) (?s 1 1 0)" using enter_ok [of "?s 0 0 0" 1] by simp
  moreover have "conc_step 1 (?s 1 1 0) (?s 0 0 1)" using leave_last [of "?s 1 1 0" 0 1] by simp
  moreover have "conc_step 1 (?s 0 0 1) (?s 1 1 1)" using enter_ok [of "?s 0 0 1" 1] by simp
  moreover have "conc_step 1 (?s 1 1 1) (?s 0 1 0)" using delete [of "?s 1 1 1" 0 1] by simp
  moreover have "conc_step 1 (?s 0 1 0) (?s 1 2 0)" using enter_ok [of "?s 0 1 0" 1] by (simp add: numeral_2_eq_2)
  ultimately have "(conc_step 1)\<^sup>*\<^sup>* (?s 0 0 0) (?s 1 2 0)" by (meson converse_rtranclp_into_rtranclp r_into_rtranclp)
  then show ?thesis by (intro exI [of _ "?s 1 2 0"]) (simp add: conc_start_def)
qed



end
