(* ===== verification/Gateway.thy ===== *)
theory Gateway
  imports Async Concurrency
begin

text \<open>
  The stages as cmd/api/main.go chains them in front of the proxy and of the asynchronous tasks:
  authentication with the pre-deduction, rate limits, the concurrency of the model. The theorems follow a
  billing request through the whole chain.
\<close>

section \<open>The chain\<close>

definition upgrade_unsupported :: response where
  "upgrade_unsupported =
     \<lparr>rs_status = 501, rs_headers = [(''content-type'', ''application/json; charset=utf-8'')],
      rs_body = JsonBytes (error_body ''Protocol upgrade (e.g. WebSocket/Realtime) is not supported by this gateway''
        ''not_supported'' ''upgrade_unsupported'')\<rparr>"

definition proxy_entry :: "'r handler \<Rightarrow> 'r handler" where
  "proxy_entry proxy rq w =
     (if header_get (hr_headers rq) ''Upgrade'' \<noteq> '''' then (upgrade_unsupported, w) else proxy rq w)"

definition stages ::
  "'r redis_api \<Rightarrow> tokenizer \<Rightarrow> bool \<Rightarrow> server_config \<Rightarrow> 'r handler \<Rightarrow> 'r handler" where
  "stages R tok logging cfg handler =
     authAndPreDeductMiddleware R tok logging
       (rpmAndTPMMiddleware R cfg (modelConcurrencyMiddleware R handler))"

definition proxy_chain ::
  "'r redis_api \<Rightarrow> tokenizer \<Rightarrow> bool \<Rightarrow> server_config \<Rightarrow> upstream_env \<Rightarrow> 'r handler" where
  "proxy_chain R tok logging cfg env = stages R tok logging cfg (proxy_entry (gateway_proxy R tok logging env))"

datatype task_route = CreateTask | ReadTask string | CancelTask string

definition task_chain ::
  "'r redis_api \<Rightarrow> tokenizer \<Rightarrow> bool \<Rightarrow> server_config \<Rightarrow> async_env \<Rightarrow> task_route \<Rightarrow> 'r handler" where
  "task_chain R tok logging cfg env rt = stages R tok logging cfg
     (case rt of CreateTask \<Rightarrow> createVideoGenerationTask R env
               | ReadTask i \<Rightarrow> getTask R env i
               | CancelTask i \<Rightarrow> cancelTask R env i)"

text \<open>
  The list of models. \<open>order\<close> is the order in which Go walks over the map of the cache, which is not
  specified: the names in it, each once.
\<close>

definition listAllModels :: "string list \<Rightarrow> 'r world \<Rightarrow> model_row list" where
  "listAllModels order w = List.map_filter (w_models w) order"

definition model_object :: "'r world \<Rightarrow> model_row \<Rightarrow> json" where
  "model_object w m = JObj [(''id'', JStr (m_name m)), (''object'', JStr ''model''),
     (''created'', JNum (w_now w div 1000000000) 0), (''owned_by'', JStr ''AINode'')]"

definition list_models :: "string list \<Rightarrow> 'r handler" where
  "list_models order rq w =
     (let ms = listAllModels order w in
      (\<lparr>rs_status = 200, rs_headers = [(''content-type'', ''application/json'')],
        rs_body = JsonBytes (JObj [(''data'', if ms = [] then JNull else JList (map (model_object w) ms)),
          (''object'', JStr ''list'')])\<rparr>, w))"

section \<open>What the stages record\<close>

text \<open>A step that queues no billing record; without failures it stays without failures.\<close>

definition calm :: "'r world \<Rightarrow> 'r world \<Rightarrow> bool" where
  "calm w w' \<longleftrightarrow> w_faults w' = [] \<and> billing_tasks (w_queue w') = billing_tasks (w_queue w)"

lemma calm_trans: "calm w1 w2 \<Longrightarrow> calm w2 w3 \<Longrightarrow> calm w1 w3"
  by (simp add: calm_def)

lemma quiet_calm: "quiet w w' \<Longrightarrow> calm w w'"
  by (simp add: quiet_def calm_def)

lemma calm_same: "w_faults w' = [] \<Longrightarrow> w_queue w' = w_queue w \<Longrightarrow> calm w w'"
  by (simp add: calm_def)

text \<open>The request got its estimate back, and a record says so.\<close>

definition refunded :: "request_ctx \<Rightarrow> 'r world \<Rightarrow> 'r world \<Rightarrow> bool" where
  "refunded cx w w' \<longleftrightarrow> w_faults w' = [] \<and> (\<exists>s. billing_tasks (w_queue w') = billing_tasks (w_queue w) @ [s] \<and>
     record_for cx s \<and> s_log_type s = ''refund'' \<and> s_actual_cost s = 0)"

lemma refund_ctx_refunds:
  assumes "w_faults w = []" "0 < coalesce0 (cx_pre_deducted cx)" "cx_user cx = Some uid"
  shows "refunded cx w (refund_ctx R model cx uid w)"
  using assms
  by (auto simp: refunded_def refund_ctx_def refund_def record_for_def refund_record_def refund_request_def Let_def)

lemma refunded_after: "calm w w1 \<Longrightarrow> refunded cx w1 w2 \<Longrightarrow> refunded cx w w2"
  by (simp add: calm_def refunded_def)

lemma refunded_recorded: "refunded cx w w' \<Longrightarrow> recorded_once cx w (resp, w')"
  by (auto simp: refunded_def recorded_once_def)

lemma calm_recorded: "calm w w1 \<Longrightarrow> recorded_once cx w1 out \<Longrightarrow> recorded_once cx w out"
  by (simp add: calm_def recorded_once_def)

text \<open>What the context of a billed request holds.\<close>

definition charged :: "request_ctx \<Rightarrow> bool" where
  "charged cx \<longleftrightarrow> cx_billing cx = Some True \<and> (\<exists>uid. cx_user cx = Some uid) \<and> 0 < coalesce0 (cx_pre_deducted cx)"

lemma check_calm:
  assumes "w_faults w = []" "checkRateLimit R key s m i w = (a, w')"
  shows "calm w w'"
  using assms by (auto simp: checkRateLimit_def intro!: calm_same split: option.splits)

lemma rate_stage:
  assumes "w_faults w = []" "charged (hr_ctx rq)"
  shows "\<exists>w1. calm w w1 \<and> (rpmAndTPMMiddleware R cfg next rq w = next rq w1 \<or>
    (\<exists>resp w'. rpmAndTPMMiddleware R cfg next rq w = (resp, w') \<and> rs_status resp = 429 \<and> refunded (hr_ctx rq) w w'))"
proof -
  let ?cx = "hr_ctx rq"
  obtain uid where u: "cx_user ?cx = Some uid" using assms(2) by (auto simp: charged_def)
  let ?lim = "resolveTierLimit cfg (coalesce0 (cx_tier ?cx))" and ?model = "or_empty (cx_model ?cx)"
  let ?tokens = "case cx_est_tokens ?cx of Some t \<Rightarrow> if t \<le> 0 then 1 else t | None \<Rightarrow> 1"
  obtain a1 w1 where c1: "checkRateLimit R (rpmKey uid) 60 (tl_rpm ?lim) 1 w = (a1, w1)" by fastforce
  obtain a2 w2 where c2: "checkRateLimit R (tpmKey uid) 60 (tl_tpm ?lim) ?tokens w1 = (a2, w2)" by fastforce
  obtain a3 w3 where c3: "checkRateLimit R (modelRPMKey uid ?model) 60 (tl_model_rpm ?lim) 1 w2 = (a3, w3)" by fastforce
  have k1: "calm w w1" by (rule check_calm [OF assms(1) c1])
  then have k2: "calm w w2" using check_calm [OF _ c2] calm_trans by (auto simp: calm_def)
  then have k3: "calm w w3" using check_calm [OF _ c3] calm_trans by (auto simp: calm_def)
  have given: "refunded ?cx w (refund_ctx R ?model ?cx uid v)" if "calm w v" for v
    using refunded_after [OF that refund_ctx_refunds] that assms(2) u by (simp add: calm_def charged_def)
  have "\<exists>v. calm w v \<and> (rpmAndTPMMiddleware R cfg next rq w = next rq v \<or>
      (\<exists>msg code. rpmAndTPMMiddleware R cfg next rq w = (limit_error msg code, refund_ctx R ?model ?cx uid v)))"
    using assms(2) u c1 c2 c3 k1 k2 k3 by (auto simp: rpmAndTPMMiddleware_def Let_def charged_def)
  then obtain v where v: "calm w v" "rpmAndTPMMiddleware R cfg next rq w = next rq v \<or>
      (\<exists>msg code. rpmAndTPMMiddleware R cfg next rq w = (limit_error msg code, refund_ctx R ?model ?cx uid v))" by blast
  with given [OF v(1)] show ?thesis by (intro exI [of _ v]) (auto simp: limit_error_def writeOpenAIError_def)
qed

lemma acquire_calm:
  assumes "w_faults w = []" "acquireModelConcurrencySlot R model limit w = (a, w')"
  shows "calm w w'"
  using assms
  by (auto simp: acquireModelConcurrencySlot_def Let_def intro!: calm_same split: option.splits if_splits)

lemma release_queue: "w_queue (release_slot R model w) = w_queue w"
  by (auto simp: release_slot_def split: option.splits prod.splits dest: redis_call_frame(2))
     (metis prod.collapse redis_call_frame(2))

text \<open>The next stage is called at most once, and releasing the slot records nothing.\<close>

lemma concurrency_stage:
  assumes "w_faults w = []" "charged (hr_ctx rq)"
  shows "(\<exists>w1. calm w w1 \<and> fst (modelConcurrencyMiddleware R next rq w) = fst (next rq w1) \<and>
      w_queue (snd (modelConcurrencyMiddleware R next rq w)) = w_queue (snd (next rq w1))) \<or>
    (\<exists>resp w'. modelConcurrencyMiddleware R next rq w = (resp, w') \<and> rs_status resp \<in> {400, 429} \<and>
      refunded (hr_ctx rq) w w')"
proof -
  let ?cx = "hr_ctx rq" and ?m = "or_empty (cx_model (hr_ctx rq))"
  obtain uid where u: "cx_user ?cx = Some uid" using assms(2) by (auto simp: charged_def)
  have b: "or_false (cx_billing ?cx)" using assms(2) by (simp add: charged_def)
  have same: "calm v v" if "w_faults v = []" for v :: "'a world" using that by (simp add: calm_def)
  have given: "refunded ?cx w (refundPreDeduction R ?cx uid v)" if "calm w v" for v
    using refunded_after [OF that refund_ctx_refunds] that assms(2) u
    by (simp add: calm_def charged_def refundPreDeduction_def Let_def)
  obtain info w1 where g: "getModel ?m w = (info, w1)" by fastforce
  have k1: "calm w w1" using quiet_steps(5) [OF assms(1), of ?m] g by (simp add: quiet_calm)
  show ?thesis
  proof (cases "?m = ''''")
    case True
    with b u same assms(1) show ?thesis
      by (intro disjI1 exI [of _ w]) (simp add: modelConcurrencyMiddleware_def)
  next
    case named: False
    show ?thesis
    proof (cases info)
      case None
      with named b u g given [OF k1] show ?thesis
        by (intro disjI2) (simp add: modelConcurrencyMiddleware_def Let_def writeOpenAIError_def)
    next
      case (Some i)
      obtain slot w2 where a: "acquireModelConcurrencySlot R ?m (m_max_concurrency i) w1 = (slot, w2)" by fastforce
      have k2: "calm w w2" using acquire_calm [OF _ a] k1 calm_trans [OF k1] by (simp add: calm_def)
      note stage = Some named b u g a
      consider "slot = ConcurrencyExceeded" | "slot = Slot" | "slot \<noteq> ConcurrencyExceeded" "slot \<noteq> Slot" by blast
      then show ?thesis
      proof cases
        case 1
        with stage given [OF k2] show ?thesis
          by (intro disjI2) (simp add: modelConcurrencyMiddleware_def Let_def limit_error_def writeOpenAIError_def)
      next
        case 2
        with stage k2 show ?thesis
          by (intro disjI1 exI [of _ w2])
            (auto simp: modelConcurrencyMiddleware_def Let_def release_queue split: prod.splits)
      next
        case 3
        with stage k2 same show ?thesis
          by (intro disjI1 exI [of _ w2]) (auto simp: modelConcurrencyMiddleware_def Let_def split: prod.splits)
      qed
    qed
  qed
qed

section \<open>What reaches the stages\<close>

lemma parsed_body:
  assumes "read_request tok rt body = Inr p"
  shows "\<exists>len kvs. body = Body len (JsonBytes (JObj kvs))"
proof (cases body)
  case (Body len raw)
  with assms have p: "parse_request tok rt raw = Inr p" "pq_model p \<noteq> ''''"
    by (auto simp: read_request_def split: if_splits sum.splits)
  then obtain kvs where kvs: "struct_members raw = Some kvs" "str_field kvs ''model'' = Some (pq_model p)"
    by (cases rt) (auto simp: parseChatCompletionRequest_def parseImageGenerationRequest_def
        parseVideoGenerationRequest_def no_request_def split: option.splits)
  have "raw \<noteq> JsonBytes JNull"
  proof
    assume "raw = JsonBytes JNull"
    with kvs p(2) show False by (auto simp: struct_members_def str_field_def matching_def)
  qed
  with kvs(1) Body show ?thesis by (auto simp: struct_members_def split: raw_bytes.splits json.splits)
qed (use assms in \<open>auto simp: read_request_def no_request_def\<close>)

lemma load_calm: "w_faults w = [] \<Longrightarrow> calm w (snd (loadBalanceToCache R uid w))"
  by (auto simp: loadBalanceToCache_def syncUserBalanceCache_def intro!: calm_same split: option.splits prod.splits)

lemma preDeduct_calm:
  assumes "w_faults w = []"
  shows "calm w (snd (preDeduct R uid cost policy w))"
proof -
  have run: "calm v v'" if "w_faults v = []" "run_pre_deduct R uid cost p v = (a, v')" for v v' a p
    using that by (auto simp: run_pre_deduct_def intro!: calm_same split: option.splits)
  let ?p = "if policy = '''' then ''all'' else policy"
  obtain a w1 where r1: "run_pre_deduct R uid cost ?p w = (a, w1)" by fastforce
  obtain ok w2 where l: "loadBalanceToCache R uid w1 = (ok, w2)" by fastforce
  obtain a' w3 where r2: "run_pre_deduct R uid cost ?p w2 = (a', w3)" by fastforce
  have k1: "calm w w1" by (rule run [OF assms r1])
  then have k2: "calm w w2" using load_calm [of w1 R uid] l calm_trans by (auto simp: calm_def)
  then have k3: "calm w w3" using run [OF _ r2] calm_trans by (auto simp: calm_def)
  show ?thesis using r1 l r2 k1 k2 k3 by (auto simp: preDeduct_def Let_def split: option.splits prod.splits bool.splits)
qed

lemma middleware_log_calm: "w_faults w = [] \<Longrightarrow> calm w (logMiddlewareFailure cx s m et ec msg w)"
  by (auto simp: logMiddlewareFailure_def Let_def intro!: calm_same split: option.splits)

text \<open>A request that is charged goes on with its estimate in the context, any other is answered.\<close>

lemma admit_shape:
  assumes "w_faults w = []" "cx_billing cx = Some True" "cx_user cx = Some uid"
    and "\<And>m. fst (getModel (pq_model p) w) = Some m \<Longrightarrow> 0 < estimatedCost m (pq_prompt p) (pq_max_output p) (pq_units p)"
    and "admit_request R rt k uid cx p w = (out, w')"
  shows "calm w w' \<and> (\<forall>cx'. out = Inr cx' \<longrightarrow> charged cx')"
proof -
  obtain info w1 where g: "getModel (pq_model p) w = (info, w1)" by fastforce
  have k1: "calm w w1" using quiet_steps(5) [OF assms(1), of "pq_model p"] g by (simp add: quiet_calm)
  have logged: "calm w (logMiddlewareFailure cx s m et ec msg v)" if "calm w v" for s m et ec msg v
    using middleware_log_calm [of v] that calm_trans by (auto simp: calm_def)
  show ?thesis
  proof (cases info)
    case None
    with g assms(5) logged [OF k1] show ?thesis by (auto simp: admit_request_def Let_def)
  next
    case (Some m)
    let ?cost = "estimatedCost m (pq_prompt p) (pq_max_output p) (pq_units p)"
    have pos: "0 < ?cost" using assms(4) g Some by simp
    obtain r w2 where pd: "preDeduct R uid ?cost (m_billing_policy m) w1 = (r, w2)" by fastforce
    have k2: "calm w w2"
      using preDeduct_calm [of w1 R uid ?cost "m_billing_policy m"] k1 pd calm_trans by (auto simp: calm_def)
    obtain rid w3 where id: "new_uuid w2 = (rid, w3)" by fastforce
    have k3: "calm w w3" using k2 new_uuid_frame [OF id] by (simp add: calm_def)
    have "charged (charged_ctx cx p ?cost d rid)" for d
      using assms(2,3) pos by (simp add: charged_def charged_ctx_def)
    with g Some pd id k3 logged [OF k1] logged [OF k2] assms(5) show ?thesis
      by (auto simp: admit_request_def charge_request_def Let_def split: if_splits sum.splits)
  qed
qed

lemma auth_shape:
  assumes "w_faults w = []" "route_of (hr_path rq) \<noteq> OtherRoute"
    and "\<And>p m. read_request tok (route_of (hr_path rq)) (hr_body rq) = Inr p \<Longrightarrow>
      fst (getModel (pq_model p) w) = Some m \<Longrightarrow> 0 < estimatedCost m (pq_prompt p) (pq_max_output p) (pq_units p)"
  shows "(\<exists>resp w'. calm w w' \<and> (\<forall>nxt. authAndPreDeductMiddleware R tok logging nxt rq w = (resp, w'))) \<or>
    (\<exists>cx w'. calm w w' \<and> charged cx \<and> plain_json rq \<and>
      (\<forall>nxt. authAndPreDeductMiddleware R tok logging nxt rq w = nxt (rq\<lparr>hr_ctx := cx\<rparr>) w'))"
proof -
  let ?h = "header_get (hr_headers rq) ''Authorization''" and ?rt = "route_of (hr_path rq)"
  let ?q = "getUserByAPIKey (trim_prefix ?h ''Bearer '') (w_db w)"
  have same: "calm w w" using assms(1) by (simp add: calm_def)
  consider "\<not> has_prefix ?h ''Bearer '' \<or> ?q = None"
    | u k e where "has_prefix ?h ''Bearer ''" "?q = Some (u, k)" "read_request tok ?rt (hr_body rq) = Inl e"
    | u k p where "has_prefix ?h ''Bearer ''" "?q = Some (u, k)" "read_request tok ?rt (hr_body rq) = Inr p"
    by (cases "?q"; cases "read_request tok ?rt (hr_body rq)") auto
  then show ?thesis
  proof cases
    case 1
    with assms(1) same show ?thesis
      by (intro disjI1) (cases "has_prefix ?h ''Bearer ''"; force simp: authAndPreDeductMiddleware_def Let_def)
  next
    case 2
    with assms(1,2) same show ?thesis
      by (intro disjI1 exI [of _ e] exI [of _ w]) (simp add: authAndPreDeductMiddleware_def Let_def)
  next
    case 3
    let ?cx = "(hr_ctx rq)\<lparr>cx_start := Some (w_now w), cx_user := Some (u_id u), cx_api_key := Some (k_id k),
        cx_tier := Some (coalesce0 (u_tier u)), cx_billing := Some True\<rparr>"
    obtain out w' where a: "admit_request R ?rt k (u_id u) ?cx p w = (out, w')" by fastforce
    have shape: "calm w w' \<and> (\<forall>cx'. out = Inr cx' \<longrightarrow> charged cx')"
      by (rule admit_shape [OF assms(1) _ _ assms(3) [OF 3(3)] a]) simp_all
    have go: "authAndPreDeductMiddleware R tok logging nxt rq w =
        (case out of Inl e \<Rightarrow> (e, w') | Inr cx' \<Rightarrow> nxt (rq\<lparr>hr_ctx := cx'\<rparr>) w')" for nxt
      using 3 assms(1,2) a by (auto simp: authAndPreDeductMiddleware_def Let_def split: sum.splits)
    have "plain_json rq" using parsed_body [OF 3(3)] by (simp add: plain_json_def)
    with shape go show ?thesis by (cases out) auto
  qed
qed

section \<open>One record for every charge\<close>

text \<open>A charged request in the stages behind the authentication, for a handler that records it once.\<close>

lemma stages_record_once:
  assumes "w_faults w = []" "charged (hr_ctx rq)"
    and handler: "\<And>v. w_faults v = [] \<Longrightarrow> recorded_once (hr_ctx rq) v (handler rq v)"
  shows "recorded_once (hr_ctx rq) w (rpmAndTPMMiddleware R cfg (modelConcurrencyMiddleware R handler) rq w)"
proof -
  let ?cx = "hr_ctx rq" and ?next = "modelConcurrencyMiddleware R handler"
  have conc: "recorded_once ?cx v (?next rq v)" if "w_faults v = []" for v
    using concurrency_stage [OF that assms(2), of R handler]
  proof (elim disjE exE conjE)
    fix v1 assume k: "calm v v1" and r: "fst (?next rq v) = fst (handler rq v1)"
      and after: "w_queue (snd (?next rq v)) = w_queue (snd (handler rq v1))"
    have "recorded_once ?cx v1 (handler rq v1)" using handler [of v1] k by (simp add: calm_def)
    from calm_recorded [OF k this] after r show ?thesis by (simp add: recorded_once_def)
  next
    fix resp v' assume "?next rq v = (resp, v')" "refunded ?cx v v'"
    then show ?thesis by (simp add: refunded_recorded)
  qed
  show ?thesis
    using rate_stage [OF assms(1,2), of R cfg ?next]
  proof (elim exE conjE disjE)
    fix v assume k: "calm w v" and "rpmAndTPMMiddleware R cfg ?next rq w = ?next rq v"
    then show ?thesis using calm_recorded [OF k conc [of v]] by (simp add: calm_def)
  next
    fix v resp w' assume "rpmAndTPMMiddleware R cfg ?next rq w = (resp, w')" "refunded ?cx w w'"
    then show ?thesis by (simp add: refunded_recorded)
  qed
qed

text \<open>
  C2. From the request to the record. A request of a billing route either is answered by the
  authentication and leaves the queue of billing records as it was, or its estimate is taken and exactly
  one record is queued for it, whatever the rate limits, the concurrency limit, the retries and the
  upstreams do: a refund that charges nothing, or the settlement of an answer with status 200, with the
  request id and the deduction that the authentication put into the context. (Nothing of the gateway's
  own fails, streams end or are closed, the estimate does not overflow, and no upgrade is asked for.)
\<close>

theorem chain_records_once:
  assumes "w_faults w = []" "route_of (hr_path rq) \<noteq> OtherRoute" "header_get (hr_headers rq) ''Upgrade'' = ''''"
    and "\<forall>p m. read_request tok (route_of (hr_path rq)) (hr_body rq) = Inr p \<longrightarrow>
      fst (getModel (pq_model p) w) = Some m \<longrightarrow> 0 < estimatedCost m (pq_prompt p) (pq_max_output p) (pq_units p)"
    and "\<forall>i q r. env_reply env i q = Reply r \<longrightarrow> list_ex ends_stream (up_reads r)"
  shows "(\<exists>resp w'. (\<forall>nxt. authAndPreDeductMiddleware R tok logging nxt rq w = (resp, w')) \<and>
      proxy_chain R tok logging cfg env rq w = (resp, w') \<and> billing_tasks (w_queue w') = billing_tasks (w_queue w)) \<or>
    (\<exists>cx w1 s resp w'. (\<forall>nxt. authAndPreDeductMiddleware R tok logging nxt rq w = nxt (rq\<lparr>hr_ctx := cx\<rparr>) w1) \<and>
      proxy_chain R tok logging cfg env rq w = (resp, w') \<and> 0 < coalesce0 (cx_pre_deducted cx) \<and>
      billing_tasks (w_queue w') = billing_tasks (w_queue w) @ [s] \<and> record_for cx s \<and>
      (s_log_type s = ''refund'' \<and> s_actual_cost s = 0 \<or> s_log_type s = ''consumption'' \<and> rs_status resp = 200))"
proof -
  have "(\<exists>resp w'. calm w w' \<and> (\<forall>nxt. authAndPreDeductMiddleware R tok logging nxt rq w = (resp, w'))) \<or>
    (\<exists>cx w1. calm w w1 \<and> charged cx \<and> plain_json rq \<and>
      (\<forall>nxt. authAndPreDeductMiddleware R tok logging nxt rq w = nxt (rq\<lparr>hr_ctx := cx\<rparr>) w1))"
    by (rule auth_shape [OF assms(1,2)]) (use assms(4) in blast)
  then show ?thesis
  proof (elim disjE exE conjE)
  fix resp w' assume "calm w w'" "\<forall>nxt. authAndPreDeductMiddleware R tok logging nxt rq w = (resp, w')"
  then show ?thesis by (simp add: proxy_chain_def stages_def calm_def)
next
  fix cx w1 assume k: "calm w w1" and c: "charged cx" and p: "plain_json rq"
    and go: "\<forall>nxt. authAndPreDeductMiddleware R tok logging nxt rq w = nxt (rq\<lparr>hr_ctx := cx\<rparr>) w1"
  let ?rq = "rq\<lparr>hr_ctx := cx\<rparr>" and ?handler = "proxy_entry (gateway_proxy R tok logging env)"
  obtain resp w' where out: "proxy_chain R tok logging cfg env rq w = (resp, w')" by fastforce
  have handler: "recorded_once (hr_ctx ?rq) v (?handler ?rq v)" if "w_faults v = []" for v
    using proxy_records_once [of v ?rq env R tok logging] that c p assms(3,5)
    by (simp add: proxy_entry_def charged_def plain_json_def)
  have "recorded_once cx w1 (proxy_chain R tok logging cfg env rq w)"
    using stages_record_once [of w1 ?rq ?handler R cfg, OF _ _ handler] k c go
    by (simp add: proxy_chain_def stages_def calm_def)
  from calm_recorded [OF k this] out go c show ?thesis
    by (intro disjI2) (fastforce simp: recorded_once_def charged_def)
qed
qed

definition gateway_world :: "keyspace world" where
  "gateway_world = witness_auth_world\<lparr>w_manager := w_manager routed_world\<rparr>"

lemma gateway_world_parts:
  "w_db gateway_world = w_db witness_auth_world" "w_faults gateway_world = []" "w_queue gateway_world = []"
  "getModel ''m1'' gateway_world = (Some witness_model, gateway_world\<lparr>w_models := (w_models gateway_world)(''m1'' \<mapsto> witness_model)\<rparr>)"
  "balances_before mem_redis 7 gateway_world (30000, 0, 300000)"
  using witness_account(4)
  by (simp_all add: gateway_world_def witness_auth_world_def balances_before_def getModel_def loadModel_def
      getModelByName_def witness_model_def)

lemma gateway_world_charges:
  obtains cx w' where "\<And>nxt. authAndPreDeductMiddleware mem_redis length_tokenizer True nxt (chat_http ''sk-1'') gateway_world =
      nxt ((chat_http ''sk-1'')\<lparr>hr_ctx := cx\<rparr>) w'" and "cx_pre_deducted cx = Some 231750"
proof -
  have m: "fst (getModel (pq_model witness_parsed) gateway_world) = Some witness_model"
    by (simp add: witness_parsed_def gateway_world_parts)
  have c: "231750 = estimatedCost witness_model (pq_prompt witness_parsed) (pq_max_output witness_parsed)
      (pq_units witness_parsed)" by (simp add: witness_parsed_def witness_account)
  have q: "0 \<le> quota_used witness_key" "quota_used witness_key < 2 ^ 62" by (simp_all add: quota_used_def witness_key_def)
  have e: "exact 231750" "exact_pools (30000, 0, 300000)" by (simp_all add: exact_def exact_pools_def)
  have u: "u_id (witness_user 7 (30000, 0, 300000)) = 7" by (simp add: witness_user_def)
  have k: "getUserByAPIKey (trim_prefix (header_get (hr_headers (chat_http ''sk-1'')) ''Authorization'') ''Bearer '')
      (w_db gateway_world) = Some (witness_user 7 (30000, 0, 300000), witness_key)"
    by (simp add: witness_request gateway_world_parts witness_account)
  let ?cx = "(hr_ctx (chat_http ''sk-1''))\<lparr>cx_start := Some (w_now gateway_world), cx_user := Some 7,
      cx_api_key := Some (k_id witness_key), cx_tier := Some (coalesce0 (u_tier (witness_user 7 (30000, 0, 300000)))),
      cx_billing := Some True\<rparr>"
  obtain d rid w' where a: "admit_request mem_redis ChatRoute witness_key 7 ?cx witness_parsed gateway_world =
      (Inr (charged_ctx ?cx witness_parsed 231750 d rid), w')"
    by (rule admit_charges [OF mem.redis_server_axioms gateway_world_parts(2) m c _ e(1) gateway_world_parts(5) e(2) q
          witness_account(6) refl]) simp_all
  have "authAndPreDeductMiddleware mem_redis length_tokenizer True nxt (chat_http ''sk-1'') gateway_world =
      nxt ((chat_http ''sk-1'')\<lparr>hr_ctx := charged_ctx ?cx witness_parsed 231750 d rid\<rparr>) w'" for nxt
    using auth_is_admit [OF gateway_world_parts(2) witness_request(1) k, of length_tokenizer witness_parsed mem_redis True nxt]
      witness_request(3,4) a u by simp
  then show thesis by (rule that) (simp add: charged_ctx_def)
qed

theorem chain_records_once_witness:
  "\<exists>s. billing_tasks (w_queue (snd (proxy_chain mem_redis length_tokenizer True witness_config busy_upstream
      (chat_http ''sk-1'') gateway_world))) = [s] \<and> s_pre_deducted s = 231750"
proof -
  let ?auth = "\<lambda>nxt. authAndPreDeductMiddleware mem_redis length_tokenizer True nxt (chat_http ''sk-1'') gateway_world"
  obtain cx w1 where go: "\<And>nxt. ?auth nxt = nxt ((chat_http ''sk-1'')\<lparr>hr_ctx := cx\<rparr>) w1" and cx: "cx_pre_deducted cx = Some 231750"
    by (rule gateway_world_charges) blast
  have not_fixed: "\<not> (\<forall>nxt. ?auth nxt = (resp, w'))" for resp w'
  proof
    assume "\<forall>nxt. ?auth nxt = (resp, w')"
    from this [rule_format, of "\<lambda>rq w. (writeOpenAIError 400 '''' '''' '''', w)"]
      this [rule_format, of "\<lambda>rq w. (writeOpenAIError 401 '''' '''' '''', w)"] go
    show False by (auto simp: writeOpenAIError_def)
  qed
  have up: "header_get (hr_headers (chat_http ''sk-1'')) ''Upgrade'' = ''''" by code_simp
  have pos: "\<forall>p m. read_request length_tokenizer (route_of (hr_path (chat_http ''sk-1''))) (hr_body (chat_http ''sk-1'')) = Inr p \<longrightarrow>
      fst (getModel (pq_model p) gateway_world) = Some m \<longrightarrow> 0 < estimatedCost m (pq_prompt p) (pq_max_output p) (pq_units p)"
    by (auto simp: witness_request witness_parsed_def gateway_world_parts witness_account)
  have ends: "\<forall>i q r. env_reply busy_upstream i q = Reply r \<longrightarrow> list_ex ends_stream (up_reads r)"
    by (auto simp: busy_upstream_def)
  have "route_of (hr_path (chat_http ''sk-1'')) \<noteq> OtherRoute" by (simp add: witness_request)
  from chain_records_once [OF gateway_world_parts(2) this up pos ends, of mem_redis True witness_config]
  obtain cx' w2 s where t: "\<forall>nxt. ?auth nxt = nxt ((chat_http ''sk-1'')\<lparr>hr_ctx := cx'\<rparr>) w2"
    "billing_tasks (w_queue (snd (proxy_chain mem_redis length_tokenizer True witness_config busy_upstream
      (chat_http ''sk-1'') gateway_world))) = billing_tasks (w_queue gateway_world) @ [s]" "record_for cx' s"
    using not_fixed by fastforce
  from t(1) [rule_format, of "\<lambda>rq w. (unauthorized\<lparr>rs_status := coalesce0 (cx_pre_deducted (hr_ctx rq))\<rparr>, w)"]
    go [of "\<lambda>rq w. (unauthorized\<lparr>rs_status := coalesce0 (cx_pre_deducted (hr_ctx rq))\<rparr>, w)"] cx
  have "coalesce0 (cx_pre_deducted cx') = 231750" by (simp add: unauthorized_def)
  with t(2,3) show ?thesis by (simp add: gateway_world_parts record_for_def billing_tasks_def)
qed

text \<open>
  A request that asks for an upgrade is refused behind the authentication: its estimate has been taken, and
  unless a limit stops it before, no record is queued that would give it back.
\<close>

lemma upgrade_keeps_charge:
  assumes "w_faults w = []" "charged (hr_ctx rq)" "header_get (hr_headers rq) ''Upgrade'' \<noteq> ''''"
    and out: "rpmAndTPMMiddleware R cfg (modelConcurrencyMiddleware R (proxy_entry proxy)) rq w = (resp, w')"
  shows "rs_status resp \<in> {400, 429} \<and> refunded (hr_ctx rq) w w' \<or>
    resp = upgrade_unsupported \<and> billing_tasks (w_queue w') = billing_tasks (w_queue w)"
proof -
  let ?next = "modelConcurrencyMiddleware R (proxy_entry proxy)"
  consider v where "calm w v" "?next rq v = (resp, w')" | "rs_status resp = 429" "refunded (hr_ctx rq) w w'"
    using rate_stage [OF assms(1,2), of R cfg ?next] out by auto
  then show ?thesis
  proof cases
    case 1
    have "w_faults v = []" using 1(1) by (simp add: calm_def)
    from concurrency_stage [OF this assms(2), of R "proxy_entry proxy"] 1 assms(3) show ?thesis
      using refunded_after [OF 1(1), of "hr_ctx rq" w'] by (auto simp: proxy_entry_def calm_def)
  qed simp
qed

end
