(* ===== verification/Worker.thy ===== *)
theory Worker
  imports Billing "HOL-Library.Sublist"
begin

text \<open>
  internal/worker: the consumers of the task queue. \<open>handleRecordBillingLog\<close> writes a settlement to
  the database in one transaction; \<open>handleRecordRequestLog\<close> writes the audit record. The result is
  what the queue library sees: the task is done, is to be retried, or is to be dropped.

  The locale \<open>idempotent_consumer\<close> states what makes redelivery harmless and derives that any
  sequence of deliveries, with repetitions and failures, applies every message at most once; it
  is interpreted on the billing worker here and on the subscription handler in theory
  Subscription.
\<close>

section \<open>Splitting the actual cost\<close>

text \<open>The closure \<open>take\<close> of \<open>splitActual3\<close>, with the remainder it shares threaded.\<close>

definition take_deducted :: "int \<Rightarrow> int \<Rightarrow> int \<times> int" where
  "take_deducted deducted rem =
     (if rem \<le> 0 \<or> deducted \<le> 0 then (0, rem)
      else let t = (if deducted > rem then rem else deducted) in (t, rem - t))"

definition splitActual3 :: "int \<Rightarrow> int \<Rightarrow> int \<Rightarrow> int \<Rightarrow> int \<times> int \<times> int" where
  "splitActual3 actual sd gd cd =
     (let (s, rem1) = take_deducted sd actual;
          (g, rem2) = take_deducted gd rem1;
          (c, rem3) = take_deducted cd rem2
      in (s, g, c))"

lemma take_deducted_share: "take_deducted d rem = (share d rem, rem - share d rem)"
  by (auto simp: take_deducted_def share_def)

text \<open>The worker's split of the actual cost is the waterfall over the deductions: it follows the
  order sub, grant, cash, gives each pool at most what was pre-deducted from it, and adds up to
  the actual cost, or to the whole deduction if that is less.\<close>

lemma splitActual3_waterfall:
  "(case splitActual3 actual sd gd cd of (s, g, c) \<Rightarrow>
      [s, g, c] = waterfall actual [sd, gd, cd] \<and>
      s + g + c = min (max 0 actual) (max 0 sd + max 0 gd + max 0 cd) \<and>
      0 \<le> s \<and> s \<le> max 0 sd \<and> 0 \<le> g \<and> g \<le> max 0 gd \<and> 0 \<le> c \<and> c \<le> max 0 cd)"
proof -
  have "sum_list (waterfall actual [sd, gd, cd]) = min (max 0 actual) (capacity [sd, gd, cd])"
    by (rule waterfall_sum)
  then show ?thesis
    by (simp add: splitActual3_def take_deducted_share Let_def add.assoc)
qed

lemma splitActual3_eq:
  "splitActual3 actual sd gd cd =
     (waterfall actual [sd, gd, cd] ! 0, waterfall actual [sd, gd, cd] ! 1,
      waterfall actual [sd, gd, cd] ! 2)"
  by (simp add: splitActual3_def take_deducted_share Let_def)

section \<open>The billing worker\<close>

datatype task_result = TaskDone | TaskRetry | TaskSkipRetry

definition null_text :: "string \<Rightarrow> string option" where
  "null_text s = (if s = '''' then None else Some s)"

definition null_pos :: "int \<Rightarrow> int option" where
  "null_pos i = (if i > 0 then Some i else None)"

definition billing_log_of :: "string \<Rightarrow> settlement_request \<Rightarrow> billing_log_row" where
  "billing_log_of uuid req = \<lparr>bl_id = uuid, bl_user = Some (s_user req),
     bl_channel = null_pos (s_channel req), bl_model = s_model req, bl_prompt = Some (s_prompt req),
     bl_completion = Some (s_completion req), bl_cache_hit = Some (s_cache_hit req),
     bl_cache_miss = Some (s_cache_miss req), bl_amount = s_actual_cost req,
     bl_log_type = s_log_type req, bl_pre_deducted = s_pre_deducted req,
     bl_request_id = null_text (s_request_id req)\<rparr>"

definition handleRecordBillingLog ::
  "settlement_request option \<Rightarrow> 'r world \<Rightarrow> task_result \<times> 'r world" where
  "handleRecordBillingLog payload w =
     (case payload of None \<Rightarrow> (TaskSkipRetry, w) | Some req \<Rightarrow>
      case tx_begin w of (None, w1) \<Rightarrow> (TaskRetry, w1) | (Some d, w1) \<Rightarrow>
      case (if s_request_id req \<noteq> ''''
            then tx_call (Some (checkBillingLogExists (null_text (s_request_id req)) d)) w1
            else (Some False, w1)) of
        (None, w2) \<Rightarrow> (TaskRetry, w2)
      | (Some exists, w2) \<Rightarrow>
      if exists then (TaskDone, w2)
      else
        let (s, g, c) = splitActual3 (s_actual_cost req) (s_sub_deducted req)
              (s_grant_deducted req) (s_cash_deducted req) in
        case tx_call (updateUserSubBalance (w_now w2) (s_user req) (wrap64 (- s)) d) w2 of
          (None, w3) \<Rightarrow> (TaskRetry, w3) | (Some d1, w3) \<Rightarrow>
        case tx_call (updateUserTopupBalance (s_user req) (wrap64 (- c)) d1) w3 of
          (None, w4) \<Rightarrow> (TaskRetry, w4) | (Some d2, w4) \<Rightarrow>
        case tx_call (updateUserGrantBalance (s_user req) (wrap64 (- g)) d2) w4 of
          (None, w5) \<Rightarrow> (TaskRetry, w5) | (Some d3, w5) \<Rightarrow>
        case new_uuid w5 of (uuid, w6) \<Rightarrow>
        case tx_call (createBillingLog (billing_log_of uuid req) d3) w6 of
          (None, w7) \<Rightarrow> (TaskRetry, w7) | (Some d4, w7) \<Rightarrow>
        case tx_commit d4 w7 of
          (False, w8) \<Rightarrow> (TaskRetry, w8)
        | (True, w8) \<Rightarrow>
            (TaskDone,
             if s_api_key req > 0
             then snd (db_update (incrementAPIKeyQuotaUsed (s_api_key req) (s_actual_cost req)) w8)
             else w8))"

section \<open>The request log worker\<close>

definition raw_column :: "raw_bytes \<Rightarrow> json option option" where
  "raw_column p = (case p of NoBytes \<Rightarrow> Some None | BadBytes \<Rightarrow> None | JsonBytes j \<Rightarrow> Some (Some j))"

definition request_log_of :: "request_log_request \<Rightarrow> json option \<Rightarrow> request_log_row" where
  "request_log_of req payload = \<lparr>rl_request_id = rq_request_id req, rl_user = rq_user req,
     rl_api_key = null_pos (rq_api_key req), rl_channel = null_pos (rq_channel req),
     rl_provider = (if rq_provider req = '''' then ''-'' else rq_provider req),
     rl_type = rq_type req, rl_public_model = rq_public_model req,
     rl_upstream_model = (if rq_upstream_model req = '''' then rq_public_model req
                          else rq_upstream_model req),
     rl_payload = payload, rl_prompt = rq_prompt req, rl_completion = rq_completion req,
     rl_cache_hit = rq_cache_hit req, rl_cache_miss = rq_cache_miss req,
     rl_amount = rq_amount req, rl_pre_deducted = rq_pre_deducted req, rl_status = rq_status req,
     rl_stream = rq_stream req, rl_success = rq_success req\<rparr>"

definition handleRecordRequestLog ::
  "request_log_request option \<Rightarrow> 'r world \<Rightarrow> task_result \<times> 'r world" where
  "handleRecordRequestLog payload w =
     (case payload of None \<Rightarrow> (TaskSkipRetry, w) | Some req \<Rightarrow>
      case db_update (\<lambda>d. Option.bind (raw_column (rq_payload req))
                            (\<lambda>p. createRequestLog (request_log_of req p) d)) w of
        (None, w1) \<Rightarrow> (TaskRetry, w1)
      | (Some _, w1) \<Rightarrow> (TaskDone, w1))"

section \<open>One delivery\<close>

text \<open>What the transaction of one delivery does to the tables.\<close>

definition billing_tx :: "string \<Rightarrow> int \<Rightarrow> settlement_request \<Rightarrow> db \<Rightarrow> db option" where
  "billing_tx uuid now req d =
     (let (s, g, c) = splitActual3 (s_actual_cost req) (s_sub_deducted req)
            (s_grant_deducted req) (s_cash_deducted req) in
      Option.bind (updateUserSubBalance now (s_user req) (wrap64 (- s)) d) (\<lambda>d1.
      Option.bind (updateUserTopupBalance (s_user req) (wrap64 (- c)) d1) (\<lambda>d2.
      Option.bind (updateUserGrantBalance (s_user req) (wrap64 (- g)) d2)
        (createBillingLog (billing_log_of uuid req)))))"

definition recorded :: "settlement_request \<Rightarrow> db \<Rightarrow> bool" where
  "recorded req d \<longleftrightarrow> s_request_id req \<noteq> '''' \<and> checkBillingLogExists (Some (s_request_id req)) d"

lemma tx_call_eq: "tx_call a w = (if this_fault w = Fine then a else None, w\<lparr>w_faults := tl (w_faults w)\<rparr>)"
  by (simp add: tx_call_def next_fault_eq)

lemma tx_call_cases:
  assumes "tx_call a w = (b, w')"
  shows "(\<forall>x. b = Some x \<longrightarrow> a = Some x) \<and> w_db w' = w_db w \<and> w_now w' = w_now w \<and> w_queue w' = w_queue w
    \<and> w_redis w' = w_redis w \<and> w_redis_on w' = w_redis_on w"
  using assms by (auto simp: tx_call_eq split: if_splits)

lemma handle_billing_cases:
  assumes "handleRecordBillingLog (Some req) w = (res, w')"
  shows "(w_db w' = w_db w \<and> (res = TaskDone \<longrightarrow> recorded req (w_db w))) \<or>
    (\<not> recorded req (w_db w) \<and> (\<exists>uuid d. billing_tx uuid (w_now w) req (w_db w) = Some d \<and>
       (w_db w' = d \<or> incrementAPIKeyQuotaUsed (s_api_key req) (s_actual_cost req) d = Some (w_db w'))))"
proof -
  obtain s g c where sp: "splitActual3 (s_actual_cost req) (s_sub_deducted req)
      (s_grant_deducted req) (s_cash_deducted req) = (s, g, c)" by (metis prod_cases3)
  let ?unchanged = "w_db w' = w_db w \<and> (res = TaskDone \<longrightarrow> recorded req (w_db w))"
  show ?thesis
  proof (rule ccontr)
    assume n: "\<not> ?thesis"
    obtain b1 w1 where s1: "tx_begin w = (b1, w1)" by fastforce
    note f1 = tx_call_cases [OF s1 [unfolded tx_begin_def]]
    have b1: "b1 = Some (w_db w)"
      using n assms s1 f1 by (cases b1) (auto simp: handleRecordBillingLog_def)
    define chk where "chk = (if s_request_id req \<noteq> ''''
      then tx_call (Some (checkBillingLogExists (null_text (s_request_id req)) (w_db w))) w1
      else (Some False, w1))"
    obtain b2 w2 where s2: "chk = (b2, w2)" by fastforce
    have f2: "w_db w2 = w_db w \<and> w_now w2 = w_now w \<and> (b2 = None \<or> b2 = Some (recorded req (w_db w)))"
      using s2 f1 by (auto simp: chk_def recorded_def null_text_def tx_call_eq split: if_splits)
    have b2: "b2 = Some False" "\<not> recorded req (w_db w)"
      using n assms s1 s2 f2 b1 by (auto simp: handleRecordBillingLog_def chk_def [symmetric])
    obtain b3 w3 where s3: "tx_call (updateUserSubBalance (w_now w2) (s_user req) (wrap64 (- s)) (w_db w)) w2 = (b3, w3)"
      by fastforce
    note f3 = tx_call_cases [OF s3]
    obtain d1 where b3: "b3 = Some d1"
      using n assms s1 s2 s3 f2 f3 b1 b2 sp
      by (cases b3) (auto simp: handleRecordBillingLog_def chk_def [symmetric])
    obtain b4 w4 where s4: "tx_call (updateUserTopupBalance (s_user req) (wrap64 (- c)) d1) w3 = (b4, w4)"
      by fastforce
    note f4 = tx_call_cases [OF s4]
    obtain d2 where b4: "b4 = Some d2"
      using n assms s1 s2 s3 s4 f2 f3 f4 b1 b2 b3 sp
      by (cases b4) (auto simp: handleRecordBillingLog_def chk_def [symmetric])
    obtain b5 w5 where s5: "tx_call (updateUserGrantBalance (s_user req) (wrap64 (- g)) d2) w4 = (b5, w5)"
      by fastforce
    note f5 = tx_call_cases [OF s5]
    obtain d3 where b5: "b5 = Some d3"
      using n assms s1 s2 s3 s4 s5 f2 f3 f4 f5 b1 b2 b3 b4 sp
      by (cases b5) (auto simp: handleRecordBillingLog_def chk_def [symmetric])
    obtain uuid w6 where s6: "new_uuid w5 = (uuid, w6)" by fastforce
    note f6 = new_uuid_frame [OF s6]
    obtain b7 w7 where s7: "tx_call (createBillingLog (billing_log_of uuid req) d3) w6 = (b7, w7)"
      by fastforce
    note f7 = tx_call_cases [OF s7]
    obtain d4 where b7: "b7 = Some d4"
      using n assms s1 s2 s3 s4 s5 s6 s7 f2 f3 f4 f5 f6 f7 b1 b2 b3 b4 b5 sp
      by (cases b7) (auto simp: handleRecordBillingLog_def chk_def [symmetric])
    obtain b8 w8 where s8: "tx_commit d4 w7 = (b8, w8)" by fastforce
    note f8 = tx_commit_frame [OF s8]
    have tx: "billing_tx uuid (w_now w) req (w_db w) = Some d4"
      using f2 f3 f4 f5 f7 b3 b4 b5 b7 sp by (simp add: billing_tx_def)
    have out: "w' = (if b8 \<and> s_api_key req > 0
        then snd (db_update (incrementAPIKeyQuotaUsed (s_api_key req) (s_actual_cost req)) w8) else w8)"
      and res: "res = (if b8 then TaskDone else TaskRetry)"
      using assms s1 s2 s3 s4 s5 s6 s7 s8 b1 b2 b3 b4 b5 b7 sp
      by (cases b8; simp add: handleRecordBillingLog_def chk_def [symmetric])+
    have "w_db w' = d4 \<or> incrementAPIKeyQuotaUsed (s_api_key req) (s_actual_cost req) d4 = Some (w_db w')
        \<or> (\<not> b8 \<and> w_db w' = w_db w)"
      using out f8 f2 f3 f4 f5 f6 f7
        db_update_effect [of "incrementAPIKeyQuotaUsed (s_api_key req) (s_actual_cost req)" w8]
      by (auto split: if_splits)
    with n tx b2 res show False by (auto split: if_splits)
  qed
qed

section \<open>Redelivery\<close>

text \<open>
  A consumer of messages that carry a key. The state has a view, in which one can see which keys
  were dealt with. A message whose key was seen changes nothing in the view; any other message
  either changes nothing or has its effect and leaves its key to be seen.
\<close>

locale idempotent_consumer =
  fixes handle :: "'m \<Rightarrow> 's \<Rightarrow> 's" and view :: "'s \<Rightarrow> 'v" and key :: "'m \<Rightarrow> 'k option"
    and seen :: "'v \<Rightarrow> 'k \<Rightarrow> bool" and effect :: "'m \<Rightarrow> 'v \<Rightarrow> 'v"
  assumes skip: "key m = Some k \<Longrightarrow> seen (view s) k \<Longrightarrow> view (handle m s) = view s"
    and once: "key m = Some k \<Longrightarrow> view (handle m s) = view s \<or>
      (view (handle m s) = effect m (view s) \<and> seen (view (handle m s)) k)"
    and keeps: "seen v k \<Longrightarrow> seen (effect m v) k"
begin

lemma keeps_fold: "seen v k \<Longrightarrow> seen (fold effect ms v) k"
  by (induction ms arbitrary: v) (simp_all add: keeps)

text \<open>Any deliveries have the effect of some of their messages, each key at most once.\<close>

lemma at_most_once:
  assumes "\<And>m. m \<in> set ms \<Longrightarrow> key m \<noteq> None"
  shows "\<exists>ms'. subseq ms' ms \<and> distinct (map key ms') \<and>
    view (fold handle ms s) = fold effect ms' (view s) \<and>
    (\<forall>m \<in> set ms'. \<not> seen (view s) (the (key m)) \<and> seen (view (fold handle ms s)) (the (key m)))"
  using assms
proof (induction ms arbitrary: s)
  case (Cons m ms)
  from Cons.prems [of m] obtain k where k: "key m = Some k" by auto
  obtain ms' where ih: "subseq ms' ms" "distinct (map key ms')"
    "view (fold handle ms (handle m s)) = fold effect ms' (view (handle m s))"
    "\<forall>m' \<in> set ms'. \<not> seen (view (handle m s)) (the (key m')) \<and>
       seen (view (fold handle ms (handle m s))) (the (key m'))"
    using Cons.IH [of "handle m s"] Cons.prems by auto
  from once [OF k, of s] show ?case
  proof
    assume "view (handle m s) = view s"
    with ih show ?thesis by (intro exI [of _ ms']) auto
  next
    assume e: "view (handle m s) = effect m (view s) \<and> seen (view (handle m s)) k"
    show ?thesis
    proof (cases "seen (view s) k")
      case True
      then have "view (handle m s) = view s" by (rule skip [OF k])
      with ih show ?thesis by (intro exI [of _ ms']) auto
    next
      case False
      have "key m \<notin> key ` set ms'"
      proof
        assume "key m \<in> key ` set ms'"
        then obtain m' where m': "m' \<in> set ms'" "key m' = key m" by auto
        then have "the (key m') = k" using k by simp
        with ih(4) m' e show False by auto
      qed
      moreover have "\<not> seen (view s) (the (key m'))" if "m' \<in> set ms'" for m'
        using ih(4) that e keeps [of "view s" "the (key m')" m] by auto
      moreover have "seen (view (fold handle ms (handle m s))) k"
        using ih(3) keeps_fold [OF conjunct2 [OF e], of ms'] by simp
      ultimately show ?thesis
        using ih e k False by (intro exI [of _ "m # ms'"]) auto
    qed
  qed
qed simp

lemma seen_stays:
  assumes "\<And>m. m \<in> set ms \<Longrightarrow> key m \<noteq> None" and "seen (view s) k"
  shows "seen (view (fold handle ms s)) k"
  using at_most_once [OF assms(1), where s = s] keeps_fold [OF assms(2)] by metis

end

text \<open>
  The worker's view of the tables: the balances and the billing records, without the random id of
  a record, the key quotas and the subscription's expiry.
\<close>

definition forget_expiry :: "user_row \<Rightarrow> user_row" where
  "forget_expiry u = u\<lparr>u_sub_expires := None\<rparr>"

definition forget_id :: "billing_log_row \<Rightarrow> billing_log_row" where
  "forget_id b = b\<lparr>bl_id := ''''\<rparr>"

definition ledger :: "db \<Rightarrow> db" where
  "ledger d = d\<lparr>users := map forget_expiry (users d), api_keys := [],
     billing_logs := map forget_id (billing_logs d)\<rparr>"

definition charge :: "settlement_request \<Rightarrow> db \<Rightarrow> db" where
  "charge req d = (case billing_tx '''' 0 req d of None \<Rightarrow> d | Some d' \<Rightarrow> ledger d')"

lemma ledger_idem: "ledger (ledger d) = ledger d"
  by (simp add: ledger_def forget_expiry_def forget_id_def comp_def)

lemma map_eq_list_all2: "map e a = map e b \<longleftrightarrow> list_all2 (\<lambda>x y. e x = e y) a b"
  by (auto simp: list_all2_conv_all_nth list_eq_iff_nth_eq)

lemma update_where_related:
  assumes "list_all2 Q a b" "update_where P f a = Some a'"
    and "\<And>r s. Q r s \<Longrightarrow> P r = P s"
    and "\<And>r s r'. Q r s \<Longrightarrow> f r = Some r' \<Longrightarrow> \<exists>s'. f2 s = Some s' \<and> Q r' s'"
  shows "\<exists>b'. update_where P f2 b = Some b' \<and> list_all2 Q a' b'"
  using assms(1,2)
proof (induction arbitrary: a' rule: list_all2_induct)
  case (Cons r rs s ss)
  then obtain x xs where x: "(if P r then f r else Some r) = Some x" "update_where P f rs = Some xs"
    "a' = x # xs" by (auto split: option.splits)
  from Cons.IH [OF x(2)] obtain ys where ys: "update_where P f2 ss = Some ys" "list_all2 Q xs ys"
    by blast
  have "\<exists>y. (if P s then f2 s else Some s) = Some y \<and> Q x y"
    using x(1) assms(3) [OF Cons.hyps(1)] assms(4) [OF Cons.hyps(1)] Cons.hyps(1)
    by (cases "P r") auto
  then obtain y where "(if P s then f2 s else Some s) = Some y" "Q x y" by blast
  with ys x(3) show ?case by auto
qed simp

lemma ledger_eq_iff:
  "ledger d = ledger d2 \<longleftrightarrow>
     map forget_expiry (users d) = map forget_expiry (users d2) \<and>
     map forget_id (billing_logs d) = map forget_id (billing_logs d2) \<and>
     api_key_seq d = api_key_seq d2 \<and> model_seq d = model_seq d2 \<and> channel_seq d = channel_seq d2 \<and>
     models d = models d2 \<and> channels d = channels d2 \<and> transactions d = transactions d2 \<and>
     balance_logs d = balance_logs d2 \<and> request_logs d = request_logs d2 \<and>
     settlement_outbox d = settlement_outbox d2 \<and> async_tasks d = async_tasks d2 \<and>
     channel_failure_logs d = channel_failure_logs d2 \<and> model_failure_logs d = model_failure_logs d2"
  by (cases d; cases d2) (auto simp: ledger_def)

lemma forget_expiry_eq:
  "forget_expiry u = forget_expiry v \<longleftrightarrow> u_id u = u_id v \<and> u_cash u = u_cash v \<and>
     u_grant u = u_grant v \<and> u_tier u = u_tier v \<and> u_status u = u_status v \<and> u_sub u = u_sub v"
  by (cases u; cases v) (auto simp: forget_expiry_def)

lemma forget_id_eq:
  "forget_id b = forget_id c \<longleftrightarrow> bl_user b = bl_user c \<and> bl_channel b = bl_channel c \<and>
     bl_model b = bl_model c \<and> bl_prompt b = bl_prompt c \<and> bl_completion b = bl_completion c \<and>
     bl_cache_hit b = bl_cache_hit c \<and> bl_cache_miss b = bl_cache_miss c \<and>
     bl_amount b = bl_amount c \<and> bl_log_type b = bl_log_type c \<and>
     bl_pre_deducted b = bl_pre_deducted c \<and> bl_request_id b = bl_request_id c"
  by (cases b; cases c) (auto simp: forget_id_def)

lemma users_update_related:
  assumes "ledger d = ledger d2" "map_option (\<lambda>us. d\<lparr>users := us\<rparr>) (update_where P f (users d)) = Some d'"
    and "\<And>u v. forget_expiry u = forget_expiry v \<Longrightarrow> P u = P v"
    and "\<And>u v u'. forget_expiry u = forget_expiry v \<Longrightarrow> f u = Some u' \<Longrightarrow>
      \<exists>v'. f2 v = Some v' \<and> forget_expiry u' = forget_expiry v'"
  shows "\<exists>d2'. map_option (\<lambda>us. d2\<lparr>users := us\<rparr>) (update_where P f2 (users d2)) = Some d2' \<and>
    ledger d' = ledger d2'"
proof -
  obtain us where us: "update_where P f (users d) = Some us" "d' = d\<lparr>users := us\<rparr>"
    using assms(2) by auto
  have "list_all2 (\<lambda>u v. forget_expiry u = forget_expiry v) (users d) (users d2)"
    using assms(1) by (simp add: ledger_eq_iff map_eq_list_all2)
  from update_where_related [OF this us(1), of f2] obtain vs where
    "update_where P f2 (users d2) = Some vs" "list_all2 (\<lambda>u v. forget_expiry u = forget_expiry v) us vs"
    using assms(3,4) by metis
  then show ?thesis
    using assms(1) us(2) by (intro exI [of _ "d2\<lparr>users := vs\<rparr>"])
      (simp add: ledger_eq_iff map_eq_list_all2)
qed

lemma ledger_reads:
  assumes "ledger d = ledger d2"
  shows "map_option forget_expiry (user_of d i) = map_option forget_expiry (user_of d2 i)"
    and "fk_user i d = fk_user i d2" and "fk_channel c d = fk_channel c d2"
    and "checkBillingLogExists r d = checkBillingLogExists r d2"
proof -
  have "map_option forget_expiry (find (\<lambda>u. u_id u = i) us) =
      find (\<lambda>u. u_id u = i) (map forget_expiry us)" for us
    by (induction us) (auto simp: forget_expiry_def)
  then show u: "map_option forget_expiry (user_of d i) = map_option forget_expiry (user_of d2 i)"
    using assms by (simp add: ledger_eq_iff user_of_def)
  then show "fk_user i d = fk_user i d2"
    by (cases "user_of d i"; cases "user_of d2 i") (auto simp: fk_user_def)
  show "fk_channel c d = fk_channel c d2"
    using assms by (simp add: ledger_eq_iff fk_channel_def getChannelByID_def split: option.splits)
  have "list_ex (\<lambda>b. bl_request_id b = x) bs = list_ex (\<lambda>b. bl_request_id b = x) (map forget_id bs)"
    for x bs by (induction bs) (auto simp: forget_id_def)
  then show "checkBillingLogExists r d = checkBillingLogExists r d2"
    using assms by (simp add: ledger_eq_iff checkBillingLogExists_def split: option.splits) metis
qed

lemma createBillingLog_related:
  assumes "ledger d = ledger d2" "createBillingLog b d = Some d'" "forget_id b = forget_id b2"
  shows "\<exists>d2'. createBillingLog b2 d2 = Some d2' \<and> ledger d' = ledger d2'"
proof -
  have "createBillingLog b2 d2 = Some (d2\<lparr>billing_logs := billing_logs d2 @ [b2]\<rparr>)"
    using assms ledger_reads(2,3) [OF assms(1)]
    by (auto simp: createBillingLog_def forget_id_eq split: if_splits option.splits)
  moreover have "ledger d' = ledger (d2\<lparr>billing_logs := billing_logs d2 @ [b2]\<rparr>)"
    using assms by (auto simp: createBillingLog_def ledger_eq_iff split: if_splits)
  ultimately show ?thesis by blast
qed

lemma billing_tx_related:
  assumes "ledger d = ledger d2" "billing_tx u n req d = Some d'"
  shows "\<exists>d2'. billing_tx u2 n2 req d2 = Some d2' \<and> ledger d' = ledger d2'"
proof -
  obtain s g c where sp: "splitActual3 (s_actual_cost req) (s_sub_deducted req)
      (s_grant_deducted req) (s_cash_deducted req) = (s, g, c)" by (metis prod_cases3)
  obtain d1 dd dt where steps:
    "updateUserSubBalance n (s_user req) (wrap64 (- s)) d = Some d1"
    "updateUserTopupBalance (s_user req) (wrap64 (- c)) d1 = Some dd"
    "updateUserGrantBalance (s_user req) (wrap64 (- g)) dd = Some dt"
    "createBillingLog (billing_log_of u req) dt = Some d'"
    using assms(2) sp by (auto simp: billing_tx_def bind_eq_Some_conv)
  have "\<exists>e. updateUserSubBalance n2 (s_user req) (wrap64 (- s)) d2 = Some e \<and> ledger d1 = ledger e"
    unfolding updateUserSubBalance_def
    by (rule users_update_related [OF assms(1) steps(1) [unfolded updateUserSubBalance_def]])
      (auto simp: forget_expiry_eq)
  then obtain e1 where e1: "updateUserSubBalance n2 (s_user req) (wrap64 (- s)) d2 = Some e1"
    "ledger d1 = ledger e1" by blast
  have "\<exists>e. updateUserTopupBalance (s_user req) (wrap64 (- c)) e1 = Some e \<and> ledger dd = ledger e"
    unfolding updateUserTopupBalance_def
    by (rule users_update_related [OF e1(2) steps(2) [unfolded updateUserTopupBalance_def]])
      (auto simp: forget_expiry_eq)
  then obtain e2 where e2: "updateUserTopupBalance (s_user req) (wrap64 (- c)) e1 = Some e2"
    "ledger dd = ledger e2" by blast
  have "\<exists>e. updateUserGrantBalance (s_user req) (wrap64 (- g)) e2 = Some e \<and> ledger dt = ledger e"
    unfolding updateUserGrantBalance_def
    by (rule users_update_related [OF e2(2) steps(3) [unfolded updateUserGrantBalance_def]])
      (auto simp: forget_expiry_eq)
  then obtain e3 where e3: "updateUserGrantBalance (s_user req) (wrap64 (- g)) e2 = Some e3"
    "ledger dt = ledger e3" by blast
  have "forget_id (billing_log_of u req) = forget_id (billing_log_of u2 req)"
    by (simp add: forget_id_eq billing_log_of_def)
  from createBillingLog_related [OF e3(2) steps(4) this] e1(1) e2(1) e3(1) sp show ?thesis
    by (simp add: billing_tx_def)
qed

definition billing_step :: "settlement_request \<Rightarrow> 'r world \<Rightarrow> 'r world" where
  "billing_step req w = snd (handleRecordBillingLog (Some req) w)"

lemma updates_keep_logs:
  "updateUserSubBalance n i x d = Some d' \<Longrightarrow> billing_logs d' = billing_logs d"
  "updateUserTopupBalance i x d = Some d' \<Longrightarrow> billing_logs d' = billing_logs d"
  "updateUserGrantBalance i x d = Some d' \<Longrightarrow> billing_logs d' = billing_logs d"
  by (auto simp: updateUserSubBalance_def updateUserTopupBalance_def updateUserGrantBalance_def)

lemma billing_tx_logs:
  "billing_tx u n req d = Some d' \<Longrightarrow> billing_logs d' = billing_logs d @ [billing_log_of u req]"
  by (auto simp: billing_tx_def bind_eq_Some_conv createBillingLog_def updates_keep_logs
      split: if_splits prod.splits)

lemma recorded_after_tx:
  "billing_tx u n req d = Some d' \<Longrightarrow> s_request_id req \<noteq> '''' \<Longrightarrow> recorded req d'"
  by (simp add: recorded_def checkBillingLogExists_def billing_tx_logs billing_log_of_def
      null_text_def)

lemma increment_keeps_ledger:
  assumes "incrementAPIKeyQuotaUsed i x d = Some d'"
  shows "ledger d' = ledger d"
  using assms by (auto simp: incrementAPIKeyQuotaUsed_def ledger_eq_iff)

lemma check_ledger: "checkBillingLogExists r (ledger d) = checkBillingLogExists r d"
  by (rule ledger_reads(4)) (rule ledger_idem)

lemma billing_step_ledger:
  "ledger (w_db (billing_step req w)) = ledger (w_db w) \<or>
   (\<not> recorded req (w_db w) \<and> ledger (w_db (billing_step req w)) = charge req (ledger (w_db w)) \<and>
    (s_request_id req \<noteq> '''' \<longrightarrow> recorded req (w_db (billing_step req w))))"
proof -
  obtain res w' where h: "handleRecordBillingLog (Some req) w = (res, w')" by fastforce
  then have w': "billing_step req w = w'" by (simp add: billing_step_def)
  from handle_billing_cases [OF h] consider (same) "w_db w' = w_db w"
    | (tx) u d where "\<not> recorded req (w_db w)" "billing_tx u (w_now w) req (w_db w) = Some d"
      "w_db w' = d \<or> incrementAPIKeyQuotaUsed (s_api_key req) (s_actual_cost req) d = Some (w_db w')"
    by blast
  then show ?thesis
  proof cases
    case (tx u d)
    note n = tx(1) and out = tx(3) and tx = tx(2)
    have l: "ledger (w_db w') = ledger d" using out increment_keeps_ledger by auto
    obtain d2 where "billing_tx '''' 0 req (ledger (w_db w)) = Some d2" "ledger d = ledger d2"
      using billing_tx_related [OF ledger_idem [symmetric] tx] by blast
    then have "ledger (w_db w') = charge req (ledger (w_db w))" using l by (simp add: charge_def)
    moreover have "s_request_id req \<noteq> '''' \<longrightarrow> recorded req (w_db w')"
      using recorded_after_tx [OF tx] ledger_reads(4) [OF l] by (auto simp: recorded_def)
    ultimately show ?thesis using n by (simp add: w')
  qed (simp add: w')
qed

lemma recorded_key:
  "null_text (s_request_id req) = Some k \<Longrightarrow> recorded req d = checkBillingLogExists (Some k) d"
  by (auto simp: recorded_def null_text_def split: if_splits)

lemma billing_skip:
  "null_text (s_request_id req) = Some k \<Longrightarrow> checkBillingLogExists (Some k) (ledger (w_db w)) \<Longrightarrow>
     ledger (w_db (billing_step req w)) = ledger (w_db w)"
  using billing_step_ledger [of req w] by (auto simp: check_ledger recorded_key)

lemma billing_once:
  "null_text (s_request_id req) = Some k \<Longrightarrow>
     ledger (w_db (billing_step req w)) = ledger (w_db w) \<or>
     (ledger (w_db (billing_step req w)) = charge req (ledger (w_db w)) \<and>
      checkBillingLogExists (Some k) (ledger (w_db (billing_step req w))))"
  using billing_step_ledger [of req w]
  by (auto simp: check_ledger recorded_key null_text_def split: if_splits)

lemma billing_keeps:
  assumes "checkBillingLogExists (Some k) v"
  shows "checkBillingLogExists (Some k) (charge req v)"
proof -
  have "checkBillingLogExists (Some k) v'" if "billing_tx '''' 0 req v = Some v'" for v'
    using that assms by (auto simp: checkBillingLogExists_def billing_tx_logs)
  with assms show ?thesis by (simp add: charge_def check_ledger split: option.splits)
qed

interpretation billing: idempotent_consumer billing_step "\<lambda>w. ledger (w_db w)"
  "\<lambda>req :: settlement_request. null_text (s_request_id req)"
  "\<lambda>d k. checkBillingLogExists (Some k) d" charge
  by unfold_locales (fact billing_skip billing_once billing_keeps)+

lemma subseq_subset: "subseq xs ys \<Longrightarrow> set xs \<subseteq> set ys"
  by (induction rule: list_emb.induct) auto

text \<open>
  C5. Redelivery is harmless. However often the queue delivers the settlements of some requests,
  in whatever order and whatever fails on the way, the balances and billing records end up as if
  some of the settlements had been charged once each: no request id is charged twice, none that
  was recorded before is charged again, and each one that is charged has its record.
\<close>

theorem billing_redelivery:
  assumes "\<forall>m \<in> set ms. s_request_id m \<noteq> ''''"
  shows "\<exists>ms'. subseq ms' ms \<and> distinct (map s_request_id ms') \<and>
    ledger (w_db (fold billing_step ms w)) = fold charge ms' (ledger (w_db w)) \<and>
    (\<forall>m \<in> set ms'. \<not> recorded m (w_db w) \<and> recorded m (w_db (fold billing_step ms w)))"
proof -
  have "null_text (s_request_id m) \<noteq> None" if "m \<in> set ms" for m
    using assms that by (simp add: null_text_def)
  from billing.at_most_once [OF this, of ms w] obtain ms' where ms': "subseq ms' ms"
    "distinct (map (\<lambda>req. null_text (s_request_id req)) ms')"
    "ledger (w_db (fold billing_step ms w)) = fold charge ms' (ledger (w_db w))"
    "\<forall>m \<in> set ms'. \<not> checkBillingLogExists (Some (the (null_text (s_request_id m)))) (ledger (w_db w)) \<and>
      checkBillingLogExists (Some (the (null_text (s_request_id m)))) (ledger (w_db (fold billing_step ms w)))"
    by auto
  have ne: "s_request_id m \<noteq> ''''" if "m \<in> set ms'" for m
    using that ms'(1) assms by (meson subseq_subset subsetD)
  then have mp: "map (\<lambda>req. null_text (s_request_id req)) ms' = map Some (map s_request_id ms')"
    by (simp add: null_text_def)
  have "distinct (map s_request_id ms')"
    using ms'(2) unfolding mp by (metis distinct_map)
  moreover have "\<forall>m \<in> set ms'. \<not> recorded m (w_db w) \<and> recorded m (w_db (fold billing_step ms w))"
    using ms'(4) ne by (simp add: check_ledger recorded_def null_text_def)
  ultimately show ?thesis using ms'(1,3) by blast
qed

section \<open>What one settlement does to the balances\<close>

lemma update_where_all:
  assumes "update_where P f rows = Some rows'" "\<forall>r \<in> set rows. Q r"
    and "\<And>r r'. Q r \<Longrightarrow> f r = Some r' \<Longrightarrow> Q r'"
  shows "\<forall>r \<in> set rows'. Q r"
  using assms(1,2)
proof (induction rows arbitrary: rows')
  case (Cons r rs)
  then show ?case using assms(3) by (auto split: option.splits if_splits)
qed simp

text \<open>The balances of every row of the user leave room for the charge.\<close>

definition small_rows :: "int \<Rightarrow> db \<Rightarrow> bool" where
  "small_rows uid d \<longleftrightarrow> (\<forall>u \<in> set (users d). u_id u = uid \<longrightarrow>
     exact (u_sub u) \<and> exact (coalesce0 (u_grant u)) \<and> exact (coalesce0 (u_cash u)))"

definition log_accepted :: "settlement_request \<Rightarrow> db \<Rightarrow> bool" where
  "log_accepted req d \<longleftrightarrow> fits 50 (s_model req) \<and> fits 20 (s_log_type req) \<and>
     fits 100 (s_request_id req) \<and> fk_user (s_user req) d \<and> fk_channel (null_pos (s_channel req)) d"

lemma exact_diff_i64: "exact a \<Longrightarrow> exact b \<Longrightarrow> in_i64 (a - b)"
  by (auto simp: exact_def in_i64_def)

lemma exact_wrap_neg [simp]: "exact s \<Longrightarrow> wrap64 (- s) = - s"
  by (rule wrap64_id) (auto simp: exact_def in_i64_def)

lemma sub_update_succeeds:
  assumes "small_rows uid d" "exact x"
  obtains d' where "updateUserSubBalance now uid (- x) d = Some d'"
    and "\<forall>u \<in> set (users d'). u_id u = uid \<longrightarrow> exact (coalesce0 (u_grant u)) \<and> exact (coalesce0 (u_cash u))"
    and "channels d' = channels d"
proof -
  have "\<exists>us. update_where (\<lambda>u. u_id u = uid) (\<lambda>u. map_option (\<lambda>s. u\<lparr>u_sub := s,
      u_sub_expires := (if u_sub_expires u = None \<and> - x > 0 then Some (now + 30 * day_ns)
                        else u_sub_expires u)\<rparr>) (sql_add (u_sub u) (- x))) (users d) = Some us"
    using assms by (intro update_where_total) (auto simp: small_rows_def sql_add_def exact_diff_i64)
  then obtain us where us: "update_where (\<lambda>u. u_id u = uid) (\<lambda>u. map_option (\<lambda>s. u\<lparr>u_sub := s,
      u_sub_expires := (if u_sub_expires u = None \<and> - x > 0 then Some (now + 30 * day_ns)
                        else u_sub_expires u)\<rparr>) (sql_add (u_sub u) (- x))) (users d) = Some us" by blast
  have "\<forall>u \<in> set us. u_id u = uid \<longrightarrow> exact (coalesce0 (u_grant u)) \<and> exact (coalesce0 (u_cash u))"
    by (rule update_where_all [OF us]) (use assms in \<open>auto simp: small_rows_def\<close>)
  with us show thesis by (intro that [of "d\<lparr>users := us\<rparr>"]) (simp_all add: updateUserSubBalance_def)
qed

lemma sql_add_null_defined: "in_i64 (coalesce0 a + x) \<Longrightarrow> sql_add_null a x = Some (null_add x a)"
  by (cases a) (simp_all add: sql_add_null_def sql_add_def null_add_def)

lemma cash_update_succeeds:
  assumes "\<forall>u \<in> set (users d). u_id u = uid \<longrightarrow> exact (coalesce0 (u_grant u)) \<and> exact (coalesce0 (u_cash u))"
    "exact x"
  obtains d' where "updateUserTopupBalance uid (- x) d = Some d'"
    and "\<forall>u \<in> set (users d'). u_id u = uid \<longrightarrow> exact (coalesce0 (u_grant u))"
    and "channels d' = channels d"
proof -
  have "\<exists>us. update_where (\<lambda>u. u_id u = uid)
      (\<lambda>u. map_option (\<lambda>c. u\<lparr>u_cash := c\<rparr>) (sql_add_null (u_cash u) (- x))) (users d) = Some us"
    using assms by (intro update_where_total) (auto simp: exact_diff_i64 sql_add_null_defined)
  then obtain us where us: "update_where (\<lambda>u. u_id u = uid)
      (\<lambda>u. map_option (\<lambda>c. u\<lparr>u_cash := c\<rparr>) (sql_add_null (u_cash u) (- x))) (users d) = Some us"
    by blast
  have "\<forall>u \<in> set us. u_id u = uid \<longrightarrow> exact (coalesce0 (u_grant u))"
    by (rule update_where_all [OF us]) (use assms in auto)
  with us show thesis by (intro that [of "d\<lparr>users := us\<rparr>"]) (simp_all add: updateUserTopupBalance_def)
qed

lemma grant_update_succeeds:
  assumes "\<forall>u \<in> set (users d). u_id u = uid \<longrightarrow> exact (coalesce0 (u_grant u))" "exact x"
  obtains d' where "updateUserGrantBalance uid (- x) d = Some d'" and "channels d' = channels d"
proof -
  have "\<exists>us. update_where (\<lambda>u. u_id u = uid)
      (\<lambda>u. map_option (\<lambda>g. u\<lparr>u_grant := g\<rparr>) (sql_add_null (u_grant u) (- x))) (users d) = Some us"
    using assms by (intro update_where_total) (auto simp: exact_diff_i64 sql_add_null_defined)
  then show thesis using that by (auto simp: updateUserGrantBalance_def)
qed

text \<open>The transaction succeeds, and takes the waterfall of the actual cost from the user's row.\<close>

lemma billing_tx_succeeds:
  assumes "small_rows (s_user req) d" "log_accepted req d"
    and "exact (s_sub_deducted req)" "exact (s_grant_deducted req)" "exact (s_cash_deducted req)"
    and "exact (s_actual_cost req)" and "user_of d (s_user req) = Some u"
    and "k = waterfall (s_actual_cost req)
               [s_sub_deducted req, s_grant_deducted req, s_cash_deducted req]"
  obtains d' u' where "billing_tx uuid now req d = Some d'" and "user_of d' (s_user req) = Some u'"
    and "u_sub u' = u_sub u - k ! 0" "u_grant u' = null_add (- (k ! 1)) (u_grant u)"
      "u_cash u' = null_add (- (k ! 2)) (u_cash u)" "u_sub_expires u' = u_sub_expires u"
    and "\<And>j. j \<noteq> s_user req \<Longrightarrow> user_of d' j = user_of d j"
proof -
  let ?i = "s_user req"
  define s where "s = k ! 0" define g where "g = k ! 1" define c where "c = k ! 2"
  have sp: "splitActual3 (s_actual_cost req) (s_sub_deducted req) (s_grant_deducted req)
      (s_cash_deducted req) = (s, g, c)"
    by (simp only: splitActual3_eq assms(8) s_def g_def c_def)
  have kk: "k ! 0 = share (s_sub_deducted req) (s_actual_cost req)"
    "k ! 1 = share (s_grant_deducted req) (s_actual_cost req - s)"
    "k ! 2 = share (s_cash_deducted req) (s_actual_cost req - s - g)"
    by (simp_all add: assms(8) s_def g_def)
  have e: "exact s" "exact g" "exact c" "0 \<le> s"
    using kk assms(3-6) by (simp_all add: s_def g_def c_def assms(8))
  obtain d1 where d1: "updateUserSubBalance now ?i (- s) d = Some d1"
    and q1: "\<forall>u \<in> set (users d1). u_id u = ?i \<longrightarrow> exact (coalesce0 (u_grant u)) \<and> exact (coalesce0 (u_cash u))"
    and c1: "channels d1 = channels d"
    by (rule sub_update_succeeds [OF assms(1) e(1)])
  obtain d2 where d2: "updateUserTopupBalance ?i (- c) d1 = Some d2"
    and q2: "\<forall>u \<in> set (users d2). u_id u = ?i \<longrightarrow> exact (coalesce0 (u_grant u))"
    and c2: "channels d2 = channels d1"
    by (rule cash_update_succeeds [OF q1 e(3)])
  obtain d3 where d3: "updateUserGrantBalance ?i (- g) d2 = Some d3" and c3: "channels d3 = channels d2"
    by (rule grant_update_succeeds [OF q2 e(2)])
  note rows = user_of_updateUserSubBalance [OF d1] user_of_updateUserTopupBalance [OF d2]
    user_of_updateUserGrantBalance [OF d3]
  let ?d4 = "d3\<lparr>billing_logs := billing_logs d3 @ [billing_log_of uuid req]\<rparr>"
  have "createBillingLog (billing_log_of uuid req) d3 = Some ?d4"
    using assms(2,7) c1 c2 c3 rows
    by (auto simp: createBillingLog_def billing_log_of_def log_accepted_def fk_user_def null_text_def
        fk_channel_def getChannelByID_def split: option.splits)
  then have "billing_tx uuid now req d = Some ?d4"
    using d1 d2 d3 e sp by (simp add: billing_tx_def)
  moreover have "user_of ?d4 j = user_of d3 j" for j by (simp add: user_of_def)
  ultimately show thesis
    using rows assms(7) e(4)
    by (intro that [of ?d4 "u\<lparr>u_sub := u_sub u - s, u_cash := null_add (- c) (u_cash u),
            u_grant := null_add (- g) (u_grant u)\<rparr>"])
      (simp_all add: s_def [symmetric] g_def [symmetric] c_def [symmetric] del: One_nat_def)
qed

lemma handle_fine:
  assumes "w_faults w = []" "\<not> recorded req (w_db w)"
    and "billing_tx (fst (new_uuid w)) (w_now w) req (w_db w) = Some d"
  obtains w' where "handleRecordBillingLog (Some req) w = (TaskDone, w')"
    and "users (w_db w') = users d" "billing_logs (w_db w') = billing_logs d" "w_redis w' = w_redis w"
proof -
  obtain s g c where sp: "splitActual3 (s_actual_cost req) (s_sub_deducted req)
      (s_grant_deducted req) (s_cash_deducted req) = (s, g, c)" by (metis prod_cases3)
  obtain uuid w1 where u: "new_uuid w = (uuid, w1)" by fastforce
  have w1: "w_faults w1 = []" "w_now w1 = w_now w" "w_redis w1 = w_redis w"
    using new_uuid_frame [OF u] assms(1) by simp_all
  obtain d1 dd dt where steps:
    "updateUserSubBalance (w_now w) (s_user req) (wrap64 (- s)) (w_db w) = Some d1"
    "updateUserTopupBalance (s_user req) (wrap64 (- c)) d1 = Some dd"
    "updateUserGrantBalance (s_user req) (wrap64 (- g)) dd = Some dt"
    "createBillingLog (billing_log_of uuid req) dt = Some d"
    using assms(3) sp u by (auto simp: billing_tx_def bind_eq_Some_conv)
  have chk: "s_request_id req \<noteq> '''' \<longrightarrow>
      \<not> checkBillingLogExists (null_text (s_request_id req)) (w_db w)"
    using assms(2) by (auto simp: recorded_def null_text_def)
  let ?w2 = "w1\<lparr>w_db := d\<rparr>"
  let ?w3 = "if s_api_key req > 0
    then snd (db_update (incrementAPIKeyQuotaUsed (s_api_key req) (s_actual_cost req)) ?w2) else ?w2"
  have h: "handleRecordBillingLog (Some req) w = (TaskDone, ?w3)"
    using steps chk assms(1) w1 sp u by (simp add: handleRecordBillingLog_def)
  have "users (w_db ?w3) = users d \<and> billing_logs (w_db ?w3) = billing_logs d \<and> w_redis ?w3 = w_redis w"
    using w1 by (auto simp: incrementAPIKeyQuotaUsed_def split: option.splits)
  then show thesis by (intro that [OF h]) simp_all
qed

text \<open>
  C6. A settlement that the worker processes takes exactly the waterfall of the actual cost over
  the pre-deductions from the user's three balances and appends one billing record with that
  cost; no other user's row changes and the subscription's expiry stays.
\<close>

theorem worker_charges_actual:
  assumes "w_faults w = []" "\<not> recorded req (w_db w)" "small_rows (s_user req) (w_db w)"
    and "log_accepted req (w_db w)" "user_of (w_db w) (s_user req) = Some u"
    and "exact (s_sub_deducted req)" "exact (s_grant_deducted req)" "exact (s_cash_deducted req)"
    and "exact (s_actual_cost req)"
    and "k = waterfall (s_actual_cost req)
               [s_sub_deducted req, s_grant_deducted req, s_cash_deducted req]"
  shows "\<exists>w' u'. handleRecordBillingLog (Some req) w = (TaskDone, w') \<and>
    user_of (w_db w') (s_user req) = Some u' \<and> u_sub u' = u_sub u - k ! 0 \<and>
    u_grant u' = null_add (- (k ! 1)) (u_grant u) \<and> u_cash u' = null_add (- (k ! 2)) (u_cash u) \<and>
    u_sub_expires u' = u_sub_expires u \<and>
    (\<forall>j. j \<noteq> s_user req \<longrightarrow> user_of (w_db w') j = user_of (w_db w) j) \<and>
    billing_logs (w_db w') = billing_logs (w_db w) @ [billing_log_of (fst (new_uuid w)) req] \<and>
    w_redis w' = w_redis w"
proof -
  obtain d u' where tx: "billing_tx (fst (new_uuid w)) (w_now w) req (w_db w) = Some d"
    and d: "user_of d (s_user req) = Some u'" "u_sub u' = u_sub u - k ! 0"
      "u_grant u' = null_add (- (k ! 1)) (u_grant u)" "u_cash u' = null_add (- (k ! 2)) (u_cash u)"
      "u_sub_expires u' = u_sub_expires u" "\<And>j. j \<noteq> s_user req \<Longrightarrow> user_of d j = user_of (w_db w) j"
    by (rule billing_tx_succeeds [OF assms(3,4,6,7,8,9,5,10)]) blast
  obtain w' where "handleRecordBillingLog (Some req) w = (TaskDone, w')"
    "users (w_db w') = users d" "billing_logs (w_db w') = billing_logs d" "w_redis w' = w_redis w"
    by (rule handle_fine [OF assms(1,2) tx])
  moreover have "user_of (w_db w') j = user_of d j" for j
    using calculation(2) by (simp add: user_of_def)
  ultimately show ?thesis using d billing_tx_logs [OF tx] by auto
qed

definition witness_db :: "int \<times> int \<times> int \<Rightarrow> db" where
  "witness_db b = empty_db\<lparr>users := [witness_user 7 b],
     channels := [\<lparr>c_id = 2, c_name = ''c2'', c_provider = ''openai'', c_base_url = ''https://u'',
       c_api_key = ''k'', c_models = ''m1'', c_protocol = ''openai'', c_upload_mode = ''url'',
       c_model_mapping = empty_object, c_supports_async = False, c_weight = Some 1, c_status = Some 1\<rparr>]\<rparr>"

lemma witness_db_user [simp]: "user_of (witness_db b) 7 = Some (witness_user 7 b)"
  by (cases b) (simp add: witness_db_def user_of_def witness_user_def)

lemma witness_db_logs [simp]: "billing_logs (witness_db b) = []"
  by (simp add: witness_db_def empty_db_def)

lemma witness_db_fit:
  assumes "exact s" "exact g" "exact c"
  shows "small_rows 7 (witness_db (s, g, c))" "log_accepted witness_request (witness_db (s, g, c))"
    "\<not> recorded witness_request (witness_db (s, g, c))"
  using assms by (simp_all add: small_rows_def witness_db_def witness_user_def log_accepted_def
      witness_request_def fits_def fk_user_def fk_channel_def null_pos_def getChannelByID_def
      user_of_def recorded_def checkBillingLogExists_def empty_db_def)

theorem worker_charges_actual_witness:
  "\<exists>w' u'. handleRecordBillingLog (Some witness_request) (witness_world [] (witness_db (30, 20, 100)) [])
      = (TaskDone, w') \<and> user_of (w_db w') 7 = Some u' \<and> user_pools u' = (0, 5, 100)"
proof -
  have e: "exact 30" "exact 20" "exact 100" "exact 10" "exact 45" by (simp_all add: exact_def)
  have "waterfall 45 [30, 20, 10] = [30, 15, 0]" by (simp add: share_def)
  with worker_charges_actual [of "witness_world [] (witness_db (30, 20, 100)) []" witness_request
      "witness_user 7 (30, 20, 100)" "[30, 15, 0]"] e witness_db_fit [OF e(1-3)]
  show ?thesis by (fastforce simp: user_pools_def witness_user_def null_add_def)
qed

text \<open>
  C7. A settlement with a request id that the worker reports as done has its billing record,
  whatever failed on the way.
\<close>

theorem worker_done_is_recorded:
  assumes "handleRecordBillingLog (Some req) w = (TaskDone, w')" "s_request_id req \<noteq> ''''"
  shows "recorded req (w_db w')"
proof -
  from handle_billing_cases [OF assms(1)] consider (same) "w_db w' = w_db w" "recorded req (w_db w)"
    | (tx) u d where "billing_tx u (w_now w) req (w_db w) = Some d"
      "w_db w' = d \<or> incrementAPIKeyQuotaUsed (s_api_key req) (s_actual_cost req) d = Some (w_db w')"
    by blast
  then show ?thesis
  proof cases
    case (tx u d)
    have l: "ledger (w_db w') = ledger d" using tx(2) increment_keeps_ledger by auto
    show ?thesis
      using recorded_after_tx [OF tx(1) assms(2)] ledger_reads(4) [OF l] by (simp add: recorded_def)
  qed simp
qed

theorem worker_done_is_recorded_witness:
  "\<exists>w'. handleRecordBillingLog (Some witness_request) (witness_world [] (witness_db (30, 20, 100)) [])
      = (TaskDone, w') \<and> recorded witness_request (w_db w')"
proof -
  let ?w = "witness_world [] (witness_db (30, 20, 100)) []"
  have e: "exact 30" "exact 20" "exact 100" "exact 10" "exact 45" by (simp_all add: exact_def)
  obtain d u' where tx: "billing_tx (fst (new_uuid ?w)) (w_now ?w) witness_request (w_db ?w) = Some d"
    using billing_tx_succeeds [of witness_request "witness_db (30, 20, 100)" "witness_user 7 (30, 20, 100)"
        "waterfall 45 [30, 20, 10]" "fst (new_uuid ?w)" "w_now ?w"] witness_db_fit [OF e(1-3)] e
    by auto
  have "\<not> recorded witness_request (w_db ?w)" using witness_db_fit [OF e(1-3)] by simp
  then obtain w' where h: "handleRecordBillingLog (Some witness_request) ?w = (TaskDone, w')"
    using handle_fine [OF _ _ tx] by auto
  from worker_done_is_recorded [OF h] h show ?thesis by simp
qed

theorem billing_redelivery_witness:
  "\<exists>ms'. subseq ms' [witness_request, witness_request] \<and> distinct (map s_request_id ms') \<and>
    ledger (w_db (fold billing_step [witness_request, witness_request]
        (witness_world [] (witness_db (30, 20, 100)) [Fine, Fine, Lost]))) =
      fold charge ms' (ledger (witness_db (30, 20, 100)))"
  using billing_redelivery [of "[witness_request, witness_request]"
      "witness_world [] (witness_db (30, 20, 100)) [Fine, Fine, Lost]"] by auto

end
