(* ===== verification/Subscription.thy ===== *)
theory Subscription
  imports Worker Calendar
begin

text \<open>
  internal/billing/subscription.go and subscription_expiry.go: the state change of a subscription
  in one transaction (what is left of the paid pool goes to cash, the new period's pools
  overwrite the old), idempotent by its event id, and the sweep that ends expired subscriptions.
\<close>

section \<open>The operation\<close>

record subscription_apply =
  sa_user :: int
  sa_paid :: int
  sa_grant :: int
  sa_expires :: "int option"
  sa_tier :: int
  sa_event :: string
  sa_type :: string
  sa_source_type :: string
  sa_source_id :: string
  sa_remark :: string

definition nonEmpty :: "string \<Rightarrow> string \<Rightarrow> string" where
  "nonEmpty s fallback = (if s = '''' then fallback else s)"

text \<open>Texts of the source that are not ASCII, by their UTF-8 bytes.\<close>

definition utf8 :: "nat list \<Rightarrow> string" where
  "utf8 bs = map char_of bs"

definition carry_over_remark :: string where
  "carry_over_remark = utf8 [232, 174, 162, 233, 152, 133, 229, 174, 158, 228, 187, 152, 229, 137, 169, 228,
     189, 153, 231, 187, 147, 232, 189, 172, 229, 133, 133, 229, 128, 188, 228, 189, 153,
     233, 162, 157]"

definition expiry_remark :: string where
  "expiry_remark = utf8 [232, 174, 162, 233, 152, 133, 229, 136, 176, 230, 156, 159, 232, 135, 170, 229,
     138, 168, 230, 184, 133, 231, 144, 134, 40, 232, 181, 160, 233, 128, 129, 230, 184,
     133, 233, 155, 182, 227, 128, 129, 229, 174, 158, 228, 187, 152, 229, 137, 169, 228,
     189, 153, 232, 189, 172, 228, 189, 153, 233, 162, 157, 41]"

definition subscription_transaction ::
  "subscription_apply \<Rightarrow> int \<times> int \<times> int \<Rightarrow> transaction_row" where
  "subscription_transaction p old = (case old of (oldPaid, oldGrant, oldCash) \<Rightarrow>
     \<lparr>t_id = 0, t_user = sa_user p, t_event = null_text (sa_event p),
      t_type = nonEmpty (sa_type p) ''sub_apply'', t_balance_type = ''grant'',
      t_direction = ''credit'', t_amount = wrap64 (sa_paid p + sa_grant p),
      t_before = wrap64 (oldPaid + oldGrant), t_after = wrap64 (sa_paid p + sa_grant p),
      t_source_type = nonEmpty (sa_source_type p) ''system'', t_source_id = sa_source_id p,
      t_status = ''completed'', t_remark = sa_remark p, t_metadata = empty_object\<rparr>)"

definition subscription_log ::
  "subscription_apply \<Rightarrow> int \<times> int \<times> int \<Rightarrow> int \<Rightarrow> balance_log_row" where
  "subscription_log p old txid = (case old of (oldPaid, oldGrant, oldCash) \<Rightarrow>
     \<lparr>b_transaction = Some txid, b_user = sa_user p, b_balance_type = ''subscription'',
      b_action = nonEmpty (sa_type p) ''sub_apply'', b_amount = wrap64 (sa_paid p + sa_grant p),
      b_before = wrap64 (oldPaid + oldGrant), b_after = wrap64 (sa_paid p + sa_grant p),
      b_admin = None, b_operator = nonEmpty (sa_source_type p) ''system'',
      b_remark = sa_remark p\<rparr>)"

definition carry_over_log ::
  "subscription_apply \<Rightarrow> int \<times> int \<times> int \<Rightarrow> int \<Rightarrow> int \<Rightarrow> balance_log_row" where
  "carry_over_log p old txid moved = (case old of (oldPaid, oldGrant, oldCash) \<Rightarrow>
     \<lparr>b_transaction = Some txid, b_user = sa_user p, b_balance_type = ''cash'',
      b_action = ''sub_to_cash'', b_amount = moved, b_before = oldCash,
      b_after = wrap64 (oldCash + moved), b_admin = None,
      b_operator = nonEmpty (sa_source_type p) ''system'', b_remark = carry_over_remark\<rparr>)"

text \<open>
  The result: \<open>None\<close> an error, \<open>Some applied\<close> otherwise. Every early return after the start of
  the transaction rolls it back.
\<close>

definition applySubscription ::
  "'r redis_api \<Rightarrow> subscription_apply \<Rightarrow> 'r world \<Rightarrow> bool option \<times> 'r world" where
  "applySubscription R p w =
     (case (if sa_event p \<noteq> '''' then db_query (getTransactionByEventID (null_text (sa_event p))) w
            else (None, w)) of
        (Some _, w1) \<Rightarrow> (Some False, w1)
      | (None, w1) \<Rightarrow>
      case tx_begin w1 of (None, w2) \<Rightarrow> (None, w2) | (Some d, w2) \<Rightarrow>
      case tx_call (getUserBalances (sa_user p) d) w2 of (None, w3) \<Rightarrow> (None, w3) | (Some old, w3) \<Rightarrow>
      case tx_call (selectSubBalance (sa_user p) d) w3 of (None, w4) \<Rightarrow> (None, w4) | (Some moved, w4) \<Rightarrow>
      case tx_call (overwriteSubscription (sa_user p) (sa_paid p) (sa_grant p) (sa_expires p)
                      (Some (sa_tier p)) d) w4 of
        (None, w5) \<Rightarrow> (None, w5) | (Some d1, w5) \<Rightarrow>
      case tx_call (Some (createTransaction (subscription_transaction p old) d1)) w5 of
        (None, w6) \<Rightarrow> (None, w6) | (Some created, w6) \<Rightarrow>
      if isl created then (if projl created = UniqueViolation then Some False else None, w6) else
      case projr created of (txid, d2) \<Rightarrow>
      case tx_call (createBalanceLog (subscription_log p old txid) d2) w6 of
        (None, w7) \<Rightarrow> (None, w7) | (Some d3, w7) \<Rightarrow>
      case (if moved > 0 then tx_call (createBalanceLog (carry_over_log p old txid moved) d3) w7
            else (Some d3, w7)) of
        (None, w8) \<Rightarrow> (None, w8) | (Some d4, w8) \<Rightarrow>
      case tx_commit d4 w8 of (False, w9) \<Rightarrow> (None, w9) | (True, w9) \<Rightarrow>
        (Some True,
         if w_redis_on w9
         then snd (redis_call (\<lambda>r. (Some (), rd_del R (balanceKeys3 (sa_user p)) r)) w9)
         else w9))"

definition expiry_apply :: "int \<Rightarrow> string \<Rightarrow> subscription_apply" where
  "expiry_apply uid day = \<lparr>sa_user = uid, sa_paid = 0, sa_grant = 0, sa_expires = None, sa_tier = 0,
     sa_event = ''sub:expire:'' @ show_int uid @ '':'' @ day, sa_type = ''sub_expire'',
     sa_source_type = ''system'', sa_source_id = ''expiry-sweep'', sa_remark = expiry_remark\<rparr>"

definition sweepExpiredSubscriptions :: "'r redis_api \<Rightarrow> 'r world \<Rightarrow> 'r world" where
  "sweepExpiredSubscriptions R w =
     (case db_query (\<lambda>d. Some (listExpiredSubscriptionUsers (w_now w) d)) w of
        (None, w1) \<Rightarrow> w1
      | (Some ids, w1) \<Rightarrow>
          let day = format_compact (utc_date (w_now w1)) in
          fold (\<lambda>uid w2. snd (applySubscription R (expiry_apply uid day) w2)) ids w1)"

section \<open>What the transaction does to the tables\<close>

definition subscription_tx :: "subscription_apply \<Rightarrow> db \<Rightarrow> db option" where
  "subscription_tx p d =
     Option.bind (user_of d (sa_user p)) (\<lambda>u.
     Option.bind (overwriteSubscription (sa_user p) (sa_paid p) (sa_grant p) (sa_expires p)
                    (Some (sa_tier p)) d) (\<lambda>d1.
     (case createTransaction (subscription_transaction p (user_pools u)) d1 of
        Inl _ \<Rightarrow> None
      | Inr (txid, d2) \<Rightarrow>
          Option.bind (createBalanceLog (subscription_log p (user_pools u) txid) d2) (\<lambda>d3.
          if u_sub u > 0 then createBalanceLog (carry_over_log p (user_pools u) txid (u_sub u)) d3
          else Some d3))))"

definition event_seen :: "db \<Rightarrow> string \<Rightarrow> bool" where
  "event_seen d e \<longleftrightarrow> list_ex (\<lambda>t. t_event t = Some e) (transactions d)"

lemma overwrite_keeps:
  "overwriteSubscription i a b c e d = Some d' \<Longrightarrow> transactions d' = transactions d \<and>
     balance_logs d' = balance_logs d \<and> billing_logs d' = billing_logs d"
  by (auto simp: overwriteSubscription_def)

lemma createTransaction_Inr:
  "createTransaction t d = Inr (i, d') \<Longrightarrow>
     d' = d\<lparr>transactions := transactions d @ [t\<lparr>t_id := i\<rparr>]\<rparr> \<and>
     (\<forall>e. t_event t = Some e \<longrightarrow> e \<noteq> '''' \<longrightarrow> \<not> event_seen d e)"
  by (auto simp: createTransaction_def Let_def event_seen_def split: if_splits option.splits)

lemma createBalanceLog_Some:
  "createBalanceLog b d = Some d' \<Longrightarrow> d' = d\<lparr>balance_logs := balance_logs d @ [b]\<rparr>"
  by (auto simp: createBalanceLog_def split: if_splits)

text \<open>A committed change: the row is overwritten, one transaction and its log lines are added.\<close>

lemma subscription_tx_parts:
  assumes "subscription_tx p d = Some d'"
  obtains u d1 txid d2 where "user_of d (sa_user p) = Some u"
    and "overwriteSubscription (sa_user p) (sa_paid p) (sa_grant p) (sa_expires p) (Some (sa_tier p)) d = Some d1"
    and "createTransaction (subscription_transaction p (user_pools u)) d1 = Inr (txid, d2)"
    and "d' = d2\<lparr>balance_logs := balance_logs d2 @ subscription_log p (user_pools u) txid #
      (if u_sub u > 0 then [carry_over_log p (user_pools u) txid (u_sub u)] else [])\<rparr>"
proof -
  obtain u where u: "user_of d (sa_user p) = Some u"
    using assms by (auto simp: subscription_tx_def bind_eq_Some_conv)
  obtain d1 txid d2 where d1: "overwriteSubscription (sa_user p) (sa_paid p) (sa_grant p) (sa_expires p)
        (Some (sa_tier p)) d = Some d1"
    and d2: "createTransaction (subscription_transaction p (user_pools u)) d1 = Inr (txid, d2)"
    and rest: "Option.bind (createBalanceLog (subscription_log p (user_pools u) txid) d2) (\<lambda>d3.
          if u_sub u > 0 then createBalanceLog (carry_over_log p (user_pools u) txid (u_sub u)) d3
          else Some d3) = Some d'"
  proof -
    obtain y where y: "overwriteSubscription (sa_user p) (sa_paid p) (sa_grant p) (sa_expires p)
        (Some (sa_tier p)) d = Some y"
      using assms u by (auto simp: subscription_tx_def bind_eq_Some_conv)
    obtain r where r: "createTransaction (subscription_transaction p (user_pools u)) y = Inr r"
      using assms u y by (cases "createTransaction (subscription_transaction p (user_pools u)) y")
        (auto simp: subscription_tx_def)
    obtain txid d2 where r2: "r = (txid, d2)" by (cases r)
    show thesis using assms u y r r2 by (intro that [of y txid d2])
        (simp_all add: subscription_tx_def)
  qed
  obtain d3 where d3: "createBalanceLog (subscription_log p (user_pools u) txid) d2 = Some d3"
    using rest by (auto simp: bind_eq_Some_conv)
  have d': "d' = d2\<lparr>balance_logs := balance_logs d2 @ subscription_log p (user_pools u) txid #
      (if u_sub u > 0 then [carry_over_log p (user_pools u) txid (u_sub u)] else [])\<rparr>"
    using rest createBalanceLog_Some [OF d3] d3
    by (auto dest: createBalanceLog_Some split: if_splits)
  show thesis by (rule that [OF u d1 d2 d'])
qed

lemma subscription_tx_effect:
  assumes "subscription_tx p d = Some d'"
  obtains u txid where "user_of d (sa_user p) = Some u"
    and "\<And>j. user_of d' j = (if j = sa_user p then Some (u\<lparr>u_cash := null_add (u_sub u) (u_cash u),
          u_sub := sa_paid p, u_grant := Some (sa_grant p), u_sub_expires := sa_expires p,
          u_tier := Some (sa_tier p)\<rparr>) else user_of d j)"
    and "transactions d' = transactions d @ [(subscription_transaction p (user_pools u))\<lparr>t_id := txid\<rparr>]"
    and "balance_logs d' = balance_logs d @ subscription_log p (user_pools u) txid #
          (if u_sub u > 0 then [carry_over_log p (user_pools u) txid (u_sub u)] else [])"
    and "sa_event p \<noteq> '''' \<longrightarrow> \<not> event_seen d (sa_event p) \<and> event_seen d' (sa_event p)"
proof -
  from assms obtain u d1 txid d2 where u: "user_of d (sa_user p) = Some u"
    and d1: "overwriteSubscription (sa_user p) (sa_paid p) (sa_grant p) (sa_expires p) (Some (sa_tier p)) d = Some d1"
    and d2: "createTransaction (subscription_transaction p (user_pools u)) d1 = Inr (txid, d2)"
    and d': "d' = d2\<lparr>balance_logs := balance_logs d2 @ subscription_log p (user_pools u) txid #
      (if u_sub u > 0 then [carry_over_log p (user_pools u) txid (u_sub u)] else [])\<rparr>"
    by (rule subscription_tx_parts)
  note k = overwrite_keeps [OF d1] createTransaction_Inr [OF d2]
  have ev: "t_event (subscription_transaction p (user_pools u)) = null_text (sa_event p)"
    by (simp add: subscription_transaction_def split: prod.splits)
  show thesis
  proof (rule that [OF u])
    show "user_of d' j = (if j = sa_user p then Some (u\<lparr>u_cash := null_add (u_sub u) (u_cash u),
          u_sub := sa_paid p, u_grant := Some (sa_grant p), u_sub_expires := sa_expires p,
          u_tier := Some (sa_tier p)\<rparr>) else user_of d j)" for j
      using user_of_overwriteSubscription [OF d1, of j] u k d' by (simp add: user_of_def)
    show "transactions d' = transactions d @ [(subscription_transaction p (user_pools u))\<lparr>t_id := txid\<rparr>]"
      "balance_logs d' = balance_logs d @ subscription_log p (user_pools u) txid #
          (if u_sub u > 0 then [carry_over_log p (user_pools u) txid (u_sub u)] else [])"
      using k d' by simp_all
    show "sa_event p \<noteq> '''' \<longrightarrow> \<not> event_seen d (sa_event p) \<and> event_seen d' (sa_event p)"
      using k d' ev by (auto simp: event_seen_def null_text_def)
  qed
qed

text \<open>Whatever fails, a call leaves the tables alone or does the whole transaction.\<close>

lemma applySubscription_cases:
  assumes "applySubscription R p w = (res, w')"
  shows "(w_db w' = w_db w \<and> res \<noteq> Some True) \<or> subscription_tx p (w_db w) = Some (w_db w')"
proof (rule ccontr)
  assume n: "\<not> ?thesis"
  define pre where "pre = (if sa_event p \<noteq> ''''
    then db_query (getTransactionByEventID (null_text (sa_event p))) w else (None, w))"
  obtain b1 w1 where s1: "pre = (b1, w1)" by fastforce
  have f1: "w_db w1 = w_db w"
    using s1 by (auto simp: pre_def db_query_def db_call_def next_fault_eq split: if_splits fault.splits option.splits)
  have b1: "b1 = None"
    using n assms s1 f1 by (cases b1) (auto simp: applySubscription_def pre_def [symmetric])
  obtain b2 w2 where s2: "tx_begin w1 = (b2, w2)" by fastforce
  note f2 = tx_call_cases [OF s2 [unfolded tx_begin_def]]
  have b2: "b2 = Some (w_db w)"
    using n assms s1 s2 f1 f2 b1 by (cases b2) (auto simp: applySubscription_def pre_def [symmetric])
  obtain b3 w3 where s3: "tx_call (getUserBalances (sa_user p) (w_db w)) w2 = (b3, w3)" by fastforce
  note f3 = tx_call_cases [OF s3]
  obtain old where b3: "b3 = Some old"
    using n assms s1 s2 s3 f1 f2 f3 b1 b2 by (cases b3) (auto simp: applySubscription_def pre_def [symmetric])
  obtain u where u: "user_of (w_db w) (sa_user p) = Some u" "old = user_pools u"
    using f3 b3 by (auto simp: getUserBalances_def)
  obtain b4 w4 where s4: "tx_call (selectSubBalance (sa_user p) (w_db w)) w3 = (b4, w4)" by fastforce
  note f4 = tx_call_cases [OF s4]
  have b4: "b4 = Some (u_sub u)"
    using n assms s1 s2 s3 s4 f1 f2 f3 f4 b1 b2 b3 u
    by (cases b4) (auto simp: applySubscription_def pre_def [symmetric] selectSubBalance_def)
  obtain b5 w5 where s5: "tx_call (overwriteSubscription (sa_user p) (sa_paid p) (sa_grant p)
      (sa_expires p) (Some (sa_tier p)) (w_db w)) w4 = (b5, w5)" by fastforce
  note f5 = tx_call_cases [OF s5]
  obtain d1 where b5: "b5 = Some d1"
    using n assms s1 s2 s3 s4 s5 f1 f2 f3 f4 f5 b1 b2 b3 b4
    by (cases b5) (auto simp: applySubscription_def pre_def [symmetric])
  obtain b6 w6 where s6: "tx_call (Some (createTransaction (subscription_transaction p old) d1)) w5 = (b6, w6)"
    by fastforce
  note f6 = tx_call_cases [OF s6]
  obtain created where b6': "b6 = Some created"
    using n assms s1 s2 s3 s4 s5 s6 f1 f2 f3 f4 f5 f6 b1 b2 b3 b4 b5
    by (cases b6) (auto simp: applySubscription_def pre_def [symmetric])
  have "\<not> isl created"
  proof
    assume "isl created"
    with assms s1 s2 s3 s4 s5 s6 b1 b2 b3 b4 b5 b6'
    have "(res, w') = (if projl created = UniqueViolation then Some False else None, w6)"
      by (simp add: applySubscription_def pre_def [symmetric])
    with n f1 f2 f3 f4 f5 f6 show False by (auto split: if_splits)
  qed
  then obtain txid d2 where b6: "b6 = Some (Inr (txid, d2))"
    using b6' by (cases created) auto
  obtain b7 w7 where s7: "tx_call (createBalanceLog (subscription_log p old txid) d2) w6 = (b7, w7)"
    by fastforce
  note f7 = tx_call_cases [OF s7]
  obtain d3 where b7: "b7 = Some d3"
    using n assms s1 s2 s3 s4 s5 s6 s7 f1 f2 f3 f4 f5 f6 f7 b1 b2 b3 b4 b5 b6
    by (cases b7) (auto simp: applySubscription_def pre_def [symmetric])
  define carry where "carry = (if u_sub u > 0
    then tx_call (createBalanceLog (carry_over_log p old txid (u_sub u)) d3) w7 else (Some d3, w7))"
  obtain b8 w8 where s8: "carry = (b8, w8)" by fastforce
  have f8: "w_db w8 = w_db w7" "\<And>d. b8 = Some d \<Longrightarrow> (if u_sub u > 0
      then createBalanceLog (carry_over_log p old txid (u_sub u)) d3 else Some d3) = Some d"
    using s8 tx_call_cases [of "createBalanceLog (carry_over_log p old txid (u_sub u)) d3" w7]
    unfolding carry_def by (auto split: if_splits)
  obtain d4 where b8: "b8 = Some d4"
    using n assms s1 s2 s3 s4 s5 s6 s7 s8 f1 f2 f3 f4 f5 f6 f7 f8 b1 b2 b3 b4 b5 b6 b7
    by (cases b8) (auto simp: applySubscription_def pre_def [symmetric] carry_def [symmetric])
  have tx: "subscription_tx p (w_db w) = Some d4"
    using u f5 f6 f7 f8(2) [OF b8] b5 b6 b7 by (auto simp: subscription_tx_def)
  obtain b9 w9 where s9: "tx_commit d4 w8 = (b9, w9)" by fastforce
  note f9 = tx_commit_frame [OF s9]
  have out: "(res, w') = (if b9 then (Some True, if w_redis_on w9
      then snd (redis_call (\<lambda>r. (Some (), rd_del R (balanceKeys3 (sa_user p)) r)) w9) else w9) else (None, w9))"
    using assms s1 s2 s3 s4 s5 s6 s7 s8 s9 b1 b2 b3 b4 b5 b6 b7 b8
    by (cases b9) (simp_all add: applySubscription_def pre_def [symmetric] carry_def [symmetric])
  have del: "w_db (snd (redis_call f w9)) = w_db w9" for f :: "'a \<Rightarrow> unit option \<times> 'a"
    using redis_call_frame(1) [of f w9] by (metis prod.collapse)
  have "w_db w' = w_db w9"
    using out del by (simp split: if_splits)
  with n tx out f9 f8 f1 f2 f3 f4 f5 f6 f7 show False by (auto split: if_splits)
qed

section \<open>Redelivery\<close>

text \<open>
  The events of the shop arrive through a webhook that is retried, and the sweep runs every hour.
  The contract of theory Worker holds for the handler too, with the event id as the key and all
  tables as the view.
\<close>

definition subscription_step :: "'r redis_api \<Rightarrow> subscription_apply \<Rightarrow> 'r world \<Rightarrow> 'r world" where
  "subscription_step R p w = snd (applySubscription R p w)"

definition subscription_effect :: "subscription_apply \<Rightarrow> db \<Rightarrow> db" where
  "subscription_effect p d = (case subscription_tx p d of None \<Rightarrow> d | Some d' \<Rightarrow> d')"

lemma subscription_step_db:
  "w_db (subscription_step R p w) = w_db w \<or> subscription_tx p (w_db w) = Some (w_db (subscription_step R p w))"
  using applySubscription_cases [of R p w] by (auto simp: subscription_step_def prod_eq_iff)

lemma null_text_Some: "null_text s = Some k \<longleftrightarrow> s = k \<and> s \<noteq> ''''"
  by (auto simp: null_text_def)

lemma event_seen_stays: "event_seen d e \<Longrightarrow> subscription_tx p d = Some d' \<Longrightarrow> event_seen d' e"
  by (elim subscription_tx_effect) (simp add: event_seen_def)

interpretation subscription: idempotent_consumer "subscription_step R" w_db
  "\<lambda>p. null_text (sa_event p)" event_seen subscription_effect for R :: "'r redis_api"
proof
  fix p :: subscription_apply and k and w :: "'r world"
  assume k: "null_text (sa_event p) = Some k"
  show "event_seen (w_db w) k \<Longrightarrow> w_db (subscription_step R p w) = w_db w"
    using subscription_step_db [of R p w] k by (auto simp: null_text_Some elim: subscription_tx_effect)
  show "w_db (subscription_step R p w) = w_db w \<or>
      w_db (subscription_step R p w) = subscription_effect p (w_db w) \<and>
      event_seen (w_db (subscription_step R p w)) k"
    using subscription_step_db [of R p w] k
    by (auto simp: null_text_Some subscription_effect_def elim: subscription_tx_effect)
next
  show "event_seen (subscription_effect p v) k" if "event_seen v k" for v k and p :: subscription_apply
    using that event_seen_stays by (auto simp: subscription_effect_def split: option.splits)
qed

text \<open>
  C17. However often subscription events are delivered, in whatever order and whatever fails on
  the way, the tables end up as if some of the events had been applied once each: no event id is
  applied twice and none that was applied before is applied again.
\<close>

theorem subscription_redelivery:
  assumes "\<forall>p \<in> set ps. sa_event p \<noteq> ''''"
  shows "\<exists>ps'. subseq ps' ps \<and> distinct (map sa_event ps') \<and>
    w_db (fold (\<lambda>p w. snd (applySubscription R p w)) ps w) = fold subscription_effect ps' (w_db w) \<and>
    (\<forall>p \<in> set ps'. \<not> event_seen (w_db w) (sa_event p))"
proof -
  have ne: "null_text (sa_event p) \<noteq> None" if "p \<in> set ps" for p
    using assms that by (simp add: null_text_def)
  have f: "fold (\<lambda>p w. snd (applySubscription R p w)) ps w = fold (subscription_step R) ps w"
    by (simp add: subscription_step_def [abs_def])
  obtain ps' where ps': "subseq ps' ps" "distinct (map (\<lambda>p. null_text (sa_event p)) ps')"
    "w_db (fold (subscription_step R) ps w) = fold subscription_effect ps' (w_db w)"
    "\<forall>p \<in> set ps'. \<not> event_seen (w_db w) (the (null_text (sa_event p)))"
    using subscription.at_most_once [OF ne] by metis
  have ne': "sa_event p \<noteq> ''''" if "p \<in> set ps'" for p
    using that ps'(1) assms by (meson subseq_subset subsetD)
  then have mp: "map (\<lambda>p. null_text (sa_event p)) ps' = map Some (map sa_event ps')"
    by (simp add: null_text_def)
  have "distinct (map sa_event ps')" using ps'(2) unfolding mp by (metis distinct_map)
  moreover have "\<forall>p \<in> set ps'. \<not> event_seen (w_db w) (sa_event p)"
    using ps'(4) ne' by (simp add: null_text_def)
  ultimately show ?thesis using ps'(1,3) f by auto
qed

definition witness_apply :: "int \<Rightarrow> int \<Rightarrow> string \<Rightarrow> subscription_apply" where
  "witness_apply paid gift e = \<lparr>sa_user = 7, sa_paid = paid, sa_grant = gift, sa_expires = Some 5000,
     sa_tier = 2, sa_event = e, sa_type = '''', sa_source_type = '''', sa_source_id = ''o1'',
     sa_remark = ''''\<rparr>"

theorem subscription_redelivery_witness:
  "\<exists>ps'. subseq ps' [witness_apply 50 5 ''e1'', witness_apply 50 5 ''e1''] \<and> distinct (map sa_event ps') \<and>
    w_db (fold (\<lambda>p w. snd (applySubscription mem_redis p w)) [witness_apply 50 5 ''e1'', witness_apply 50 5 ''e1'']
      (witness_world [] (witness_db (30, 20, 100)) [Refused])) =
      fold subscription_effect ps' (witness_db (30, 20, 100))"
  using subscription_redelivery [of "[witness_apply 50 5 ''e1'', witness_apply 50 5 ''e1'']" mem_redis
      "witness_world [] (witness_db (30, 20, 100)) [Refused]"]
  by (auto simp: witness_apply_def)

section \<open>The balances\<close>

lemma applySubscription_fine:
  assumes "w_faults w = []" "w_redis_on w" "applySubscription R p w = (Some True, w')"
  shows "\<exists>d. w' = w\<lparr>w_db := d, w_redis := rd_del R (balanceKeys3 (sa_user p)) (w_redis w)\<rparr>"
  using assms
  by (auto simp: applySubscription_def split: option.splits if_splits prod.splits)


lemma applySubscription_applies:
  assumes "w_faults w = []" "subscription_tx p (w_db w) = Some d"
  shows "\<exists>w'. applySubscription R p w = (Some True, w') \<and> w_db w' = d \<and> w_faults w' = [] \<and>
    w_now w' = w_now w"
proof -
  obtain u where u: "user_of (w_db w) (sa_user p) = Some u"
    using assms(2) by (auto simp: subscription_tx_def bind_eq_Some_conv)
  have new: "sa_event p \<noteq> '''' \<longrightarrow> getTransactionByEventID (null_text (sa_event p)) (w_db w) = None"
    using subscription_tx_effect [OF assms(2)]
    by (auto simp: getTransactionByEventID_def null_text_def event_seen_def find_None_iff list_ex_iff)
  obtain d1 where d1: "overwriteSubscription (sa_user p) (sa_paid p) (sa_grant p) (sa_expires p)
      (Some (sa_tier p)) (w_db w) = Some d1"
    using assms(2) u by (auto simp: subscription_tx_def bind_eq_Some_conv)
  obtain txid d2 where d2: "createTransaction (subscription_transaction p (user_pools u)) d1 = Inr (txid, d2)"
    using assms(2) u d1
    by (cases "createTransaction (subscription_transaction p (user_pools u)) d1") (auto simp: subscription_tx_def)
  obtain d3 where d3: "createBalanceLog (subscription_log p (user_pools u) txid) d2 = Some d3"
    "(if u_sub u > 0 then createBalanceLog (carry_over_log p (user_pools u) txid (u_sub u)) d3 else Some d3) = Some d"
    using assms(2) u d1 d2 by (auto simp: subscription_tx_def bind_eq_Some_conv)
  let ?w = "w\<lparr>w_db := d\<rparr>"
  have "applySubscription R p w = (Some True, if w_redis_on ?w
      then snd (redis_call (\<lambda>r. (Some (), rd_del R (balanceKeys3 (sa_user p)) r)) ?w) else ?w)"
    using assms(1) new u d1 d2 d3
    by (cases "u_sub u > 0"; cases "sa_event p = ''''")
      (simp_all add: applySubscription_def getUserBalances_def selectSubBalance_def)
  then show ?thesis using assms(1) by simp
qed

text \<open>When the change goes through: a new event, texts that fit, a cash balance without overflow.\<close>

definition subscription_fits :: "subscription_apply \<Rightarrow> bool" where
  "subscription_fits p \<longleftrightarrow> fits 50 (nonEmpty (sa_type p) ''sub_apply'') \<and>
     fits 50 (nonEmpty (sa_source_type p) ''system'') \<and> fits 100 (sa_source_id p) \<and> fits 120 (sa_event p)"

lemma fits_mono: "fits m s \<Longrightarrow> m \<le> n \<Longrightarrow> fits n s"
  by (simp add: fits_def)

lemma subscription_tx_defined:
  assumes "subscription_fits p" "user_of d (sa_user p) = Some u"
    and "\<not> event_seen d (sa_event p)"
    and "\<And>v. v \<in> set (users d) \<Longrightarrow> u_id v = sa_user p \<Longrightarrow> in_i64 (coalesce0 (u_cash v) + u_sub v)"
  shows "\<exists>d'. subscription_tx p d = Some d'"
proof -
  have "\<exists>us. update_where (\<lambda>v. u_id v = sa_user p) (\<lambda>u. map_option (\<lambda>c. u\<lparr>u_cash := c, u_sub := sa_paid p,
      u_grant := Some (sa_grant p), u_sub_expires := sa_expires p, u_tier := Some (sa_tier p)\<rparr>)
      (sql_add_null (u_cash u) (u_sub u))) (users d) = Some us"
    using assms(4) by (intro update_where_total) (simp add: sql_add_null_defined)
  then obtain d1 where d1: "overwriteSubscription (sa_user p) (sa_paid p) (sa_grant p) (sa_expires p)
      (Some (sa_tier p)) d = Some d1"
    by (auto simp: overwriteSubscription_def)
  have fk: "fk_user (sa_user p) d1"
    using user_of_overwriteSubscription [OF d1] assms(2) by (simp add: fk_user_def)
  let ?t = "subscription_transaction p (user_pools u)"
  have t: "t_event ?t = null_text (sa_event p)" "t_user ?t = sa_user p" "t_type ?t = nonEmpty (sa_type p) ''sub_apply''"
    "t_source_type ?t = nonEmpty (sa_source_type p) ''system''" "t_source_id ?t = sa_source_id p"
    "fits 20 (t_balance_type ?t)" "fits 20 (t_direction ?t)" "fits 20 (t_status ?t)"
    "jsonb_ok (t_metadata ?t)"
    by (simp_all add: subscription_transaction_def user_pools_def fits_def empty_object_def)
  have "\<exists>txid. createTransaction ?t d1 = Inr (txid, d1\<lparr>transactions := transactions d1 @ [?t\<lparr>t_id := txid\<rparr>]\<rparr>)"
    using t fk assms(1,3) overwrite_keeps [OF d1]
    by (auto simp: createTransaction_def Let_def subscription_fits_def null_text_def event_seen_def)
  then obtain txid where d2: "createTransaction ?t d1 =
      Inr (txid, d1\<lparr>transactions := transactions d1 @ [?t\<lparr>t_id := txid\<rparr>]\<rparr>)" ..
  let ?d2 = "d1\<lparr>transactions := transactions d1 @ [?t\<lparr>t_id := txid\<rparr>]\<rparr>"
  have ok: "createBalanceLog b d3 = Some (d3\<lparr>balance_logs := balance_logs d3 @ [b]\<rparr>)"
    if "users d3 = users d1" "transactions d3 = transactions ?d2" "b_user b = sa_user p"
      "b_transaction b = Some txid" "fits 20 (b_balance_type b)" "fits 50 (b_action b)" "fits 100 (b_operator b)" for b d3
    using that fk by (simp add: createBalanceLog_def fk_user_def user_of_def)
  have f: "fits 50 (nonEmpty (sa_type p) ''sub_apply'')" "fits 100 (nonEmpty (sa_source_type p) ''system'')"
    using assms(1) by (auto simp: subscription_fits_def intro: fits_mono)
  have "createBalanceLog (subscription_log p (user_pools u) txid) ?d2 =
      Some (?d2\<lparr>balance_logs := balance_logs ?d2 @ [subscription_log p (user_pools u) txid]\<rparr>)"
    using f by (intro ok) (simp_all add: subscription_log_def user_pools_def, simp add: fits_def)
  moreover have "createBalanceLog (carry_over_log p (user_pools u) txid (u_sub u))
      (?d2\<lparr>balance_logs := bs\<rparr>) \<noteq> None" for bs
    using f by (subst ok) (simp_all add: carry_over_log_def user_pools_def, simp_all add: fits_def)
  ultimately show ?thesis
    using assms(2) d1 d2 by (auto simp: subscription_tx_def)
qed


section \<open>The sweep\<close>

lemma update_where_keys:
  "update_where P f rows = Some rows' \<Longrightarrow> (\<And>r r'. f r = Some r' \<Longrightarrow> key r' = key r) \<Longrightarrow>
     map key rows' = map key rows"
  by (induction rows arbitrary: rows') (auto split: option.splits if_splits)

lemma subscription_tx_ids:
  assumes "subscription_tx p d = Some d'"
  shows "map u_id (users d') = map u_id (users d)"
proof -
  from assms obtain d1 where d1: "overwriteSubscription (sa_user p) (sa_paid p) (sa_grant p) (sa_expires p)
      (Some (sa_tier p)) d = Some d1" and e: "users d' = users d1"
    by (rule subscription_tx_parts) (auto dest!: createTransaction_Inr)
  have "map u_id (users d1) = map u_id (users d)"
    using d1 unfolding overwriteSubscription_def
    by (clarsimp simp only: map_option_eq_Some) (drule update_where_keys [where key = u_id], auto)
  with e show ?thesis by simp
qed

lemma user_of_member:
  "distinct (map u_id (users d)) \<Longrightarrow> u \<in> set (users d) \<Longrightarrow> user_of d (u_id u) = Some u"
proof -
  assume d: "distinct (map u_id (users d))" and u: "u \<in> set (users d)"
  have "find (\<lambda>v. u_id v = u_id u) us = Some u" if "distinct (map u_id us)" "u \<in> set us" for us
    using that by (induction us) (auto simp: rev_image_eqI)
  with d u show ?thesis by (simp add: user_of_def)
qed

lemma member_of_user: "user_of d i = Some u \<Longrightarrow> u \<in> set (users d) \<and> u_id u = i"
  by (simp add: user_of_def find_Some_iff) (metis nth_mem)

text \<open>The sweep can deal with a user: the event of the day is new and fits, cash has room.\<close>

definition sweepable :: "string \<Rightarrow> db \<Rightarrow> int \<Rightarrow> bool" where
  "sweepable day d uid \<longleftrightarrow> \<not> event_seen d (sa_event (expiry_apply uid day)) \<and>
     fits 120 (sa_event (expiry_apply uid day)) \<and>
     (\<exists>u. user_of d uid = Some u \<and> in_i64 (coalesce0 (u_cash u) + u_sub u))"

definition cleared :: "user_row \<Rightarrow> bool" where
  "cleared u \<longleftrightarrow> u_sub u = 0 \<and> u_grant u = Some 0 \<and> u_sub_expires u = None"

lemma expiry_events_differ:
  "sa_event (expiry_apply a day) = sa_event (expiry_apply b day) \<longleftrightarrow> a = b"
  by (simp add: expiry_apply_def)

lemma sweep_fold:
  assumes "distinct ids" "\<forall>i \<in> set ids. sweepable day (w_db w) i"
    and "distinct (map u_id (users (w_db w)))" "w_faults w = []"
  shows "let w' = fold (\<lambda>uid w2. snd (applySubscription R (expiry_apply uid day) w2)) ids w in
    map u_id (users (w_db w')) = map u_id (users (w_db w)) \<and>
    (\<forall>j. if j \<in> set ids then (\<exists>u. user_of (w_db w') j = Some u \<and> cleared u)
         else user_of (w_db w') j = user_of (w_db w) j)"
  using assms
proof (induction ids arbitrary: w)
  case (Cons i ids)
  let ?p = "expiry_apply i day"
  have sw: "sweepable day (w_db w) i" using Cons.prems(2) by simp
  then obtain u where u: "user_of (w_db w) (sa_user ?p) = Some u" "in_i64 (coalesce0 (u_cash u) + u_sub u)"
    by (auto simp: sweepable_def expiry_apply_def)
  have one: "in_i64 (coalesce0 (u_cash v) + u_sub v)" if "v \<in> set (users (w_db w))" "u_id v = sa_user ?p" for v
    using user_of_member [OF Cons.prems(3) that(1)] that(2) u by simp
  have "subscription_fits ?p" using sw by (simp add: subscription_fits_def sweepable_def)
      (simp add: expiry_apply_def nonEmpty_def fits_def)
  from subscription_tx_defined [OF this u(1) _ one] obtain d where d: "subscription_tx ?p (w_db w) = Some d"
    using sw by (auto simp: sweepable_def)
  obtain w1 where w1: "applySubscription R ?p w = (Some True, w1)" "w_db w1 = d" "w_faults w1 = []"
    using applySubscription_applies [OF Cons.prems(4) d] by blast
  from d obtain u0 txid where e: "\<And>j. user_of d j = (if j = sa_user ?p then Some (u0\<lparr>u_cash := null_add (u_sub u0) (u_cash u0),
          u_sub := sa_paid ?p, u_grant := Some (sa_grant ?p), u_sub_expires := sa_expires ?p,
          u_tier := Some (sa_tier ?p)\<rparr>) else user_of (w_db w) j)"
    "transactions d = transactions (w_db w) @ [(subscription_transaction ?p (user_pools u0))\<lparr>t_id := txid\<rparr>]"
    by (rule subscription_tx_effect) blast
  have eff: "\<And>j. user_of d j = (if j = i then Some (u0\<lparr>u_cash := null_add (u_sub u0) (u_cash u0),
          u_sub := 0, u_grant := Some 0, u_sub_expires := None, u_tier := Some 0\<rparr>) else user_of (w_db w) j)"
    "transactions d = transactions (w_db w) @ [(subscription_transaction ?p (user_pools u0))\<lparr>t_id := txid\<rparr>]"
    using e by (simp_all add: expiry_apply_def)
  have ids: "map u_id (users d) = map u_id (users (w_db w))" by (rule subscription_tx_ids [OF d])
  have "sweepable day (w_db w1) j" if "j \<in> set ids" for j
  proof -
    have "j \<noteq> i" "sweepable day (w_db w) j" using Cons.prems(1,2) that by auto
    then show ?thesis
      using eff w1(2) expiry_events_differ [of i day j]
      by (auto simp: sweepable_def event_seen_def subscription_transaction_def null_text_def
          split: prod.splits if_splits)
  qed
  with Cons.IH [of w1] Cons.prems w1 ids show ?case
    by (auto simp: Let_def eff(1) cleared_def split: if_splits)
qed simp



end
