(* ===== verification/Ledger.thy ===== *)
theory Ledger
  imports Subscription
begin

text \<open>
  What the webhook and the admin page share when they change a balance: the statements of a database
  transaction as a sequence of calls, amounts of money as scaled integers, the two pools that can be
  credited.
\<close>

section \<open>Transactions of the database\<close>

text \<open>
  One statement of a transaction: an error ends it with \<open>e\<close>, a result goes to the rest. \<open>yields m a\<close> says
  that \<open>m\<close> can only get through with the result \<open>a\<close>.
\<close>

definition tx_then ::
  "'e \<Rightarrow> 'a option \<Rightarrow> ('a \<Rightarrow> 'r world \<Rightarrow> ('e + 'b) \<times> 'r world) \<Rightarrow> 'r world \<Rightarrow> ('e + 'b) \<times> 'r world" where
  "tx_then e a k w = (case tx_call a w of (None, w1) \<Rightarrow> (Inl e, w1) | (Some x, w1) \<Rightarrow> k x w1)"

definition yields :: "('r world \<Rightarrow> ('e + 'b) \<times> 'r world) \<Rightarrow> 'b option \<Rightarrow> bool" where
  "yields m a \<longleftrightarrow> (\<forall>w r w'. m w = (r, w') \<longrightarrow> w_db w' = w_db w \<and> w_redis w' = w_redis w \<and> w_queue w' = w_queue w \<and>
     w_redis_on w' = w_redis_on w \<and> (\<forall>x. r = Inr x \<longrightarrow> a = Some x) \<and>
     (w_faults w = [] \<longrightarrow> w' = w \<and> (\<forall>x. a = Some x \<longrightarrow> r = Inr x)))"

named_theorems tx_rules "what a transaction yields"

lemma yieldsI:
  assumes "\<And>w r w'. m w = (r, w') \<Longrightarrow> w_db w' = w_db w \<and> w_redis w' = w_redis w \<and> w_queue w' = w_queue w \<and>
      w_redis_on w' = w_redis_on w \<and> (\<forall>x. r = Inr x \<longrightarrow> a = Some x)"
    and "\<And>w. w_faults w = [] \<Longrightarrow> snd (m w) = w \<and> (\<forall>x. a = Some x \<longrightarrow> fst (m w) = Inr x)"
  shows "yields m a"
  using assms unfolding yields_def by (metis fst_conv snd_conv)

lemma yieldsD:
  assumes "yields m a" "m w = (r, w')"
  shows "w_db w' = w_db w" "w_redis w' = w_redis w" "w_queue w' = w_queue w" "w_redis_on w' = w_redis_on w"
    "r = Inr x \<Longrightarrow> a = Some x"
  using assms unfolding yields_def by blast+

lemma yields_fine:
  assumes "yields m (Some x)" "w_faults w = []"
  shows "m w = (Inr x, w)"
  using assms unfolding yields_def by (metis prod.collapse)

lemma yields_then [tx_rules]:
  assumes "\<And>x. a = Some x \<Longrightarrow> yields (k x) (f x)"
  shows "yields (tx_then e a k) (Option.bind a f)"
proof (rule yieldsI)
  fix w r w'
  assume m: "tx_then e a k w = (r, w')"
  obtain b w1 where c: "tx_call a w = (b, w1)" by fastforce
  note t = tx_call_cases [OF c]
  show "w_db w' = w_db w \<and> w_redis w' = w_redis w \<and> w_queue w' = w_queue w \<and> w_redis_on w' = w_redis_on w \<and>
      (\<forall>x. r = Inr x \<longrightarrow> Option.bind a f = Some x)"
  proof (cases b)
    case None
    with m c have "r = Inl e" "w' = w1" by (simp_all add: tx_then_def)
    with t show ?thesis by simp
  next
    case (Some x)
    then have a: "a = Some x" using t by simp
    from Some m c have k: "k x w1 = (r, w')" by (simp add: tx_then_def)
    from yieldsD [OF assms [OF a] k] t a show ?thesis by simp
  qed
next
  fix w :: "'b world"
  assume "w_faults w = []"
  then have c: "tx_call a w = (a, w)" by simp
  show "snd (tx_then e a k w) = w \<and> (\<forall>x. Option.bind a f = Some x \<longrightarrow> fst (tx_then e a k w) = Inr x)"
  proof (cases a)
    case None
    then show ?thesis using c by (simp add: tx_then_def)
  next
    case (Some x)
    have "snd (k x w) = w \<and> (\<forall>z. f x = Some z \<longrightarrow> fst (k x w) = Inr z)"
      using assms [OF Some] \<open>w_faults w = []\<close> unfolding yields_def by (metis prod.collapse)
    then show ?thesis using c Some by (simp add: tx_then_def)
  qed
qed

lemma yields_return [tx_rules]: "yields (\<lambda>w. (Inr x, w)) (Some x)" and yields_exit [tx_rules]: "yields (\<lambda>w. (Inl e, w)) None"
  by (simp_all add: yields_def)

lemma yields_if [tx_rules]:
  "(c \<Longrightarrow> yields m a) \<Longrightarrow> (\<not> c \<Longrightarrow> yields n b) \<Longrightarrow> yields (if c then m else n) (if c then a else b)"
  by simp

section \<open>Amounts and pools\<close>

definition f64_pos :: "f64 \<Rightarrow> bool" where
  "f64_pos x \<longleftrightarrow> \<not> f64_le0 x"

definition moneyToScaledInt :: "f64 \<Rightarrow> int" where
  "moneyToScaledInt amount = to_int64 (f64_round (f64_mul amount (f64_of_int 100000000)))"

definition pool_before :: "string \<Rightarrow> user_row \<Rightarrow> int" where
  "pool_before balance u = (if balance = ''grant'' then coalesce0 (u_grant u) else coalesce0 (u_cash u))"

definition update_pool :: "string \<Rightarrow> int \<Rightarrow> int \<Rightarrow> db \<Rightarrow> db option" where
  "update_pool balance uid delta d =
     (if balance = ''grant'' then updateUserGrantBalance uid delta d else updateUserTopupBalance uid delta d)"

definition with_pool :: "string \<Rightarrow> int \<Rightarrow> user_row \<Rightarrow> user_row" where
  "with_pool balance delta u =
     (if balance = ''grant'' then u\<lparr>u_grant := null_add delta (u_grant u)\<rparr> else u\<lparr>u_cash := null_add delta (u_cash u)\<rparr>)"

lemma update_pool_rows:
  assumes "update_pool balance i x d = Some d'"
  shows "user_of d' j = (if j = i then map_option (with_pool balance x) (user_of d i) else user_of d j)"
    and "transactions d' = transactions d" "balance_logs d' = balance_logs d"
proof -
  show "user_of d' j = (if j = i then map_option (with_pool balance x) (user_of d i) else user_of d j)"
    using assms user_of_updateUserGrantBalance [of i x d d' j] user_of_updateUserTopupBalance [of i x d d' j]
    by (cases "user_of d i") (auto simp: update_pool_def with_pool_def split: if_splits)
  show "transactions d' = transactions d" "balance_logs d' = balance_logs d"
    using assms by (auto simp: update_pool_def updateUserGrantBalance_def updateUserTopupBalance_def split: if_splits)
qed

lemma credit_cache_db [simp]: "w_db (snd (creditBalanceCache R uid b x w)) = w_db w"
  by (auto simp: creditBalanceCache_def split: option.splits prod.splits dest: redis_call_frame(1))


definition pool_of :: "string \<Rightarrow> user_row \<Rightarrow> int option" where
  "pool_of balance u = (if balance = ''grant'' then u_grant u else u_cash u)"

definition pool_key :: "string \<Rightarrow> int \<Rightarrow> string" where
  "pool_key balance uid = (if balance = ''grant'' then grantBalanceKey uid else cashBalanceKey uid)"

lemma pool_of_with [simp]: "pool_of balance (with_pool balance x u) = null_add x (pool_of balance u)"
  by (simp add: pool_of_def with_pool_def)

lemma pool_before_Some: "pool_of balance u = Some v \<Longrightarrow> pool_before balance u = v"
  by (auto simp: pool_of_def pool_before_def split: if_splits)

lemma update_pool_range:
  assumes "update_pool balance i x d = Some d'" "user_of d i = Some u" "pool_of balance u = Some v"
  shows "in_i64 (v + x)"
proof (cases "balance = ''grant''")
  case True
  then obtain us where "update_where (\<lambda>u. u_id u = i) (\<lambda>u. map_option (\<lambda>g. u\<lparr>u_grant := g\<rparr>) (sql_add_null (u_grant u) x))
      (users d) = Some us"
    using assms(1) by (auto simp: update_pool_def updateUserGrantBalance_def)
  from update_where_defined [OF this, of u] assms(2,3) True show ?thesis
    by (auto simp: user_of_def pool_of_def sql_add_null_def sql_add_def split: if_splits)
next
  case False
  then obtain us where "update_where (\<lambda>u. u_id u = i) (\<lambda>u. map_option (\<lambda>c. u\<lparr>u_cash := c\<rparr>) (sql_add_null (u_cash u) x))
      (users d) = Some us"
    using assms(1) by (auto simp: update_pool_def updateUserTopupBalance_def)
  from update_where_defined [OF this, of u] assms(2,3) False show ?thesis
    by (auto simp: user_of_def pool_of_def sql_add_null_def sql_add_def split: if_splits)
qed

text \<open>A cached pool moves by the same amount as the table; a pool that is not cached stays so.\<close>

context redis_server
begin

lemma credit_cache_exact:
  assumes "w_faults w = []" "w_redis_on w" "balance = ''grant'' \<or> balance = ''cash''"
    and "holds R (w_redis w) (pool_key balance uid) c" "in_i64 c" "in_i64 x" "in_i64 (c + x)"
  obtains r' where "creditBalanceCache R uid balance x w = (Inr (), w\<lparr>w_redis := r'\<rparr>)"
    and "\<And>k. rd_get R r' k = (if k = pool_key balance uid then Some (show_int (c + x)) else rd_get R (w_redis w) k)"
proof -
  obtain r' where r: "rd_incrby R (pool_key balance uid) x (w_redis w) = (Some (c + x), r')"
    "\<And>k. rd_get R r' k = (if k = pool_key balance uid then Some (show_int (c + x)) else rd_get R (w_redis w) k)"
    using incrby_holds [OF assms(4-7)] by metis
  have "(if balance = ''grant'' then Some (grantBalanceKey uid)
      else if balance = ''cash'' then Some (cashBalanceKey uid) else None) = Some (pool_key balance uid)"
    using assms(3) by (auto simp: pool_key_def)
  with r assms(1,2,4) show thesis
    by (intro that [of r']) (simp_all add: creditBalanceCache_def lua_credit_cache_def holds_def)
qed

lemma credit_cache_absent:
  assumes "w_faults w = []" "w_redis_on w" "balance = ''grant'' \<or> balance = ''cash''"
    and "rd_get R (w_redis w) (pool_key balance uid) = None"
  shows "creditBalanceCache R uid balance x w = (Inr (), w)"
  using assms by (auto simp: creditBalanceCache_def lua_credit_cache_def pool_key_def)

end

section \<open>A credit in one transaction\<close>

text \<open>The pool, the transaction and the line of the balance log; the two rows depend on the balance before.\<close>

definition credit_tx ::
  "int \<Rightarrow> string \<Rightarrow> int \<Rightarrow> (int \<Rightarrow> transaction_row) \<Rightarrow> (int \<Rightarrow> int \<Rightarrow> balance_log_row) \<Rightarrow> db \<Rightarrow> (int \<times> db) option" where
  "credit_tx uid balance delta t b d =
     Option.bind (getUserByIDForUpdate uid d) (\<lambda>u.
     Option.bind (update_pool balance uid delta d) (\<lambda>d1.
     Option.bind (Some (createTransaction (t (pool_before balance u)) d1)) (\<lambda>created.
     case created of
       Inl _ \<Rightarrow> None
     | Inr (txid, d2) \<Rightarrow>
         Option.bind (createBalanceLog (b (pool_before balance u) txid) d2) (\<lambda>d3. Some (txid, d3)))))"

lemma credit_tx_effect:
  assumes "credit_tx uid balance delta t b d = Some (txid, d')"
  obtains u where "user_of d uid = Some u" "update_pool balance uid delta d \<noteq> None"
    and "\<forall>j. user_of d' j = (if j = uid then Some (with_pool balance delta u) else user_of d j)"
    and "transactions d' = transactions d @ [(t (pool_before balance u))\<lparr>t_id := txid\<rparr>]"
    and "balance_logs d' = balance_logs d @ [b (pool_before balance u) txid]"
    and "\<forall>e. t_event (t (pool_before balance u)) = Some e \<longrightarrow> e \<noteq> '''' \<longrightarrow> \<not> event_seen d e"
proof -
  obtain u where u: "user_of d uid = Some u"
    using assms by (auto simp: credit_tx_def getUserByIDForUpdate_def bind_eq_Some_conv)
  let ?b = "pool_before balance u"
  obtain d1 where d1: "update_pool balance uid delta d = Some d1"
    using assms u by (auto simp: credit_tx_def getUserByIDForUpdate_def bind_eq_Some_conv)
  obtain i d2 where d2: "createTransaction (t ?b) d1 = Inr (i, d2)"
    using assms u d1 by (auto simp: credit_tx_def getUserByIDForUpdate_def split: sum.splits)
  have "createBalanceLog (b ?b i) d2 = Some d' \<and> i = txid"
    using assms u d1 d2 by (auto simp: credit_tx_def getUserByIDForUpdate_def bind_eq_Some_conv)
  then have d3: "d' = d2\<lparr>balance_logs := balance_logs d2 @ [b ?b txid]\<rparr>" "i = txid"
    using createBalanceLog_Some by auto
  note c = createTransaction_Inr [OF d2] and p = update_pool_rows [OF d1]
  have "users d' = users d1" using c d3 by simp
  then have rows: "\<forall>j. user_of d' j = (if j = uid then Some (with_pool balance delta u) else user_of d j)"
    using p(1) u by (simp add: user_of_def)
  have logs: "transactions d' = transactions d @ [(t ?b)\<lparr>t_id := txid\<rparr>]" "balance_logs d' = balance_logs d @ [b ?b txid]"
    "\<forall>e. t_event (t ?b) = Some e \<longrightarrow> e \<noteq> '''' \<longrightarrow> \<not> event_seen d e"
    using c p d3 by (simp_all add: event_seen_def)
  have "update_pool balance uid delta d \<noteq> None" using d1 by simp
  from that [OF u this rows logs] show thesis .
qed

lemma credit_tx_range:
  assumes "credit_tx uid balance delta t b d = Some (txid, d')" "user_of d uid = Some u" "pool_of balance u = Some v"
  shows "in_i64 (v + delta)"
proof -
  from assms(1) obtain d1 where "update_pool balance uid delta d = Some d1" by (auto elim: credit_tx_effect)
  from update_pool_range [OF this assms(2,3)] show ?thesis .
qed

end
