(* ===== verification/Webhook.thy ===== *)
theory Webhook
  imports Ledger Async
begin

text \<open>
  internal/api/webhook: the events of the shop. A paid order becomes a transaction on one of the user's
  pools (processor.go), a subscription event a change of subscription (events.go). The keyed hash of the
  signature is a parameter; the creation time in the answer to a transaction is left out.
\<close>

section \<open>Requests\<close>

record transaction_request =
  tw_source :: string
  tw_event :: string
  tw_event_id :: string
  tw_user :: int
  tw_type :: string
  tw_balance :: string
  tw_direction :: string
  tw_amount :: f64
  tw_source_id :: string
  tw_remark :: string
  tw_metadata :: "json option"

definition normalizeTransactionRequest :: "transaction_request \<Rightarrow> transaction_request" where
  "normalizeTransactionRequest r =
     (let source = trim_space (to_lower (tw_source r));
          source = (if source = '''' then ''apayshop'' else source);
          event = trim_space (tw_event r);
          remark = trim_space (tw_remark r) in
      r\<lparr>tw_source := source, tw_event := event, tw_event_id := trim_space (tw_event_id r),
        tw_type := trim_space (to_lower (tw_type r)), tw_balance := trim_space (to_lower (tw_balance r)),
        tw_direction := trim_space (to_lower (tw_direction r)), tw_source_id := trim_space (tw_source_id r),
        tw_remark := (if remark = '''' then source @ '':'' @ event else remark)\<rparr>)"

definition normalizeMetadata :: "string \<Rightarrow> string \<Rightarrow> json option \<Rightarrow> json" where
  "normalizeMetadata source event raw =
     (if raw = None \<or> raw = Some JNull then JObj [(''event'', JStr event), (''source'', JStr source)] else the raw)"

text \<open>The answer of the processor: a status with a message, or a result.\<close>

record process_result =
  pr_message :: string
  pr_already :: bool
  pr_id :: int
  pr_status :: string
  pr_synced :: bool

type_synonym outcome = "int \<times> string + process_result"

definition already_processed :: "transaction_row \<Rightarrow> process_result" where
  "already_processed t = \<lparr>pr_message = ''Transaction already processed'', pr_already = True, pr_id = t_id t,
     pr_status = t_status t, pr_synced = False\<rparr>"

text \<open>The first complaint about a normalised request.\<close>

definition transaction_problem :: "transaction_request \<Rightarrow> string option" where
  "transaction_problem r =
     (if tw_event r = '''' \<or> tw_event_id r = '''' \<or> tw_user r \<le> 0 \<or> tw_type r = '''' \<or> tw_source_id r = ''''
      then Some ''Missing required transaction fields''
      else if \<not> f64_pos (tw_amount r) then Some ''Amount must be greater than 0''
      else if tw_balance r \<noteq> ''cash'' \<and> tw_balance r \<noteq> ''grant'' then Some ''Unsupported balance type''
      else if tw_direction r \<noteq> ''credit'' \<and> tw_direction r \<noteq> ''debit'' then Some ''Unsupported direction''
      else if moneyToScaledInt (tw_amount r) \<le> 0 then Some ''Amount is too small''
      else None)"

definition tw_delta :: "transaction_request \<Rightarrow> int" where
  "tw_delta r = (let x = moneyToScaledInt (tw_amount r) in if tw_direction r = ''debit'' then wrap64 (- x) else x)"

definition transaction_of :: "transaction_request \<Rightarrow> int \<Rightarrow> transaction_row" where
  "transaction_of r before =
     \<lparr>t_id = 0, t_user = tw_user r, t_event = null_text (tw_event_id r), t_type = tw_type r,
      t_balance_type = tw_balance r, t_direction = tw_direction r, t_amount = moneyToScaledInt (tw_amount r),
      t_before = before, t_after = wrap64 (before + tw_delta r), t_source_type = tw_source r,
      t_source_id = tw_source_id r, t_status = ''completed'', t_remark = tw_remark r,
      t_metadata = normalizeMetadata (tw_source r) (tw_event r) (tw_metadata r)\<rparr>"

text \<open>The type and the source have been checked or filled in, so their defaults are never taken.\<close>

definition balance_log_of :: "transaction_request \<Rightarrow> int \<Rightarrow> int \<Rightarrow> balance_log_row" where
  "balance_log_of r before txid =
     \<lparr>b_transaction = Some txid, b_user = tw_user r, b_balance_type = tw_balance r,
      b_action = or_default (tw_type r) (if tw_direction r = ''debit'' then ''deduct'' else ''recharge''),
      b_amount = moneyToScaledInt (tw_amount r), b_before = before, b_after = wrap64 (before + tw_delta r),
      b_admin = None, b_operator = or_default (tw_source r) ''system'', b_remark = tw_remark r\<rparr>"

section \<open>Processing a transaction\<close>

text \<open>
  The statements between begin and commit, on the transaction's copy \<open>d\<close>: an early return, or the number of
  the transaction with the tables to commit. A unique violation aborts the transaction; the row that caused
  it is looked up outside.
\<close>

definition existing_transaction :: "string \<Rightarrow> 'r world \<Rightarrow> outcome \<times> 'r world" where
  "existing_transaction e w =
     (case db_query (getTransactionByEventID (null_text e)) w of
        (Some t, w1) \<Rightarrow> (Inr (already_processed t), w1)
      | (None, w1) \<Rightarrow> (Inl (500, ''Failed to create transaction''), w1))"

definition transaction_body ::
  "transaction_request \<Rightarrow> db \<Rightarrow> 'r world \<Rightarrow> (outcome + (int \<times> db)) \<times> 'r world" where
  "transaction_body r d =
     tx_then (Inl (404, ''User not found'')) (getUserByIDForUpdate (tw_user r) d) (\<lambda>u.
     let before = pool_before (tw_balance r) u in
     if wrap64 (before + tw_delta r) < 0
     then (\<lambda>w. (Inl (Inl (409, ''Insufficient balance for debit transaction'')), w))
     else
     tx_then (Inl (500, ''Failed to update user balance'')) (update_pool (tw_balance r) (tw_user r) (tw_delta r) d) (\<lambda>d1.
     tx_then (Inl (500, ''Failed to create transaction'')) (Some (createTransaction (transaction_of r before) d1)) (\<lambda>created.
     case created of
       Inl UniqueViolation \<Rightarrow> (\<lambda>w. case existing_transaction (tw_event_id r) w of (out, w1) \<Rightarrow> (Inl out, w1))
     | Inl SqlError \<Rightarrow> (\<lambda>w. (Inl (Inl (500, ''Failed to create transaction'')), w))
     | Inr (txid, d2) \<Rightarrow>
         tx_then (Inl (500, ''Failed to create balance log'')) (createBalanceLog (balance_log_of r before txid) d2) (\<lambda>d3 w.
         (Inr (txid, d3), w)))))"

definition processTransaction ::
  "'r redis_api \<Rightarrow> transaction_request \<Rightarrow> 'r world \<Rightarrow> outcome \<times> 'r world" where
  "processTransaction R req w =
     (let r = normalizeTransactionRequest req in
      case transaction_problem r of
        Some msg \<Rightarrow> (Inl (400, msg), w)
      | None \<Rightarrow>
      case db_query (\<lambda>d. Some (getTransactionByEventID (null_text (tw_event_id r)) d)) w of
        (None, w1) \<Rightarrow> (Inl (500, ''Failed to check transaction idempotency''), w1)
      | (Some (Some t), w1) \<Rightarrow> (Inr (already_processed t), w1)
      | (Some None, w1) \<Rightarrow>
      case tx_begin w1 of
        (None, w2) \<Rightarrow> (Inl (500, ''Failed to start transaction''), w2)
      | (Some d, w2) \<Rightarrow>
      case transaction_body r d w2 of
        (Inl out, w3) \<Rightarrow> (out, w3)
      | (Inr (txid, d3), w3) \<Rightarrow>
      case tx_commit d3 w3 of
        (False, w4) \<Rightarrow> (Inl (500, ''Failed to commit transaction''), w4)
      | (True, w4) \<Rightarrow>
      case creditBalanceCache R (tw_user r) (tw_balance r) (tw_delta r) w4 of
        (res, w5) \<Rightarrow>
          (Inr \<lparr>pr_message = ''Transaction processed successfully'', pr_already = False, pr_id = txid,
                pr_status = ''completed'', pr_synced = (res = Inr ())\<rparr>, w5))"

section \<open>The tables after a transaction\<close>

text \<open>What a transaction does when nothing fails.\<close>

definition transaction_tx :: "transaction_request \<Rightarrow> db \<Rightarrow> (int \<times> db) option" where
  "transaction_tx r d =
     Option.bind (getUserByIDForUpdate (tw_user r) d) (\<lambda>u.
     let before = pool_before (tw_balance r) u in
     if wrap64 (before + tw_delta r) < 0 then None
     else
     Option.bind (update_pool (tw_balance r) (tw_user r) (tw_delta r) d) (\<lambda>d1.
     Option.bind (Some (createTransaction (transaction_of r before) d1)) (\<lambda>created.
     case created of
       Inl _ \<Rightarrow> None
     | Inr (txid, d2) \<Rightarrow>
         Option.bind (createBalanceLog (balance_log_of r before txid) d2) (\<lambda>d3. Some (txid, d3)))))"

lemma yields_lookup: "yields (\<lambda>w. case existing_transaction e w of (out, w1) \<Rightarrow> (Inl out, w1)) None"
proof (rule yieldsI)
  fix w r w'
  assume m: "(case existing_transaction e w of (out, w1) \<Rightarrow> (Inl out, w1)) = (r, w')"
  obtain b w1 where q: "db_query (getTransactionByEventID (null_text e)) w = (b, w1)" by fastforce
  have "w_redis_on w1 = w_redis_on w"
    using q by (auto simp: db_query_def db_call_def next_fault_eq split: fault.splits option.splits)
  with db_query_same [OF q] m q show "w_db w' = w_db w \<and> w_redis w' = w_redis w \<and> w_queue w' = w_queue w \<and>
      w_redis_on w' = w_redis_on w \<and> (\<forall>x. r = Inr x \<longrightarrow> None = Some x)"
    by (auto simp: existing_transaction_def split: option.splits)
qed (auto simp: existing_transaction_def split: option.splits)

lemma transaction_body_yields: "yields (transaction_body r d) (transaction_tx r d)"
  unfolding transaction_body_def transaction_tx_def Let_def
  by (intro yields_then yields_if yields_exit)
    (auto intro!: yields_then yields_return yields_exit yields_lookup split: sum.splits sql_error.splits prod.splits)

lemma transaction_tx_credit:
  "transaction_tx r d = Some (txid, d') \<Longrightarrow>
     credit_tx (tw_user r) (tw_balance r) (tw_delta r) (transaction_of r) (balance_log_of r) d = Some (txid, d') \<and>
     (\<forall>u. user_of d (tw_user r) = Some u \<longrightarrow> 0 \<le> wrap64 (pool_before (tw_balance r) u + tw_delta r))"
  by (auto simp: transaction_tx_def credit_tx_def getUserByIDForUpdate_def Let_def bind_eq_Some_conv split: if_splits)

lemma transaction_tx_effect:
  assumes "transaction_tx r d = Some (txid, d')"
  obtains u where "user_of d (tw_user r) = Some u"
    and "\<forall>j. user_of d' j = (if j = tw_user r then Some (with_pool (tw_balance r) (tw_delta r) u) else user_of d j)"
    and "transactions d' = transactions d @ [(transaction_of r (pool_before (tw_balance r) u))\<lparr>t_id := txid\<rparr>]"
    and "balance_logs d' = balance_logs d @ [balance_log_of r (pool_before (tw_balance r) u) txid]"
    and "tw_event_id r \<noteq> '''' \<longrightarrow> \<not> event_seen d (tw_event_id r)"
proof -
  from transaction_tx_credit [OF assms]
  have "credit_tx (tw_user r) (tw_balance r) (tw_delta r) (transaction_of r) (balance_log_of r) d = Some (txid, d')" ..
  then obtain u where u: "user_of d (tw_user r) = Some u" "update_pool (tw_balance r) (tw_user r) (tw_delta r) d \<noteq> None"
    "\<forall>j. user_of d' j = (if j = tw_user r then Some (with_pool (tw_balance r) (tw_delta r) u) else user_of d j)"
    "transactions d' = transactions d @ [(transaction_of r (pool_before (tw_balance r) u))\<lparr>t_id := txid\<rparr>]"
    "balance_logs d' = balance_logs d @ [balance_log_of r (pool_before (tw_balance r) u) txid]"
    and e: "\<forall>e. t_event (transaction_of r (pool_before (tw_balance r) u)) = Some e \<longrightarrow> e \<noteq> '''' \<longrightarrow> \<not> event_seen d e"
    by (rule credit_tx_effect)
  from e have "tw_event_id r \<noteq> '''' \<longrightarrow> \<not> event_seen d (tw_event_id r)"
    by (simp add: transaction_of_def null_text_def)
  from that [OF u(1,3-5) this] show thesis .
qed
definition transaction_effect :: "transaction_request \<Rightarrow> db \<Rightarrow> db" where
  "transaction_effect req d =
     (let r = normalizeTransactionRequest req in
      if transaction_problem r \<noteq> None then d
      else case transaction_tx r d of None \<Rightarrow> d | Some (_, d') \<Rightarrow> d')"

text \<open>Whatever fails, a delivery leaves the tables alone or does the whole transaction.\<close>

lemma body_exit: "transaction_body r d w = (Inl (Inr p), w') \<Longrightarrow> pr_already p"
  by (auto simp: transaction_body_def tx_then_def Let_def existing_transaction_def already_processed_def
      split: option.splits prod.splits sum.splits sql_error.splits if_splits)

lemma processTransaction_cases:
  fixes req
  defines "r \<equiv> normalizeTransactionRequest req"
  assumes "processTransaction R req w = (res, w')"
  shows "(w_db w' = w_db w \<and> (\<forall>p. res = Inr p \<longrightarrow> pr_already p)) \<or>
    (\<exists>txid. transaction_problem r = None \<and> transaction_tx r (w_db w) = Some (txid, w_db w'))"
proof (cases "transaction_problem r")
  case (Some msg)
  with assms show ?thesis by (auto simp: processTransaction_def Let_def)
next
  case None
  note r = None
  obtain a w1 where q: "db_query (\<lambda>d. Some (getTransactionByEventID (null_text (tw_event_id r)) d)) w = (a, w1)" by fastforce
  note q1 = db_query_same [OF q]
  show ?thesis
  proof (cases "a = Some None")
    case False
    with assms r q q1 show ?thesis
      by (auto simp: processTransaction_def Let_def already_processed_def split: option.splits)
  next
    case True
    obtain b w2 where b: "tx_begin w1 = (b, w2)" by fastforce
    note f2 = tx_begin_frame [OF b]
    show ?thesis
    proof (cases b)
      case None
      with assms r q q1 True b f2 show ?thesis by (auto simp: processTransaction_def Let_def)
    next
      case (Some d)
      then have d: "d = w_db w" using f2(6) q1 by simp
      obtain out w3 where t: "transaction_body r d w2 = (out, w3)" by fastforce
      note y = yieldsD [OF transaction_body_yields t]
      show ?thesis
      proof (cases out)
        case (Inl e)
        have "\<forall>p. e = Inr p \<longrightarrow> pr_already p" using body_exit t Inl by blast
        with assms r q q1 True b f2 Some t y Inl show ?thesis by (auto simp: processTransaction_def Let_def)
      next
        case (Inr x)
        obtain txid d3 where x: "x = (txid, d3)" by (cases x)
        obtain c w4 where c: "tx_commit d3 w3 = (c, w4)" by fastforce
        note f4 = tx_commit_frame [OF c]
        have tx: "transaction_tx r (w_db w) = Some (txid, d3)" using y(5) Inr x d by simp
        have out: "(res, w') = (if c then (case creditBalanceCache R (tw_user r) (tw_balance r) (tw_delta r) w4 of
            (res, w5) \<Rightarrow> (Inr \<lparr>pr_message = ''Transaction processed successfully'', pr_already = False, pr_id = txid,
                pr_status = ''completed'', pr_synced = (res = Inr ())\<rparr>, w5))
            else (Inl (500, ''Failed to commit transaction''), w4))"
          using assms r q True b Some t Inr x c by (cases c) (auto simp: processTransaction_def Let_def)
        have "w_db w' = w_db w4"
          using out credit_cache_db [of R "tw_user r" "tw_balance r" "tw_delta r" w4]
          by (cases "creditBalanceCache R (tw_user r) (tw_balance r) (tw_delta r) w4") (simp split: if_splits)
        then show ?thesis using out f4 tx r y(1) f2 q1 by (auto split: if_splits)
      qed
    qed
  qed
qed

section \<open>Redelivery\<close>

text \<open>
  The contract of a consumer of redelivered messages, of theory Worker, holds for the processor too: the
  key is the event id and the view are all tables.
\<close>

definition transaction_step :: "'r redis_api \<Rightarrow> transaction_request \<Rightarrow> 'r world \<Rightarrow> 'r world" where
  "transaction_step R req w = snd (processTransaction R req w)"

definition event_key :: "transaction_request \<Rightarrow> string option" where
  "event_key req = null_text (tw_event_id (normalizeTransactionRequest req))"

lemma transaction_step_db:
  "w_db (transaction_step R req w) = w_db w \<or>
   (\<exists>txid. transaction_problem (normalizeTransactionRequest req) = None \<and>
      transaction_tx (normalizeTransactionRequest req) (w_db w) = Some (txid, w_db (transaction_step R req w)))"
  using processTransaction_cases [of R req w] by (cases "processTransaction R req w") (auto simp: transaction_step_def)

lemma transaction_tx_event:
  assumes "transaction_tx r d = Some (txid, d')" "null_text (tw_event_id r) = Some k"
  shows "\<not> event_seen d k" "event_seen d' k" "event_seen d j \<Longrightarrow> event_seen d' j"
proof -
  have k: "tw_event_id r = k" "k \<noteq> ''''" using assms(2) by (auto simp: null_text_Some)
  have e: "t_event (transaction_of r b) = Some k" for b using k by (simp add: transaction_of_def null_text_def)
  from assms(1) obtain b where "transactions d' = transactions d @ [(transaction_of r b)\<lparr>t_id := txid\<rparr>]"
    "\<not> event_seen d (tw_event_id r)"
    using k by (auto elim: transaction_tx_effect)
  then show "\<not> event_seen d k" "event_seen d' k" "event_seen d j \<Longrightarrow> event_seen d' j"
    using k e by (simp_all add: event_seen_def)
qed

lemma transaction_tx_keeps: "transaction_tx r d = Some (txid, d') \<Longrightarrow> event_seen d j \<Longrightarrow> event_seen d' j"
  by (auto simp: event_seen_def elim!: transaction_tx_effect)

interpretation webhook: idempotent_consumer "transaction_step R" w_db event_key event_seen transaction_effect
  for R :: "'r redis_api"
proof
  fix req :: transaction_request and k and w :: "'r world"
  assume k: "event_key req = Some k"
  let ?r = "normalizeTransactionRequest req"
  show "event_seen (w_db w) k \<Longrightarrow> w_db (transaction_step R req w) = w_db w"
    using transaction_step_db [of R req w] transaction_tx_event(1) [of ?r] k by (auto simp: event_key_def)
  show "w_db (transaction_step R req w) = w_db w \<or>
      w_db (transaction_step R req w) = transaction_effect req (w_db w) \<and> event_seen (w_db (transaction_step R req w)) k"
    using transaction_step_db [of R req w] transaction_tx_event(2) [of ?r] k
    by (auto simp: event_key_def transaction_effect_def)
next
  show "event_seen (transaction_effect req v) k" if "event_seen v k" for v k and req :: transaction_request
    using that transaction_tx_keeps by (auto simp: transaction_effect_def Let_def split: option.splits)
qed

text \<open>
  C37. A payment is credited once. However often transactions of the shop are delivered, in whatever order
  and whatever fails on the way, the tables end up as if some of them had been applied once each: no event id
  is applied twice and none that was applied before is applied again.
\<close>

theorem payment_redelivery:
  assumes "\<forall>req \<in> set reqs. event_key req \<noteq> None"
  shows "\<exists>reqs'. subseq reqs' reqs \<and> distinct (map event_key reqs') \<and>
    w_db (fold (\<lambda>req w. snd (processTransaction R req w)) reqs w) = fold transaction_effect reqs' (w_db w) \<and>
    (\<forall>req \<in> set reqs'. \<not> event_seen (w_db w) (the (event_key req)))"
proof -
  have f: "fold (\<lambda>req w. snd (processTransaction R req w)) reqs w = fold (transaction_step R) reqs w"
    by (simp add: transaction_step_def [abs_def])
  show ?thesis unfolding f using webhook.at_most_once [of reqs R w] assms by blast
qed

definition witness_payment :: "string \<Rightarrow> transaction_request" where
  "witness_payment direction = \<lparr>tw_source = '''', tw_event = ''order.paid'', tw_event_id = ''e1'', tw_user = 7,
     tw_type = ''Topup'', tw_balance = ''cash'', tw_direction = direction, tw_amount = F64 3 (- 1),
     tw_source_id = ''o1'', tw_remark = '''', tw_metadata = None\<rparr>"

lemma witness_payment_normal:
  "event_key (witness_payment direction) = Some ''e1''"
  by (simp add: event_key_def normalizeTransactionRequest_def Let_def witness_payment_def null_text_def) code_simp

theorem payment_redelivery_witness:
  "\<exists>reqs'. subseq reqs' [witness_payment ''credit'', witness_payment ''credit''] \<and> distinct (map event_key reqs') \<and>
    w_db (fold (\<lambda>req w. snd (processTransaction mem_redis req w)) [witness_payment ''credit'', witness_payment ''credit'']
      (witness_world [] (witness_db (30, 20, 100)) [Refused])) = fold transaction_effect reqs' (witness_db (30, 20, 100))"
  using payment_redelivery [of "[witness_payment ''credit'', witness_payment ''credit'']" mem_redis
      "witness_world [] (witness_db (30, 20, 100)) [Refused]"] witness_payment_normal
  by (auto simp del: fold.simps)

section \<open>What is credited\<close>

lemma transaction_tx_pool:
  assumes "transaction_tx r d = Some (txid, d')" "user_of d (tw_user r) = Some u" "pool_of (tw_balance r) u = Some v"
  shows "in_i64 (v + tw_delta r)" "0 \<le> v + tw_delta r"
proof -
  note c = transaction_tx_credit [OF assms(1)]
  show i: "in_i64 (v + tw_delta r)" using credit_tx_range [OF conjunct1 [OF c] assms(2,3)] .
  show "0 \<le> v + tw_delta r" using c assms(2) pool_before_Some [OF assms(3)] i by simp
qed
lemma valid_balance: "transaction_problem r = None \<Longrightarrow> tw_balance r = ''grant'' \<or> tw_balance r = ''cash''"
  by (auto simp: transaction_problem_def split: if_splits)

lemma valid_amount: "transaction_problem r = None \<Longrightarrow> 0 < moneyToScaledInt (tw_amount r) \<and> in_i64 (tw_delta r)"
  by (auto simp: transaction_problem_def tw_delta_def moneyToScaledInt_def to_int64_def in_i64_def wrap64_def Let_def
      split: if_splits)

lemma processTransaction_fine:
  fixes req
  defines "r \<equiv> normalizeTransactionRequest req"
  assumes "w_faults w = []" "processTransaction R req w = (Inr p, w')" "\<not> pr_already p"
  shows "\<exists>txid d. transaction_problem r = None \<and> transaction_tx r (w_db w) = Some (txid, d) \<and>
    (\<exists>res. creditBalanceCache R (tw_user r) (tw_balance r) (tw_delta r) (w\<lparr>w_db := d\<rparr>) = (res, w') \<and>
       pr_synced p = (res = Inr ()))"
proof -
  have r: "transaction_problem r = None"
    using assms by (auto simp: processTransaction_def Let_def split: option.splits)
  have e: "getTransactionByEventID (null_text (tw_event_id r)) (w_db w) = None"
    using assms r by (auto simp: processTransaction_def Let_def already_processed_def split: option.splits)
  obtain out w3 where b: "transaction_body r (w_db w) w = (out, w3)" by fastforce
  then have "w3 = w" using transaction_body_yields [of r "w_db w"] assms(2) unfolding yields_def by blast
  have eq: "processTransaction R req w = (case out of Inl e \<Rightarrow> (e, w)
      | Inr (txid, d3) \<Rightarrow> (case creditBalanceCache R (tw_user r) (tw_balance r) (tw_delta r) (w\<lparr>w_db := d3\<rparr>) of
          (res, w5) \<Rightarrow> (Inr \<lparr>pr_message = ''Transaction processed successfully'', pr_already = False, pr_id = txid,
                pr_status = ''completed'', pr_synced = (res = Inr ())\<rparr>, w5)))"
    using r e b \<open>w3 = w\<close> assms(1,2) by (simp add: processTransaction_def Let_def split: sum.splits prod.splits)
  show ?thesis
  proof (cases out)
    case (Inl x)
    then have "x = Inr p" using eq assms(3) by simp
    with body_exit [of r "w_db w" w p w3] b Inl assms(4) show ?thesis by simp
  next
    case (Inr x)
    then have "transaction_tx r (w_db w) = Some x" using yieldsD(5) [OF transaction_body_yields b] by simp
    with eq Inr r assms(3) show ?thesis by (cases x) (auto split: prod.splits)
  qed
qed

text \<open>A payment that meets no fault: the transaction is committed and the cached pool moves.\<close>

lemma payment_applied:
  fixes req
  defines "r \<equiv> normalizeTransactionRequest req"
  assumes "redis_server R" "w_faults w = []" "w_redis_on w" "processTransaction R req w = (Inr p, w')" "\<not> pr_already p"
    and "holds R (w_redis w) (pool_key (tw_balance r) (tw_user r)) c" "in_i64 c" "in_i64 (c + tw_delta r)"
  obtains txid d r' where "transaction_problem r = None" "transaction_tx r (w_db w) = Some (txid, d)"
    and "w' = w\<lparr>w_db := d, w_redis := r'\<rparr>" "pr_synced p"
    and "\<And>k. rd_get R r' k = (if k = pool_key (tw_balance r) (tw_user r) then Some (show_int (c + tw_delta r))
       else rd_get R (w_redis w) k)"
proof -
  obtain txid d res where s: "transaction_problem r = None" "transaction_tx r (w_db w) = Some (txid, d)"
    and c: "creditBalanceCache R (tw_user r) (tw_balance r) (tw_delta r) (w\<lparr>w_db := d\<rparr>) = (res, w')" "pr_synced p = (res = Inr ())"
    using processTransaction_fine [OF assms(3,5,6)] unfolding r_def by blast
  obtain r' where r': "creditBalanceCache R (tw_user r) (tw_balance r) (tw_delta r) (w\<lparr>w_db := d\<rparr>) =
      (Inr (), w\<lparr>w_db := d, w_redis := r'\<rparr>)"
    "\<And>k. rd_get R r' k = (if k = pool_key (tw_balance r) (tw_user r) then Some (show_int (c + tw_delta r))
       else rd_get R (w_redis (w\<lparr>w_db := d\<rparr>)) k)"
    by (rule redis_server.credit_cache_exact [OF assms(2), of "w\<lparr>w_db := d\<rparr>" "tw_balance r" "tw_user r" c "tw_delta r"])
      (use assms(3,4,7-9) valid_amount [OF s(1)] valid_balance [OF s(1)] in simp_all)
  with s c show thesis by (intro that [of txid d r']) auto
qed

lemma signed_amount:
  assumes "transaction_problem r = None"
  shows "\<bar>tw_delta r\<bar> = moneyToScaledInt (tw_amount r)" "0 < tw_delta r \<longleftrightarrow> tw_direction r = ''credit''"
  using assms valid_amount [OF assms]
  by (auto simp: transaction_problem_def tw_delta_def moneyToScaledInt_def to_int64_def in_i64_def wrap64_def Let_def
      split: if_splits)

text \<open>
  C38. A payment changes the table and the cache by the same amount. When a transaction is processed and
  nothing fails, the user's pool in the table has moved by exactly the scaled amount, up for a credit and
  down for a debit, and is not negative; a cached pool has moved by the same amount and no other key has
  changed; other users' rows stay; and one transaction and one line of the balance log carry the amounts
  before and after.
\<close>

theorem payment_credits_exactly:
  assumes "redis_server R" "w_faults w = []" "w_redis_on w"
    and "processTransaction R req w = (Inr p, w')" "\<not> pr_already p" "r = normalizeTransactionRequest req"
    and "user_of (w_db w) (tw_user r) = Some u" "pool_of (tw_balance r) u = Some v"
    and "holds R (w_redis w) (pool_key (tw_balance r) (tw_user r)) c" "in_i64 c" "in_i64 (c + tw_delta r)"
  shows "\<bar>tw_delta r\<bar> = moneyToScaledInt (tw_amount r) \<and> 0 < moneyToScaledInt (tw_amount r) \<and>
    (0 < tw_delta r \<longleftrightarrow> tw_direction r = ''credit'') \<and> 0 \<le> v + tw_delta r \<and> pr_synced p \<and>
    (\<exists>u'. user_of (w_db w') (tw_user r) = Some u' \<and> pool_of (tw_balance r) u' = Some (v + tw_delta r)) \<and>
    (\<forall>j. j \<noteq> tw_user r \<longrightarrow> user_of (w_db w') j = user_of (w_db w) j) \<and>
    (\<forall>k. rd_get R (w_redis w') k =
       (if k = pool_key (tw_balance r) (tw_user r) then Some (show_int (c + tw_delta r)) else rd_get R (w_redis w) k)) \<and>
    (\<exists>t b. transactions (w_db w') = transactions (w_db w) @ [t] \<and> balance_logs (w_db w') = balance_logs (w_db w) @ [b] \<and>
       t_before t = v \<and> t_after t = v + tw_delta r \<and> b_before b = v \<and> b_after b = v + tw_delta r \<and>
       t_amount t = moneyToScaledInt (tw_amount r) \<and> b_amount b = moneyToScaledInt (tw_amount r))"
proof -
  obtain txid d r' where s: "transaction_problem r = None" "transaction_tx r (w_db w) = Some (txid, d)"
    and w': "w' = w\<lparr>w_db := d, w_redis := r'\<rparr>" "pr_synced p"
    and r': "\<And>k. rd_get R r' k = (if k = pool_key (tw_balance r) (tw_user r) then Some (show_int (c + tw_delta r))
       else rd_get R (w_redis w) k)"
    using payment_applied [OF assms(1-5), folded assms(6), OF assms(9-11)] by metis
  note v = valid_amount [OF s(1)] and pool = transaction_tx_pool [OF s(2) assms(7,8)]
  from s(2) obtain u1 where u1: "user_of (w_db w) (tw_user r) = Some u1"
    and rows: "\<forall>j. user_of d j = (if j = tw_user r then Some (with_pool (tw_balance r) (tw_delta r) u1) else user_of (w_db w) j)"
    and logs: "transactions d = transactions (w_db w) @ [(transaction_of r (pool_before (tw_balance r) u1))\<lparr>t_id := txid\<rparr>]"
      "balance_logs d = balance_logs (w_db w) @ [balance_log_of r (pool_before (tw_balance r) u1) txid]"
    and "tw_event_id r \<noteq> '''' \<longrightarrow> \<not> event_seen (w_db w) (tw_event_id r)"
    by (rule transaction_tx_effect)
  have b: "u1 = u" "pool_before (tw_balance r) u1 = v" using u1 assms(7) pool_before_Some [OF assms(8)] by simp_all
  have after: "wrap64 (v + tw_delta r) = v + tw_delta r" using pool(1) by simp
  have pools: "\<exists>u'. user_of (w_db w') (tw_user r) = Some u' \<and> pool_of (tw_balance r) u' = Some (v + tw_delta r)"
    "\<forall>j. j \<noteq> tw_user r \<longrightarrow> user_of (w_db w') j = user_of (w_db w) j"
    using rows w'(1) b(1) assms(8) by (simp_all add: null_add_def)
  have lines: "\<exists>t b. transactions (w_db w') = transactions (w_db w) @ [t] \<and> balance_logs (w_db w') = balance_logs (w_db w) @ [b] \<and>
       t_before t = v \<and> t_after t = v + tw_delta r \<and> b_before b = v \<and> b_after b = v + tw_delta r \<and>
       t_amount t = moneyToScaledInt (tw_amount r) \<and> b_amount b = moneyToScaledInt (tw_amount r)"
    using logs w'(1) b(2) after by (simp add: transaction_of_def balance_log_of_def)
  have "\<forall>k. rd_get R (w_redis w') k = (if k = pool_key (tw_balance r) (tw_user r) then Some (show_int (c + tw_delta r))
       else rd_get R (w_redis w) k)"
    using r' w'(1) by simp
  with v pool(2) w'(2) pools lines show ?thesis by (simp add: signed_amount [OF s(1)])
qed

lemma witness_amount: "moneyToScaledInt (F64 3 (- 1)) = 150000000"
  by (simp add: moneyToScaledInt_def f64_of_int_def in_i64_def)

lemma witness_normalized:
  "normalizeTransactionRequest (witness_payment ''credit'') = \<lparr>tw_source = ''apayshop'', tw_event = ''order.paid'',
     tw_event_id = ''e1'', tw_user = 7, tw_type = ''topup'', tw_balance = ''cash'', tw_direction = ''credit'',
     tw_amount = F64 3 (- 1), tw_source_id = ''o1'', tw_remark = ''apayshop:order.paid'', tw_metadata = None\<rparr>"
  by code_simp

theorem payment_credits_exactly_witness:
  "\<exists>p w'. processTransaction mem_redis (witness_payment ''credit'')
      (witness_world (cached 7 (30, 20, 100)) (witness_db (30, 20, 100)) []) = (Inr p, w') \<and>
    (\<exists>u'. user_of (w_db w') 7 = Some u' \<and> u_cash u' = Some 150000100) \<and>
    rd_get mem_redis (w_redis w') (cashBalanceKey 7) = Some (show_int 150000100)"
proof -
  let ?w = "witness_world (cached 7 (30, 20, 100)) (witness_db (30, 20, 100)) []"
  let ?r = "normalizeTransactionRequest (witness_payment ''credit'')"
  have d: "tw_delta ?r = 150000000" by (simp add: tw_delta_def witness_normalized witness_amount)
  have u: "user_of (w_db ?w) (tw_user ?r) = Some (witness_user 7 (30, 20, 100))"
    "pool_of (tw_balance ?r) (witness_user 7 (30, 20, 100)) = Some 100"
    by (simp_all add: witness_normalized pool_of_def witness_user_def)
  have h: "holds mem_redis (w_redis ?w) (pool_key (tw_balance ?r) (tw_user ?r)) 100"
    by (simp add: witness_normalized pool_key_def holds_def cached_def subBalanceKey_def grantBalanceKey_def cashBalanceKey_def)
  have "\<exists>p w'. processTransaction mem_redis (witness_payment ''credit'') ?w = (Inr p, w') \<and> \<not> pr_already p"
    by (simp add: processTransaction_def Let_def witness_normalized transaction_problem_def f64_pos_def f64_le0_def witness_amount
        getTransactionByEventID_def null_text_def witness_db_def empty_db_def transaction_body_def tx_then_def
        getUserByIDForUpdate_def user_of_def witness_user_def pool_before_def tw_delta_def update_pool_def
        updateUserTopupBalance_def sql_add_null_def sql_add_def in_i64_def createTransaction_def transaction_of_def
        fits_def normalizeMetadata_def fk_user_def createBalanceLog_def balance_log_of_def or_default_def
        split: prod.splits)
  then obtain p w' where p: "processTransaction mem_redis (witness_payment ''credit'') ?w = (Inr p, w')" "\<not> pr_already p"
    by blast
  have "(\<exists>u'. user_of (w_db w') (tw_user ?r) = Some u' \<and> pool_of (tw_balance ?r) u' = Some (100 + tw_delta ?r)) \<and>
      (\<forall>k. rd_get mem_redis (w_redis w') k = (if k = pool_key (tw_balance ?r) (tw_user ?r)
         then Some (show_int (100 + tw_delta ?r)) else rd_get mem_redis (w_redis ?w) k))"
    using payment_credits_exactly [OF mem.redis_server_axioms _ _ p refl u h] d by (simp add: in_i64_def)
  then show ?thesis using p d by (simp add: witness_normalized pool_of_def pool_key_def)
qed

section \<open>Decoding of events\<close>

text \<open>
  A raw field keeps the last value as it is, a null included. A struct inside a struct merges the members of
  every occurrence; a null leaves it as it is, and sets a pointer to nil.
\<close>

definition raw_field :: "(string \<times> json) list \<Rightarrow> string \<Rightarrow> json option" where
  "raw_field kvs k = (if matching kvs k = [] then None else Some (last (matching kvs k)))"

fun merge_struct :: "json list \<Rightarrow> (string \<times> json) list option" where
  "merge_struct [] = Some []"
| "merge_struct (JObj kvs # vs) = map_option ((@) kvs) (merge_struct vs)"
| "merge_struct (JNull # vs) = merge_struct vs"
| "merge_struct (_ # vs) = None"

definition struct_field :: "(string \<times> json) list \<Rightarrow> string \<Rightarrow> (string \<times> json) list option" where
  "struct_field kvs k = merge_struct (matching kvs k)"

definition struct_ptr_field :: "(string \<times> json) list \<Rightarrow> string \<Rightarrow> (string \<times> json) list option option" where
  "struct_ptr_field kvs k = (if merge_struct (matching kvs k) = None then None
     else let vs = rev (takeWhile (\<lambda>v. v \<noteq> JNull) (rev (matching kvs k))) in
          Some (if vs = [] then None else merge_struct vs))"

fun json_i32 :: "json \<Rightarrow> int option" where
  "json_i32 j = (case json_int j of Some n \<Rightarrow> if in_i32 n then Some n else None | None \<Rightarrow> None)"

definition i32_field :: "(string \<times> json) list \<Rightarrow> string \<Rightarrow> int option" where
  "i32_field kvs k = read_into json_i32 0 (matching kvs k)"

definition float_field :: "(string \<times> json) list \<Rightarrow> string \<Rightarrow> f64 option" where
  "float_field kvs k = read_into json_float (F64 0 0) (matching kvs k)"

record event_envelope =
  ev_event :: string
  ev_timestamp :: string
  ev_data :: "json option"

definition decode_envelope :: "raw_bytes \<Rightarrow> event_envelope option" where
  "decode_envelope body =
     (case struct_members body of None \<Rightarrow> None | Some kvs \<Rightarrow>
      case (str_field kvs ''event'', str_field kvs ''timestamp'') of
        (Some e, Some t) \<Rightarrow> Some \<lparr>ev_event = e, ev_timestamp = t, ev_data = raw_field kvs ''data''\<rparr>
      | _ \<Rightarrow> None)"

record order_product =
  op_id :: int
  op_slug :: string
  op_name :: string
  op_type :: string
  op_price :: f64
  op_meta :: "json option"

record order_integration =
  oi_enabled :: "bool option"
  oi_type :: string
  oi_balance :: string
  oi_direction :: string
  oi_amount :: f64
  oi_source_id :: string
  oi_remark :: string
  oi_metadata :: "json option"

record order_data =
  od_id :: string
  od_amount :: f64
  od_user :: int
  od_email :: string
  od_meta :: "json option"
  od_product :: order_product
  od_transaction :: "order_integration option"

definition decode_product :: "(string \<times> json) list \<Rightarrow> order_product option" where
  "decode_product kvs =
     (case (i32_field kvs ''id'', str_field kvs ''slug'', str_field kvs ''name'', str_field kvs ''type'',
            float_field kvs ''price'') of
        (Some i, Some s, Some n, Some t, Some p) \<Rightarrow>
          Some \<lparr>op_id = i, op_slug = s, op_name = n, op_type = t, op_price = p, op_meta = raw_field kvs ''metaData''\<rparr>
      | _ \<Rightarrow> None)"

definition decode_integration :: "(string \<times> json) list \<Rightarrow> order_integration option" where
  "decode_integration kvs =
     (case (ptr_field json_bool kvs ''enabled'', str_field kvs ''type'', str_field kvs ''balanceType'',
            str_field kvs ''direction'', float_field kvs ''amount'', str_field kvs ''sourceId'', str_field kvs ''remark'') of
        (Some e, Some t, Some b, Some d, Some a, Some s, Some r) \<Rightarrow>
          Some \<lparr>oi_enabled = e, oi_type = t, oi_balance = b, oi_direction = d, oi_amount = a, oi_source_id = s,
                oi_remark = r, oi_metadata = raw_field kvs ''metadata''\<rparr>
      | _ \<Rightarrow> None)"

text \<open>The members of a payload; no payload at all is an error, a null an empty one.\<close>

definition payload_members :: "json option \<Rightarrow> (string \<times> json) list option" where
  "payload_members raw = (case raw of None \<Rightarrow> None | Some j \<Rightarrow> struct_members (JsonBytes j))"

definition decode_transaction :: "(string \<times> json) list \<Rightarrow> order_integration option option" where
  "decode_transaction kvs =
     (case struct_field kvs ''integration'' of
        None \<Rightarrow> None
      | Some ikvs \<Rightarrow>
          (case struct_ptr_field ikvs ''transaction'' of
             None \<Rightarrow> None
           | Some None \<Rightarrow> Some None
           | Some (Some tkvs) \<Rightarrow> map_option Some (decode_integration tkvs)))"

definition decode_order :: "json option \<Rightarrow> order_data option" where
  "decode_order raw =
     (case payload_members raw of None \<Rightarrow> None | Some kvs \<Rightarrow>
      case (str_field kvs ''id'', float_field kvs ''amount'', i32_field kvs ''userId'', str_field kvs ''contactEmail'',
            Option.bind (struct_field kvs ''product'') decode_product, decode_transaction kvs) of
        (Some i, Some a, Some u, Some c, Some p, Some t) \<Rightarrow>
          Some \<lparr>od_id = i, od_amount = a, od_user = u, od_email = c, od_meta = raw_field kvs ''metaData'',
                od_product = p, od_transaction = t\<rparr>
      | _ \<Rightarrow> None)"

section \<open>From an order to a transaction\<close>

text \<open>A number that is too large for a float64 makes the decoding fail.\<close>

fun json_finite :: "json \<Rightarrow> bool" where
  "json_finite (JNum d e) = dec_finite d e"
| "json_finite (JList xs) = list_all json_finite xs"
| "json_finite (JObj kvs) = list_all (\<lambda>(k, v). json_finite v) kvs"
| "json_finite _ = True"

definition rawJSONToMap :: "json option \<Rightarrow> (string \<times> json) list" where
  "rawJSONToMap raw = (case raw of
      Some (JObj kvs) \<Rightarrow> if json_finite (JObj kvs) then map (\<lambda>(k, v). (k, any_value v)) kvs else []
    | _ \<Rightarrow> [])"

definition rawJSONOrNil :: "json option \<Rightarrow> json" where
  "rawJSONOrNil raw = (case raw of None \<Rightarrow> JNull | Some j \<Rightarrow> if json_finite j then any_value j else JNull)"

definition valueFromMap :: "(string \<times> json) list \<Rightarrow> string \<Rightarrow> string" where
  "valueFromMap m k = trim_space (or_empty (as_string (obj_get m k)))"

definition numberFromMap :: "(string \<times> json) list \<Rightarrow> string \<Rightarrow> f64" where
  "numberFromMap m k = (case obj_get m k of Some (JNum d e) \<Rightarrow> dec_f64 d e | _ \<Rightarrow> F64 0 0)"

definition hasPlanIDs :: "(string \<times> json) list \<Rightarrow> bool" where
  "hasPlanIDs m = (case obj_get m ''plan_ids'' of Some (JList xs) \<Rightarrow> xs \<noteq> [] | _ \<Rightarrow> False)"

fun firstNonEmpty :: "string list \<Rightarrow> string" where
  "firstNonEmpty [] = ''''"
| "firstNonEmpty (v # vs) = (if trim_space v \<noteq> '''' then v else firstNonEmpty vs)"

fun firstPositive :: "f64 list \<Rightarrow> f64" where
  "firstPositive [] = F64 0 0"
| "firstPositive (v # vs) = (if f64_pos v then v else firstPositive vs)"

definition buildEventMetadata :: "event_envelope \<Rightarrow> order_data \<Rightarrow> json" where
  "buildEventMetadata ev d =
     (let p = od_product d in
      JObj [(''event'', JStr (ev_event ev)),
        (''order'', JObj [(''amount'', f64_json (od_amount d)), (''contactEmail'', JStr (od_email d)), (''id'', JStr (od_id d)),
           (''metaData'', rawJSONOrNil (od_meta d)), (''userId'', JNum (od_user d) 0)]),
        (''product'', JObj [(''id'', JNum (op_id p) 0), (''metaData'', rawJSONOrNil (op_meta p)), (''name'', JStr (op_name p)),
           (''price'', f64_json (op_price p)), (''slug'', JStr (op_slug p)), (''type'', JStr (op_type p))]),
        (''timestamp'', JStr (ev_timestamp ev))])"

definition lower_trim :: "string \<Rightarrow> string" where
  "lower_trim s = trim_space (to_lower s)"

text \<open>What the order's own metadata and its product's say, without an integration.\<close>

definition meta_balance :: "order_data \<Rightarrow> string" where
  "meta_balance d = lower_trim (firstNonEmpty [valueFromMap (rawJSONToMap (od_meta d)) ''balance_type'',
     valueFromMap (rawJSONToMap (op_meta (od_product d))) ''balance_type''])"

definition order_amount :: "order_data \<Rightarrow> f64" where
  "order_amount d =
     (let fallback = firstPositive [numberFromMap (rawJSONToMap (od_meta d)) ''recharge_amount'',
            numberFromMap (rawJSONToMap (op_meta (od_product d))) ''recharge_amount'', od_amount d] in
      case od_transaction d of
        Some c \<Rightarrow> if f64_pos (oi_amount c) then oi_amount c else fallback
      | None \<Rightarrow> fallback)"

definition order_plans :: "order_data \<Rightarrow> bool" where
  "order_plans d \<longleftrightarrow> hasPlanIDs (rawJSONToMap (od_meta d)) \<or> hasPlanIDs (rawJSONToMap (op_meta (od_product d))) \<or>
     op_type (od_product d) = ''subscription''"

definition order_balance :: "order_data \<Rightarrow> string" where
  "order_balance d = (case od_transaction d of
      None \<Rightarrow> meta_balance d
    | Some c \<Rightarrow> lower_trim (firstNonEmpty [oi_balance c, meta_balance d]))"

definition order_type :: "order_data \<Rightarrow> string" where
  "order_type d =
     (let t = (case od_transaction d of None \<Rightarrow> '''' | Some c \<Rightarrow> lower_trim (oi_type c)) in
      if t \<noteq> '''' then t
      else if order_plans d then ''grant_issue''
      else if order_balance d \<noteq> '''' then ''topup''
      else '''')"

definition final_balance :: "order_data \<Rightarrow> string" where
  "final_balance d =
     (if order_balance d \<noteq> '''' then order_balance d
      else if order_type d = ''grant_issue'' \<or> order_plans d then ''grant''
      else if order_type d = ''topup'' then ''cash''
      else '''')"

text \<open>The reason for ignoring an order, or the request. An integration that is not switched off counts as explicit.\<close>

definition buildTransactionRequestFromOrderPaid ::
  "event_envelope \<Rightarrow> order_data \<Rightarrow> string + transaction_request" where
  "buildTransactionRequestFromOrderPaid ev d =
     (if od_id d = '''' then Inl ''Missing order ID''
      else if od_user d \<le> 0 then Inl ''Order has no linked user, event ignored''
      else if (case od_transaction d of Some c \<Rightarrow> oi_enabled c = Some False | None \<Rightarrow> False)
      then Inl ''Transaction integration disabled''
      else
        let direction = (case od_transaction d of None \<Rightarrow> ''credit''
              | Some c \<Rightarrow> lower_trim (firstNonEmpty [oi_direction c, ''credit'']));
            sourceID = (case od_transaction d of None \<Rightarrow> od_id d | Some c \<Rightarrow> firstNonEmpty [oi_source_id c, od_id d]);
            default_remark = ''APayShop order paid: '' @ od_id d;
            remark = (case od_transaction d of None \<Rightarrow> default_remark
              | Some c \<Rightarrow> firstNonEmpty [trim_space (oi_remark c), default_remark]);
            metadata = (case od_transaction d of
                Some c \<Rightarrow> (if oi_metadata c = None \<or> oi_metadata c = Some JNull then buildEventMetadata ev d
                           else the (oi_metadata c))
              | None \<Rightarrow> buildEventMetadata ev d)
        in
        if od_transaction d = None \<and> order_type d = '''' \<and> final_balance d = ''''
        then Inl ''No transaction mapping found in event payload''
        else if \<not> f64_pos (order_amount d) then Inl ''Transaction amount is missing or invalid''
        else Inr \<lparr>tw_source = ''apayshop'', tw_event = ev_event ev,
               tw_event_id = ''apayshop:'' @ ev_event ev @ '':'' @ od_id d, tw_user = od_user d, tw_type = order_type d,
               tw_balance = final_balance d, tw_direction = firstNonEmpty [direction, ''credit''],
               tw_amount = order_amount d, tw_source_id = sourceID, tw_remark = remark, tw_metadata = Some metadata\<rparr>)"

section \<open>Instants\<close>

text \<open>
  \<open>time.Parse\<close> with the layout RFC3339: the hour may have one digit, a fraction of the second may follow
  with a point or a comma (nine digits of it count), and an offset may be up to 24 hours and 60 minutes.
\<close>

definition two_digits :: "string \<Rightarrow> (int \<times> string) option" where
  "two_digits s = (case s of
      a # b # t \<Rightarrow> (case (digit_val a, digit_val b) of (Some x, Some y) \<Rightarrow> Some (int (10 * x + y), t) | _ \<Rightarrow> None)
    | _ \<Rightarrow> None)"

definition one_or_two_digits :: "string \<Rightarrow> (int \<times> string) option" where
  "one_or_two_digits s = (case two_digits s of
      Some r \<Rightarrow> Some r
    | None \<Rightarrow> (case s of a # t \<Rightarrow> map_option (\<lambda>x. (int x, t)) (digit_val a) | [] \<Rightarrow> None))"

definition literal_char :: "char \<Rightarrow> string \<Rightarrow> string option" where
  "literal_char c s = (if starts c s then Some (tl s) else None)"

definition parse_year :: "string \<Rightarrow> (int \<times> string) option" where
  "parse_year s = Option.bind (two_digits s) (\<lambda>(a, t). map_option (\<lambda>(b, r). (100 * a + b, r)) (two_digits t))"

definition parse_nanos :: "string \<Rightarrow> int \<times> string" where
  "parse_nanos s = (case s of
      c # t \<Rightarrow>
        if (c = CHR ''.'' \<or> c = CHR '','') \<and> takeWhile is_digit t \<noteq> [] then
          (let ds = take 9 (takeWhile is_digit t) in
           (foldl (\<lambda>n c. 10 * n + (case digit_val c of None \<Rightarrow> 0 | Some x \<Rightarrow> int x)) 0
              (ds @ replicate (9 - length ds) (CHR ''0'')), dropWhile is_digit t))
        else (0, s)
    | [] \<Rightarrow> (0, []))"

text \<open>The offset from UTC in seconds; nothing may follow.\<close>

definition parse_zone :: "string \<Rightarrow> int option" where
  "parse_zone s =
     (if s = ''Z'' then Some 0
      else case s of
        c # t \<Rightarrow>
          if c \<noteq> CHR ''+'' \<and> c \<noteq> CHR ''-'' then None
          else Option.bind (two_digits t) (\<lambda>(h, t1). Option.bind (literal_char (CHR '':'') t1) (\<lambda>t2.
               Option.bind (two_digits t2) (\<lambda>(m, t3).
               if t3 \<noteq> [] \<or> h > 24 \<or> m > 60 then None
               else Some ((if c = CHR ''-'' then - 1 else 1) * (h * 3600 + m * 60)))))
      | [] \<Rightarrow> None)"

definition leaps :: "int \<Rightarrow> int" where
  "leaps y = y div 4 - y div 100 + y div 400"

definition day_number :: "int \<Rightarrow> int \<Rightarrow> int \<Rightarrow> int" where
  "day_number y m d = 365 * (y - 1970) + leaps (y - 1) - leaps 1969 +
     sum_list (map (\<lambda>k. days_in y (int k)) [1..<nat m]) + (d - 1)"

definition parse_rfc3339 :: "string \<Rightarrow> int option" where
  "parse_rfc3339 s =
     Option.bind (parse_year s) (\<lambda>(y, s). Option.bind (literal_char (CHR ''-'') s) (\<lambda>s.
     Option.bind (two_digits s) (\<lambda>(mo, s). Option.bind (literal_char (CHR ''-'') s) (\<lambda>s.
     Option.bind (two_digits s) (\<lambda>(d, s). Option.bind (literal_char (CHR ''T'') s) (\<lambda>s.
     Option.bind (one_or_two_digits s) (\<lambda>(h, s). Option.bind (literal_char (CHR '':'') s) (\<lambda>s.
     Option.bind (two_digits s) (\<lambda>(mi, s). Option.bind (literal_char (CHR '':'') s) (\<lambda>s.
     Option.bind (two_digits s) (\<lambda>(se, s).
     let (ns, s) = parse_nanos s in
     Option.bind (parse_zone s) (\<lambda>z.
     if mo < 1 \<or> 12 < mo \<or> d < 1 \<or> days_in y mo < d \<or> 24 \<le> h \<or> 60 \<le> mi \<or> 60 \<le> se then None
     else Some ((day_number y mo d * 86400 + h * 3600 + mi * 60 + se - z) * 1000000000 + ns)))))))))))))"

lemma rfc3339_examples:
  "parse_rfc3339 ''1970-01-01T00:00:00Z'' = Some 0"
  "parse_rfc3339 ''2024-03-01T8:00:00.5+08:00'' = Some 1709251200500000000"
  "parse_rfc3339 ''2023-02-29T00:00:00Z'' = None"
  by code_simp+

section \<open>The handlers\<close>

definition error_response :: "int \<Rightarrow> string \<Rightarrow> response" where
  "error_response status message = writeJSON status (JObj [(''error'', JStr message)])"

fun unhex :: "string \<Rightarrow> string option" where
  "unhex [] = Some []"
| "unhex [_] = None"
| "unhex (a # b # s) = (case (hex_val a, hex_val b) of
      (Some x, Some y) \<Rightarrow> map_option ((#) (char_of (16 * x + y))) (unhex s)
    | _ \<Rightarrow> None)"

text \<open>\<open>mac\<close> is HMAC-SHA256: a key and a message give the bytes of the hash.\<close>

definition authorizeEventRequest ::
  "(string \<Rightarrow> string \<Rightarrow> string) \<Rightarrow> http_request \<Rightarrow> string \<Rightarrow> string \<Rightarrow> bool" where
  "authorizeEventRequest mac rq rawBody token \<longleftrightarrow>
     trim_space (header_get (hr_headers rq) ''Authorization'') = ''Bearer '' @ token \<or>
     (let timestamp = trim_space (header_get (hr_headers rq) ''X-APayShop-Timestamp'');
          signature = trim_space (header_get (hr_headers rq) ''X-APayShop-Signature'') in
      timestamp \<noteq> '''' \<and> signature \<noteq> '''' \<and> unhex signature = Some (mac token (timestamp @ ''.'' @ rawBody)))"

definition result_json :: "process_result \<Rightarrow> json" where
  "result_json p = JObj ([(''message'', JStr (pr_message p)), (''alreadyProcessed'', JBool (pr_already p)),
     (''transactionId'', JNum (pr_id p) 0), (''status'', JStr (pr_status p))] @
     (if pr_synced p then [(''cacheSynced'', JBool True)] else []))"

definition ignored :: "string \<Rightarrow> string \<Rightarrow> response" where
  "ignored reason event = writeJSON 200 (JObj [(''event'', JStr event), (''ignored'', JBool True), (''message'', JStr reason)])"

definition handleOrderPaidEvent :: "'r redis_api \<Rightarrow> event_envelope \<Rightarrow> 'r world \<Rightarrow> response \<times> 'r world" where
  "handleOrderPaidEvent R ev w =
     (case decode_order (ev_data ev) of
        None \<Rightarrow> (error_response 400 ''Invalid order.paid payload'', w)
      | Some d \<Rightarrow>
          (case buildTransactionRequestFromOrderPaid ev d of
             Inl reason \<Rightarrow> (ignored reason (ev_event ev), w)
           | Inr req \<Rightarrow>
               (case processTransaction R req w of
                  (Inl (status, message), w1) \<Rightarrow> (error_response status message, w1)
                | (Inr p, w1) \<Rightarrow> (writeJSON 200 (result_json p), w1))))"

text \<open>The text of an error of the database is not modelled; an expiry that cannot be read is no expiry.\<close>

definition applied_response :: "string \<Rightarrow> bool option \<Rightarrow> response" where
  "applied_response what applied = (case applied of
      None \<Rightarrow> error_response 500 (''Failed to '' @ what @ '' subscription: '')
    | Some a \<Rightarrow> writeJSON 200 (JObj [(''alreadyProcessed'', JBool (\<not> a)), (''applied'', JBool a)]))"

definition event_expiry :: "string \<Rightarrow> int option" where
  "event_expiry s = map_option (\<lambda>t. t div 1000 * 1000) (parse_rfc3339 (trim_space s))"

definition decode_apply :: "json option \<Rightarrow> subscription_apply option" where
  "decode_apply raw =
     (case payload_members raw of None \<Rightarrow> None | Some kvs \<Rightarrow>
      case (i32_field kvs ''userId'', str_field kvs ''eventId'', float_field kvs ''paidAmount'', float_field kvs ''grantAmount'',
            str_field kvs ''expiresAt'', i32_field kvs ''tier'', str_field kvs ''sourceId'', str_field kvs ''remark'') of
        (Some u, Some e, Some p, Some g, Some x, Some t, Some s, Some r) \<Rightarrow>
          Some \<lparr>sa_user = u, sa_paid = moneyToScaledInt p, sa_grant = moneyToScaledInt g, sa_expires = event_expiry x,
                sa_tier = t, sa_event = e, sa_type = ''sub_apply'', sa_source_type = ''apayshop'', sa_source_id = s,
                sa_remark = r\<rparr>
      | _ \<Rightarrow> None)"

definition decode_cancel :: "json option \<Rightarrow> subscription_apply option" where
  "decode_cancel raw =
     (case payload_members raw of None \<Rightarrow> None | Some kvs \<Rightarrow>
      case (i32_field kvs ''userId'', str_field kvs ''eventId'', str_field kvs ''sourceId'', str_field kvs ''remark'') of
        (Some u, Some e, Some s, Some r) \<Rightarrow>
          Some \<lparr>sa_user = u, sa_paid = 0, sa_grant = 0, sa_expires = None, sa_tier = 0, sa_event = e,
                sa_type = ''sub_cancel'', sa_source_type = ''apayshop'', sa_source_id = s, sa_remark = r\<rparr>
      | _ \<Rightarrow> None)"

definition handle_subscription ::
  "'r redis_api \<Rightarrow> string \<Rightarrow> string \<Rightarrow> subscription_apply option \<Rightarrow> 'r world \<Rightarrow> response \<times> 'r world" where
  "handle_subscription R event what decoded w =
     (case decoded of
        None \<Rightarrow> (error_response 400 (''Invalid '' @ event @ '' payload''), w)
      | Some p \<Rightarrow>
          if sa_user p \<le> 0 \<or> trim_space (sa_event p) = ''''
          then (error_response 400 ''Missing userId or eventId'', w)
          else (case applySubscription R p w of (applied, w1) \<Rightarrow> (applied_response what applied, w1)))"

definition handleSubscriptionApply :: "'r redis_api \<Rightarrow> event_envelope \<Rightarrow> 'r world \<Rightarrow> response \<times> 'r world" where
  "handleSubscriptionApply R ev w = handle_subscription R ''subscription.apply'' ''apply'' (decode_apply (ev_data ev)) w"

definition handleSubscriptionCancel :: "'r redis_api \<Rightarrow> event_envelope \<Rightarrow> 'r world \<Rightarrow> response \<times> 'r world" where
  "handleSubscriptionCancel R ev w = handle_subscription R ''subscription.cancel'' ''cancel'' (decode_cancel (ev_data ev)) w"

text \<open>The body's bytes are an argument, \<open>None\<close> when reading fails.\<close>

definition handleEvent ::
  "'r redis_api \<Rightarrow> (string \<Rightarrow> string \<Rightarrow> string) \<Rightarrow> string \<Rightarrow> http_request \<Rightarrow> string option \<Rightarrow> 'r world \<Rightarrow> response \<times> 'r world"
where
  "handleEvent R mac configured rq body w =
     (let token = trim_space configured in
      if token = '''' then (error_response 503 ''Internal token not configured'', w)
      else case body of
        None \<Rightarrow> (error_response 400 ''Invalid request body'', w)
      | Some raw \<Rightarrow>
          if \<not> authorizeEventRequest mac rq raw token then (error_response 401 ''Unauthorized'', w)
          else case decode_envelope (decode_text raw) of
            None \<Rightarrow> (error_response 400 ''Invalid event envelope'', w)
          | Some ev0 \<Rightarrow>
              let ev = ev0\<lparr>ev_event := trim_space (ev_event ev0)\<rparr> in
              if ev_event ev = '''' then (error_response 400 ''Missing event name'', w)
              else if ev_event ev = ''order.paid'' then handleOrderPaidEvent R ev w
              else if ev_event ev = ''subscription.apply'' then handleSubscriptionApply R ev w
              else if ev_event ev = ''subscription.cancel'' then handleSubscriptionCancel R ev w
              else (ignored ''Event ignored'' (ev_event ev), w))"

end
