(* ===== verification/Admin.thy ===== *)
theory Admin
  imports Webhook
begin

text \<open>
  internal/api/httpx and the part of internal/api/admin that changes balances: \<open>AdjustUserBalance\<close> of
  users.go with the helpers of base.go. The administrator's identity comes in headers that the caller, another
  service behind the token check of theory Auth, sets.
\<close>

section \<open>Envelopes\<close>

definition envelope :: "int \<Rightarrow> string \<Rightarrow> json \<Rightarrow> json" where
  "envelope code' msg data = JObj [(''code'', JNum code' 0), (''msg'', JStr msg), (''data'', data)]"

definition write_envelope :: "int \<Rightarrow> int \<Rightarrow> string \<Rightarrow> json \<Rightarrow> response" where
  "write_envelope status code' msg data =
     \<lparr>rs_status = status, rs_headers = [(''content-type'', ''application/json; charset=utf-8'')],
      rs_body = JsonBytes (envelope code' msg data)\<rparr>"

definition httpx_Err :: "int \<Rightarrow> int \<Rightarrow> string \<Rightarrow> response" where
  "httpx_Err status code' msg = write_envelope status (if code' = 0 then status else code') msg JNull"

definition admin_error :: "int \<Rightarrow> string \<Rightarrow> response" where
  "admin_error status message = httpx_Err status status message"

text \<open>\<open>jsonResponse\<close> writes a map, whose keys come in order.\<close>

definition admin_json :: "int \<Rightarrow> json \<Rightarrow> response" where
  "admin_json status data =
     \<lparr>rs_status = status, rs_headers = [(''content-type'', ''application/json; charset=utf-8'')],
      rs_body = JsonBytes (JObj [(''code'', JNum 0 0), (''data'', data), (''msg'', JStr ''success'')])\<rparr>"

section \<open>Pages\<close>

text \<open>\<open>strconv.Atoi\<close> of a query value; an empty value is absent.\<close>

definition positive_number :: "string \<Rightarrow> int option" where
  "positive_number raw = (case parse_int 64 raw of Some v \<Rightarrow> if 0 < v then Some v else None | None \<Rightarrow> None)"

definition parsePage :: "string \<Rightarrow> string \<Rightarrow> int \<times> int \<times> int" where
  "parsePage page pageSize =
     (let p = (case positive_number page of Some v \<Rightarrow> v | None \<Rightarrow> 1);
          n = (case positive_number pageSize of Some v \<Rightarrow> min v 100 | None \<Rightarrow> 20)
      in (p, n, wrap64 ((p - 1) * n)))"

definition parsePagination :: "int \<Rightarrow> string \<Rightarrow> string \<Rightarrow> int \<times> int \<times> int" where
  "parsePagination defaultPageSize page pageSize =
     (let p = (case positive_number page of Some v \<Rightarrow> v | None \<Rightarrow> 1);
          n = (case positive_number pageSize of Some v \<Rightarrow> if v \<le> 100 then v else defaultPageSize | None \<Rightarrow> defaultPageSize)
      in (p, n, wrap64 ((p - 1) * n)))"

lemma page_size_bounded:
  "case parsePage p n of (page, len, start) \<Rightarrow> 0 < page \<and> 0 < len \<and> len \<le> 100"
  by (auto simp: parsePage_def positive_number_def Let_def split: option.splits)

section \<open>The operator\<close>

definition readAdminOperator :: "headers \<Rightarrow> int \<times> string" where
  "readAdminOperator h =
     (let i = (case positive_number (trim_space (header_get h ''X-Internal-Admin-Id'')) of Some v \<Rightarrow> wrap32 v | None \<Rightarrow> 0);
          name = trim_space (header_get h ''X-Internal-Admin-Username'') in
      (i, if name = '''' \<and> 0 < i then ''admin#'' @ show_int i else name))"

section \<open>Adjusting a balance\<close>

record adjust_request =
  aj_balance :: string
  aj_amount :: f64
  aj_remark :: string

text \<open>
  A decoder of a stream reads the first value and leaves what follows it.
\<close>

definition first_value :: "string \<Rightarrow> json option" where
  "first_value s = map_option fst (parse_value (2 * length s + 1) s)"

definition decode_adjust :: "string \<Rightarrow> adjust_request option" where
  "decode_adjust body =
     (case payload_members (first_value body) of None \<Rightarrow> None | Some kvs \<Rightarrow>
      case (str_field kvs ''balanceType'', float_field kvs ''amount'', str_field kvs ''remark'') of
        (Some b, Some a, Some r) \<Rightarrow> Some \<lparr>aj_balance = b, aj_amount = a, aj_remark = r\<rparr>
      | _ \<Rightarrow> None)"

definition normalize_adjust :: "adjust_request \<Rightarrow> adjust_request" where
  "normalize_adjust a = a\<lparr>aj_balance := (if lower_trim (aj_balance a) = '''' then ''cash'' else lower_trim (aj_balance a)),
     aj_remark := trim_space (aj_remark a)\<rparr>"

text \<open>The first complaint about a normalised request.\<close>

definition adjust_problem :: "adjust_request \<Rightarrow> string option" where
  "adjust_problem a =
     (if \<not> f64_pos (aj_amount a) then Some ''Amount must be greater than 0''
      else if aj_balance a \<noteq> ''cash'' \<and> aj_balance a \<noteq> ''grant'' then Some ''Unsupported balance type''
      else if aj_remark a = '''' then Some ''Remark is required''
      else if moneyToScaledInt (aj_amount a) \<le> 0 then Some ''Amount is too small''
      else None)"

definition adjust_transaction :: "adjust_request \<Rightarrow> int \<Rightarrow> int \<Rightarrow> int \<Rightarrow> transaction_row" where
  "adjust_transaction a uid admin before =
     \<lparr>t_id = 0, t_user = uid, t_event = None, t_type = ''admin_adjust'', t_balance_type = aj_balance a,
      t_direction = ''credit'', t_amount = moneyToScaledInt (aj_amount a), t_before = before,
      t_after = wrap64 (before + moneyToScaledInt (aj_amount a)), t_source_type = ''admin'',
      t_source_id = (if 0 < admin then show_int admin else ''''), t_status = ''completed'', t_remark = aj_remark a,
      t_metadata = empty_object\<rparr>"

definition adjust_log :: "adjust_request \<Rightarrow> int \<Rightarrow> int \<times> string \<Rightarrow> int \<Rightarrow> int \<Rightarrow> balance_log_row" where
  "adjust_log a uid operator before txid = (case operator of (admin, name) \<Rightarrow>
     \<lparr>b_transaction = Some txid, b_user = uid, b_balance_type = aj_balance a, b_action = ''admin_recharge'',
      b_amount = moneyToScaledInt (aj_amount a), b_before = before,
      b_after = wrap64 (before + moneyToScaledInt (aj_amount a)),
      b_admin = (if 0 < admin then Some admin else None), b_operator = or_default name ''system'', b_remark = aj_remark a\<rparr>)"

definition adjust_body ::
  "adjust_request \<Rightarrow> int \<Rightarrow> int \<times> string \<Rightarrow> db \<Rightarrow> 'r world \<Rightarrow> (int \<times> string + (int \<times> db)) \<times> 'r world" where
  "adjust_body a uid operator d =
     tx_then (404, ''User not found'') (getUserByIDForUpdate uid d) (\<lambda>u.
     tx_then (500, ''Failed to update balance'') (update_pool (aj_balance a) uid (moneyToScaledInt (aj_amount a)) d) (\<lambda>d1.
     tx_then (500, ''Failed to create transaction'')
         (Some (createTransaction (adjust_transaction a uid (fst operator) (pool_before (aj_balance a) u)) d1)) (\<lambda>created.
     case created of
       Inl _ \<Rightarrow> (\<lambda>w. (Inl (500, ''Failed to create transaction''), w))
     | Inr (txid, d2) \<Rightarrow>
         tx_then (500, ''Failed to create balance log'')
             (createBalanceLog (adjust_log a uid operator (pool_before (aj_balance a) u) txid) d2) (\<lambda>d3 w.
         (Inr (txid, d3), w)))))"

definition adjust_answer :: "adjust_request \<Rightarrow> int \<Rightarrow> bool \<Rightarrow> response" where
  "adjust_answer a txid synced = admin_json 200 (JObj [(''amount'', f64_json (aj_amount a)), (''balanceType'', JStr (aj_balance a)),
     (''cacheSynced'', JBool synced), (''message'', JStr ''Balance updated successfully''), (''remark'', JStr (aj_remark a)),
     (''scaledAmount'', JNum (moneyToScaledInt (aj_amount a)) 0), (''transactionId'', JNum txid 0)])"

text \<open>The id of the path is an int that is cut to 32 bits after its check.\<close>

definition adjustUserBalance ::
  "'r redis_api \<Rightarrow> string \<Rightarrow> http_request \<Rightarrow> string \<Rightarrow> 'r world \<Rightarrow> response \<times> 'r world" where
  "adjustUserBalance R idStr rq body w =
     (case positive_number idStr of
        None \<Rightarrow> (admin_error 400 ''Invalid user ID'', w)
      | Some i \<Rightarrow>
      case decode_adjust body of
        None \<Rightarrow> (admin_error 400 ''Invalid request body'', w)
      | Some a0 \<Rightarrow>
      let a = normalize_adjust a0; uid = wrap32 i in
      case adjust_problem a of
        Some msg \<Rightarrow> (admin_error 400 msg, w)
      | None \<Rightarrow>
      case tx_begin w of
        (None, w1) \<Rightarrow> (admin_error 500 ''Failed to start transaction'', w1)
      | (Some d, w1) \<Rightarrow>
      case adjust_body a uid (readAdminOperator (hr_headers rq)) d w1 of
        (Inl (status, msg), w2) \<Rightarrow> (admin_error status msg, w2)
      | (Inr (txid, d3), w2) \<Rightarrow>
      case tx_commit d3 w2 of
        (False, w3) \<Rightarrow> (admin_error 500 ''Failed to commit balance update'', w3)
      | (True, w3) \<Rightarrow>
      case creditBalanceCache R uid (aj_balance a) (moneyToScaledInt (aj_amount a)) w3 of
        (res, w4) \<Rightarrow> (adjust_answer a txid (res = Inr ()), w4))"

lemma adjust_body_yields:
  "yields (adjust_body a uid operator d)
     (credit_tx uid (aj_balance a) (moneyToScaledInt (aj_amount a)) (adjust_transaction a uid (fst operator))
        (adjust_log a uid operator) d)"
  unfolding adjust_body_def credit_tx_def
  by (intro yields_then) (auto intro!: yields_then yields_return yields_exit split: sum.splits)

section \<open>What an adjustment does\<close>

lemma adjust_valid:
  "adjust_problem a = None \<Longrightarrow> (aj_balance a = ''grant'' \<or> aj_balance a = ''cash'') \<and>
     0 < moneyToScaledInt (aj_amount a) \<and> in_i64 (moneyToScaledInt (aj_amount a))"
  by (auto simp: adjust_problem_def moneyToScaledInt_def to_int64_def in_i64_def split: if_splits)

lemma error_not_ok: "rs_status (admin_error s m) = s" "rs_status (adjust_answer a i b) = 200"
  by (simp_all add: admin_error_def httpx_Err_def write_envelope_def adjust_answer_def admin_json_def)

lemma adjust_body_errors: "adjust_body a uid operator d w = (Inl (s, m), w') \<Longrightarrow> s = 404 \<or> s = 500"
  by (auto simp: adjust_body_def tx_then_def split: option.splits prod.splits sum.splits)

lemma adjust_fine:
  assumes "w_faults w = []" "adjustUserBalance R idStr rq body w = (resp, w')" "rs_status resp = 200"
  shows "\<exists>i a0 a txid d res. positive_number idStr = Some i \<and> decode_adjust body = Some a0 \<and> a = normalize_adjust a0 \<and>
    adjust_problem a = None \<and>
    credit_tx (wrap32 i) (aj_balance a) (moneyToScaledInt (aj_amount a))
      (adjust_transaction a (wrap32 i) (fst (readAdminOperator (hr_headers rq))))
      (adjust_log a (wrap32 i) (readAdminOperator (hr_headers rq))) (w_db w) = Some (txid, d) \<and>
    creditBalanceCache R (wrap32 i) (aj_balance a) (moneyToScaledInt (aj_amount a)) (w\<lparr>w_db := d\<rparr>) = (res, w')"
proof -
  obtain i a0 where i: "positive_number idStr = Some i" "decode_adjust body = Some a0"
    "adjust_problem (normalize_adjust a0) = None"
    using assms by (auto simp: adjustUserBalance_def Let_def error_not_ok split: option.splits)
  let ?a = "normalize_adjust a0" and ?op = "readAdminOperator (hr_headers rq)"
  obtain out w2 where b: "adjust_body ?a (wrap32 i) ?op (w_db w) w = (out, w2)" by fastforce
  then have "w2 = w" using adjust_body_yields assms(1) unfolding yields_def by blast
  show ?thesis
  proof (cases out)
    case (Inl e)
    then have "rs_status resp = fst e" using assms i b \<open>w2 = w\<close>
      by (cases e) (auto simp: adjustUserBalance_def Let_def error_not_ok split: prod.splits)
    with adjust_body_errors [of ?a "wrap32 i" ?op "w_db w" w "fst e" "snd e" w2] b Inl assms(3) show ?thesis by simp
  next
    case (Inr x)
    obtain txid d where x: "x = (txid, d)" by (cases x)
    have "credit_tx (wrap32 i) (aj_balance ?a) (moneyToScaledInt (aj_amount ?a)) (adjust_transaction ?a (wrap32 i) (fst ?op))
        (adjust_log ?a (wrap32 i) ?op) (w_db w) = Some (txid, d)"
      using yieldsD(5) [OF adjust_body_yields b] Inr x by simp
    moreover obtain res w4 where "creditBalanceCache R (wrap32 i) (aj_balance ?a) (moneyToScaledInt (aj_amount ?a))
        (w\<lparr>w_db := d\<rparr>) = (res, w4)" by fastforce
    moreover from this have "w4 = w'" using assms(1,2) i b Inr x \<open>w2 = w\<close>
      by (simp add: adjustUserBalance_def Let_def)
    ultimately show ?thesis using i by blast
  qed
qed

text \<open>
  C39. An adjustment by an administrator changes the table and the cache by the same amount. When it is
  answered with 200 and nothing of the gateway's own fails, the pool of the user in the table has grown by a
  positive amount, the cached pool by the same, no other key and no other user's row has changed, and one
  transaction and one line of the balance log have been added, the log with the name of an operator.
\<close>

theorem adjustment_credits_exactly:
  assumes "redis_server R" "w_faults w = []" "w_redis_on w"
    and "adjustUserBalance R idStr rq body w = (resp, w')" "rs_status resp = 200"
    and "positive_number idStr = Some i" "uid = wrap32 i" "decode_adjust body = Some a0" "a = normalize_adjust a0"
    and "x = moneyToScaledInt (aj_amount a)"
    and "user_of (w_db w) uid = Some u" "pool_of (aj_balance a) u = Some v"
    and "holds R (w_redis w) (pool_key (aj_balance a) uid) c" "in_i64 c" "in_i64 (c + x)"
  shows "0 < x \<and> (\<exists>u'. user_of (w_db w') uid = Some u' \<and> pool_of (aj_balance a) u' = Some (v + x)) \<and>
    (\<forall>j. j \<noteq> uid \<longrightarrow> user_of (w_db w') j = user_of (w_db w) j) \<and>
    (\<forall>k. rd_get R (w_redis w') k =
       (if k = pool_key (aj_balance a) uid then Some (show_int (c + x)) else rd_get R (w_redis w) k)) \<and>
    (\<exists>t b. transactions (w_db w') = transactions (w_db w) @ [t] \<and> balance_logs (w_db w') = balance_logs (w_db w) @ [b] \<and>
       t_amount t = x \<and> b_before b = v \<and> b_after b = v + x \<and> b_operator b \<noteq> '''' \<and> b_remark b \<noteq> '''')"
proof -
  let ?op = "readAdminOperator (hr_headers rq)"
  obtain txid d res where p: "adjust_problem a = None"
    and tx: "credit_tx uid (aj_balance a) x (adjust_transaction a uid (fst ?op)) (adjust_log a uid ?op) (w_db w) = Some (txid, d)"
    and c: "creditBalanceCache R uid (aj_balance a) x (w\<lparr>w_db := d\<rparr>) = (res, w')"
    using adjust_fine [OF assms(2,4,5)] assms(6-10) by auto
  note v = adjust_valid [OF p, folded assms(10)] and range = credit_tx_range [OF tx assms(11,12)]
  obtain r' where r': "creditBalanceCache R uid (aj_balance a) x (w\<lparr>w_db := d\<rparr>) = (Inr (), w\<lparr>w_db := d, w_redis := r'\<rparr>)"
    "\<And>k. rd_get R r' k = (if k = pool_key (aj_balance a) uid then Some (show_int (c + x))
       else rd_get R (w_redis (w\<lparr>w_db := d\<rparr>)) k)"
    by (rule redis_server.credit_cache_exact [OF assms(1), of "w\<lparr>w_db := d\<rparr>" "aj_balance a" uid c x])
      (use assms(2,3,13-15) v in simp_all)
  then have w': "w_db w' = d" "w_redis w' = r'" using c by auto
  from tx obtain u1 where u1: "user_of (w_db w) uid = Some u1" "update_pool (aj_balance a) uid x (w_db w) \<noteq> None"
    "\<forall>j. user_of d j = (if j = uid then Some (with_pool (aj_balance a) x u1) else user_of (w_db w) j)"
    "transactions d = transactions (w_db w) @ [(adjust_transaction a uid (fst ?op) (pool_before (aj_balance a) u1))\<lparr>t_id := txid\<rparr>]"
    "balance_logs d = balance_logs (w_db w) @ [adjust_log a uid ?op (pool_before (aj_balance a) u1) txid]"
    "\<forall>e. t_event (adjust_transaction a uid (fst ?op) (pool_before (aj_balance a) u1)) = Some e \<longrightarrow> e \<noteq> '''' \<longrightarrow>
       \<not> event_seen (w_db w) e"
    by (rule credit_tx_effect)
  have u: "u1 = u" "pool_before (aj_balance a) u = v" using u1(1) assms(11) pool_before_Some [OF assms(12)] by simp_all
  have pools: "\<exists>u'. user_of (w_db w') uid = Some u' \<and> pool_of (aj_balance a) u' = Some (v + x)"
    "\<forall>j. j \<noteq> uid \<longrightarrow> user_of (w_db w') j = user_of (w_db w) j"
    using u1(3) w'(1) u assms(12) by (simp_all add: null_add_def)
  have "aj_remark a \<noteq> ''''" using p by (auto simp: adjust_problem_def split: if_splits)
  then have "b_operator (adjust_log a uid ?op v txid) \<noteq> ''''" "b_remark (adjust_log a uid ?op v txid) \<noteq> ''''"
    "b_before (adjust_log a uid ?op v txid) = v" "b_after (adjust_log a uid ?op v txid) = v + x"
    "t_amount ((adjust_transaction a uid (fst ?op) v)\<lparr>t_id := txid\<rparr>) = x"
    using range assms(10) by (simp_all add: adjust_log_def adjust_transaction_def or_default_def split: prod.splits)
  then have lines: "\<exists>t b. transactions (w_db w') = transactions (w_db w) @ [t] \<and> balance_logs (w_db w') = balance_logs (w_db w) @ [b] \<and>
       t_amount t = x \<and> b_before b = v \<and> b_after b = v + x \<and> b_operator b \<noteq> '''' \<and> b_remark b \<noteq> ''''"
    using u1(4,5) u w'(1) by blast
  show ?thesis using v pools r'(2) w'(2) lines by simp
qed

definition witness_adjust :: string where
  "witness_adjust = (let q = char_of (34::nat) in
     ''{'' @ [q] @ ''amount'' @ [q] @ '':2,'' @ [q] @ ''remark'' @ [q] @ '':'' @ [q] @ ''gift'' @ [q] @ ''}'')"

lemma witness_adjust_read: "decode_adjust witness_adjust = Some \<lparr>aj_balance = '''', aj_amount = F64 2 0, aj_remark = ''gift''\<rparr>"
proof -
  have v: "first_value witness_adjust = Some (JObj [(''amount'', JNum 2 0), (''remark'', JStr ''gift'')])" by code_simp
  have m: "matching [(''amount'', JNum 2 0), (''remark'', JStr ''gift'')] ''balanceType'' = []"
    "matching [(''amount'', JNum 2 0), (''remark'', JStr ''gift'')] ''amount'' = [JNum 2 0]"
    "matching [(''amount'', JNum 2 0), (''remark'', JStr ''gift'')] ''remark'' = [JStr ''gift'']"
    by code_simp+
  show ?thesis
    by (simp add: decode_adjust_def v payload_members_def struct_members_def str_field_def float_field_def m dec_finite_def
        dec_f64_def)
qed

theorem adjustment_credits_exactly_witness:
  "\<exists>u'. user_of (w_db (snd (adjustUserBalance mem_redis ''7'' witness_http witness_adjust
      (witness_world (cached 7 (30, 20, 100)) (witness_db (30, 20, 100)) [])))) 7 = Some u' \<and> u_cash u' = Some 200000100"
proof -
  let ?w = "witness_world (cached 7 (30, 20, 100)) (witness_db (30, 20, 100)) []"
  let ?a = "normalize_adjust \<lparr>aj_balance = '''', aj_amount = F64 2 0, aj_remark = ''gift''\<rparr>"
  have a: "?a = \<lparr>aj_balance = ''cash'', aj_amount = F64 2 0, aj_remark = ''gift''\<rparr>" by code_simp
  have x: "moneyToScaledInt (aj_amount ?a) = 200000000"
    unfolding a by (simp add: moneyToScaledInt_def f64_of_int_def in_i64_def)
  have i: "positive_number ''7'' = Some 7" "wrap32 7 = 7" by code_simp+
  have op: "readAdminOperator (hr_headers witness_http) = (0, '''')" by (simp add: witness_http_def) code_simp
  have u: "user_of (w_db ?w) 7 = Some (witness_user 7 (30, 20, 100))"
    "pool_of (aj_balance ?a) (witness_user 7 (30, 20, 100)) = Some 100"
    by (simp_all add: a pool_of_def witness_user_def)
  have h: "holds mem_redis (w_redis ?w) (pool_key (aj_balance ?a) 7) 100"
    by (simp add: a pool_key_def holds_def cached_def subBalanceKey_def grantBalanceKey_def cashBalanceKey_def)
  have s: "rs_status (fst (adjustUserBalance mem_redis ''7'' witness_http witness_adjust ?w)) = 200"
    using x by (simp add: adjustUserBalance_def Let_def i witness_adjust_read a adjust_problem_def f64_pos_def f64_le0_def op
        adjust_body_def tx_then_def getUserByIDForUpdate_def user_of_def witness_db_def empty_db_def witness_user_def
        pool_before_def update_pool_def updateUserTopupBalance_def sql_add_null_def sql_add_def in_i64_def
        createTransaction_def adjust_transaction_def adjust_log_def fits_def empty_object_def fk_user_def
        createBalanceLog_def or_default_def error_not_ok split: prod.splits)
  obtain resp w' where r: "adjustUserBalance mem_redis ''7'' witness_http witness_adjust ?w = (resp, w')" by fastforce
  have "\<exists>u'. user_of (w_db w') 7 = Some u' \<and> pool_of (aj_balance ?a) u' = Some (100 + 200000000)"
    using adjustment_credits_exactly [OF mem.redis_server_axioms _ _ r _ i(1) i(2) [symmetric] witness_adjust_read refl
        x [symmetric] u h] s r by (simp add: in_i64_def)
  then show ?thesis using r by (simp add: a pool_of_def)
qed

end
