(* ===== verification/Keys.thy ===== *)
theory Keys
  imports Admin "HOL-Library.Word"
begin

text \<open>
  internal/api/site/api_keys.go: the handlers with which a user lists, creates, switches, renames, rotates and
  deletes API keys, the statements on \<open>api_keys\<close> behind them, and the group of cmd/api/main.go that puts
  them behind the internal token. The caller, another service, says in a header for which user it acts. Random
  bytes are an argument, as is the text that the driver has for an error of the database.
\<close>

section \<open>Statements\<close>

text \<open>The server refuses a text with the character 0 before it looks at any row.\<close>

definition no_nul :: "string \<Rightarrow> bool" where
  "no_nul s \<longleftrightarrow> list_all (\<lambda>c. (of_char c :: nat) \<noteq> 0) s"

text \<open>
  The number comes from the column's sequence. A refused insert uses one up too, which only leaves a gap.
\<close>

definition createAPIKey ::
  "int \<Rightarrow> string \<Rightarrow> string \<Rightarrow> int option \<Rightarrow> json \<Rightarrow> int option \<Rightarrow> int option \<Rightarrow> db \<Rightarrow> (api_key_row \<times> db) option" where
  "createAPIKey now name key uid allowed status tier d =
     (let k = \<lparr>k_id = api_key_seq d + 1, k_name = name, k_string = key, k_user = uid, k_tier = tier,
               k_quota_limit = Some 0, k_quota_used = Some 0, k_allowed_models = allowed, k_status = status,
               k_created = Some now\<rparr> in
      if in_i32 (k_id k) \<and> no_nul name \<and> fits 50 name \<and> no_nul key \<and> fits 64 key \<and> jsonb_ok allowed \<and>
         (case uid of None \<Rightarrow> True | Some u \<Rightarrow> fk_user u d) \<and>
         \<not> list_ex (\<lambda>r. k_id r = k_id k \<or> k_string r = key) (api_keys d)
      then Some (k, d\<lparr>api_keys := api_keys d @ [k], api_key_seq := k_id k\<rparr>) else None)"

text \<open>\<open>ORDER BY created_at DESC\<close> puts NULL first.\<close>

definition getUserAPIKeys :: "int \<Rightarrow> db \<Rightarrow> api_key_row list" where
  "getUserAPIKeys uid d =
     (let ks = filter (\<lambda>k. k_user k = Some uid) (api_keys d) in
      filter (\<lambda>k. k_created k = None) ks @
      sort_key (\<lambda>k. - coalesce0 (k_created k)) (filter (\<lambda>k. k_created k \<noteq> None) ks))"

definition countActiveUserAPIKeys :: "int \<Rightarrow> db \<Rightarrow> int" where
  "countActiveUserAPIKeys uid d = int (length (filter (\<lambda>k. k_user k = Some uid \<and> k_status k = Some 1) (api_keys d)))"

definition named :: "int \<Rightarrow> int \<Rightarrow> api_key_row \<Rightarrow> bool" where
  "named i uid k \<longleftrightarrow> k_id k = i \<and> k_user k = Some uid"

definition updateAPIKeyStatus :: "int option \<Rightarrow> int \<Rightarrow> int \<Rightarrow> db \<Rightarrow> db option" where
  "updateAPIKeyStatus status i uid d =
     Some (d\<lparr>api_keys := map (\<lambda>k. if named i uid k then k\<lparr>k_status := status\<rparr> else k) (api_keys d)\<rparr>)"

definition updateAPIKeyName :: "string \<Rightarrow> int \<Rightarrow> int \<Rightarrow> db \<Rightarrow> db option" where
  "updateAPIKeyName name i uid d =
     (if no_nul name \<and> (\<not> list_ex (named i uid) (api_keys d) \<or> fits 50 name)
      then Some (d\<lparr>api_keys := map (\<lambda>k. if named i uid k then k\<lparr>k_name := name\<rparr> else k) (api_keys d)\<rparr>) else None)"

definition rotateAPIKey :: "string \<Rightarrow> int \<Rightarrow> int \<Rightarrow> db \<Rightarrow> db option" where
  "rotateAPIKey key i uid d =
     (if no_nul key \<and> (\<not> list_ex (named i uid) (api_keys d) \<or>
         fits 64 key \<and> \<not> list_ex (\<lambda>k. k_string k = key \<and> \<not> named i uid k) (api_keys d))
      then Some (d\<lparr>api_keys := map (\<lambda>k. if named i uid k then k\<lparr>k_string := key\<rparr> else k) (api_keys d)\<rparr>) else None)"

text \<open>A request log keeps its key from being deleted; a failure log forgets it.\<close>

definition deleteAPIKey :: "int \<Rightarrow> int \<Rightarrow> db \<Rightarrow> db option" where
  "deleteAPIKey i uid d =
     (if \<not> list_ex (named i uid) (api_keys d) then Some d
      else if list_ex (\<lambda>r. rl_api_key r = Some i) (request_logs d) then None
      else Some (d\<lparr>api_keys := filter (\<lambda>k. \<not> named i uid k) (api_keys d),
             model_failure_logs := map (\<lambda>m. if mf_api_key m = Some i then m\<lparr>mf_api_key := None\<rparr> else m)
               (model_failure_logs d)\<rparr>))"

section \<open>Key strings\<close>

definition hex_byte :: "8 word \<Rightarrow> string" where
  "hex_byte b = [hex_digit (unat b div 16), hex_digit (unat b mod 16)]"

definition generateAPIKey :: "8 word list \<Rightarrow> string" where
  "generateAPIKey rnd = ''sk-'' @ concat (map hex_byte rnd)"

definition maskKey :: "string \<Rightarrow> string" where
  "maskKey key = (if length key < 12 then ''********''
     else take 5 key @ ''******'' @ drop (length key - 4) key)"

section \<open>Answers\<close>

definition respondJSON :: "int \<Rightarrow> json \<Rightarrow> response" where
  "respondJSON status payload = \<lparr>rs_status = status, rs_headers = [(''content-type'', ''application/json'')],
     rs_body = JsonBytes payload\<rparr>"

definition respondError :: "int \<Rightarrow> string \<Rightarrow> response" where
  "respondError status message = httpx_Err status status message"

text \<open>A map is written with its keys in order.\<close>

definition success_with :: "json \<Rightarrow> response" where
  "success_with data = respondJSON 200 (JObj [(''code'', JNum 0 0), (''data'', data), (''msg'', JStr ''success'')])"

definition plain_success :: response where
  "plain_success = respondJSON 200 (JObj [(''code'', JNum 0 0), (''msg'', JStr ''success'')])"

text \<open>\<open>time.RFC3339\<close> of an instant in UTC; a NULL is the zero time.\<close>

definition format_rfc3339 :: "int \<Rightarrow> string" where
  "format_rfc3339 t =
     (let s = (t mod day_ns) div 1000000000 in
      format_dashed (utc_date t) @ ''T'' @ pad 2 (s div 3600) @ '':'' @ pad 2 (s div 60 mod 60) @ '':'' @
      pad 2 (s mod 60) @ ''Z'')"

definition created_text :: "int option \<Rightarrow> string" where
  "created_text t = (case t of None \<Rightarrow> ''0001-01-01T00:00:00Z'' | Some n \<Rightarrow> format_rfc3339 n)"

text \<open>A list of models counts its elements, whatever they are; anything else is no list.\<close>

definition model_scope :: "json \<Rightarrow> string" where
  "model_scope allowed = (case allowed of
      JList ms \<Rightarrow> if ms = [] then ''All Models'' else show_int (int (length ms)) @ '' Models''
    | _ \<Rightarrow> ''All Models'')"

definition key_item :: "api_key_row \<Rightarrow> json" where
  "key_item k = JObj [(''id'', JNum (k_id k) 0), (''name'', JStr (k_name k)), (''rawKey'', JStr (k_string k)),
     (''maskedKey'', JStr (maskKey (k_string k))), (''model'', JStr ''Relay V1''),
     (''scope'', JStr (model_scope (k_allowed_models k))),
     (''status'', JStr (if coalesce0 (k_status k) = 1 then ''active'' else ''disabled'')),
     (''qps'', JStr ''Unlimited''), (''createdAt'', JStr (created_text (k_created k))),
     (''expiresAt'', JStr ''Never''), (''lastUsed'', JStr ''N/A'')]"

section \<open>Who calls\<close>

text \<open>
  \<open>ParseInt\<close> with its error ignored: a text that is no number is 0, and a number that is too large is the
  nearest bound, noticed at the first digit that passes what 32 bits hold.
\<close>

fun scan_uint :: "nat \<Rightarrow> string \<Rightarrow> nat option" where
  "scan_uint n [] = Some n"
| "scan_uint n (c # cs) =
     (case digit_val c of None \<Rightarrow> None
      | Some d \<Rightarrow> if 2 ^ 32 \<le> 10 * n + d then Some (2 ^ 32 - 1) else scan_uint (10 * n + d) cs)"

definition parse_clamped :: "string \<Rightarrow> int" where
  "parse_clamped s =
     (let neg = has_prefix s ''-''; t = (if neg \<or> has_prefix s ''+'' then tl s else s) in
      case (if t = '''' then None else scan_uint 0 t) of
        None \<Rightarrow> 0
      | Some n \<Rightarrow> if neg then - min (int n) (2 ^ 31) else min (int n) (2 ^ 31 - 1))"

definition user_header :: "http_request \<Rightarrow> string" where
  "user_header rq = header_get (hr_headers rq) ''X-Internal-User-Id''"

definition caller_id :: "http_request \<Rightarrow> int" where
  "caller_id rq = parse_clamped (user_header rq)"

text \<open>Listing and creating check the header, the others do not.\<close>

definition checked_user :: "http_request \<Rightarrow> response + int" where
  "checked_user rq =
     (if user_header rq = '''' then Inl (respondError 401 ''Unauthorized: Missing X-Internal-User-Id header'')
      else case parse_int 32 (user_header rq) of
        None \<Rightarrow> Inl (respondError 400 ''Invalid user_id format in header'')
      | Some i \<Rightarrow> Inr i)"

section \<open>Handlers\<close>

definition bad_body :: response where
  "bad_body = respondError 400 ''Invalid request body''"

definition listAPIKeysHandler :: "string \<Rightarrow> 'r handler" where
  "listAPIKeysHandler err rq w =
     (case checked_user rq of
        Inl e \<Rightarrow> (e, w)
      | Inr uid \<Rightarrow>
      case db_query (\<lambda>d. Some (getUserAPIKeys uid d)) w of
        (None, w1) \<Rightarrow> (respondError 500 (''Failed to fetch API keys: '' @ err), w1)
      | (Some ks, w1) \<Rightarrow> (success_with (if ks = [] then JNull else JList (map key_item ks)), w1))"

definition decode_create :: "string \<Rightarrow> (string \<times> string list) option" where
  "decode_create body =
     (case payload_members (first_value body) of None \<Rightarrow> None | Some kvs \<Rightarrow>
      case (str_field kvs ''name'', list_field json_str '''' kvs ''models'') of
        (Some n, Some ms) \<Rightarrow> Some (n, ms) | _ \<Rightarrow> None)"

definition created_answer :: "api_key_row \<Rightarrow> response" where
  "created_answer k = success_with (JObj [(''id'', JNum (k_id k) 0), (''maskedKey'', JStr (maskKey (k_string k))),
     (''name'', JStr (k_name k)), (''rawKey'', JStr (k_string k))])"

definition createAPIKeyHandler :: "string \<Rightarrow> 8 word list \<Rightarrow> string \<Rightarrow> 'r handler" where
  "createAPIKeyHandler err rnd body rq w =
     (case checked_user rq of
        Inl e \<Rightarrow> (e, w)
      | Inr uid \<Rightarrow>
      case decode_create body of
        None \<Rightarrow> (bad_body, w)
      | Some (name, ms) \<Rightarrow>
      case db_call (createAPIKey (w_now w) (if name = '''' then ''New API Key'' else name) (generateAPIKey rnd)
             (Some uid) (JList (map JStr ms)) (Some 1) (Some 0)) w of
        (None, w1) \<Rightarrow> (respondError 500 (''Failed to create API key: '' @ err), w1)
      | (Some k, w1) \<Rightarrow> (created_answer k, w1))"

definition decode_status :: "string \<Rightarrow> (int \<times> string) option" where
  "decode_status body =
     (case payload_members (first_value body) of None \<Rightarrow> None | Some kvs \<Rightarrow>
      case (i32_field kvs ''id'', str_field kvs ''status'') of (Some i, Some s) \<Rightarrow> Some (i, s) | _ \<Rightarrow> None)"

definition updateAPIKeyStatusHandler :: "string \<Rightarrow> 'r handler" where
  "updateAPIKeyStatusHandler body rq w =
     (case decode_status body of
        None \<Rightarrow> (bad_body, w)
      | Some (i, s) \<Rightarrow>
      case db_update (updateAPIKeyStatus (Some (if s = ''active'' then 1 else 0)) i (caller_id rq)) w of
        (None, w1) \<Rightarrow> (respondError 500 ''Failed to update key status'', w1)
      | (Some _, w1) \<Rightarrow> (plain_success, w1))"

definition decode_id :: "string \<Rightarrow> int option" where
  "decode_id body = Option.bind (payload_members (first_value body)) (\<lambda>kvs. i32_field kvs ''id'')"

definition deleteAPIKeyHandler :: "string \<Rightarrow> 'r handler" where
  "deleteAPIKeyHandler body rq w =
     (case decode_id body of
        None \<Rightarrow> (bad_body, w)
      | Some i \<Rightarrow>
      case db_update (deleteAPIKey i (caller_id rq)) w of
        (None, w1) \<Rightarrow> (respondError 500 ''Failed to delete key'', w1)
      | (Some _, w1) \<Rightarrow> (plain_success, w1))"

definition rotateAPIKeyHandler :: "8 word list \<Rightarrow> string \<Rightarrow> 'r handler" where
  "rotateAPIKeyHandler rnd body rq w =
     (case decode_id body of
        None \<Rightarrow> (bad_body, w)
      | Some i \<Rightarrow>
      case db_update (rotateAPIKey (generateAPIKey rnd) i (caller_id rq)) w of
        (None, w1) \<Rightarrow> (respondError 500 ''Failed to rotate key'', w1)
      | (Some _, w1) \<Rightarrow> (plain_success, w1))"

definition decode_rename :: "string \<Rightarrow> (int \<times> string) option" where
  "decode_rename body =
     (case payload_members (first_value body) of None \<Rightarrow> None | Some kvs \<Rightarrow>
      case (i32_field kvs ''id'', str_field kvs ''name'') of (Some i, Some s) \<Rightarrow> Some (i, s) | _ \<Rightarrow> None)"

definition updateAPIKeyNameHandler :: "string \<Rightarrow> 'r handler" where
  "updateAPIKeyNameHandler body rq w =
     (case decode_rename body of
        None \<Rightarrow> (bad_body, w)
      | Some (i, name) \<Rightarrow>
      if name = '''' then (respondError 400 ''Name cannot be empty'', w)
      else case db_update (updateAPIKeyName name i (caller_id rq)) w of
        (None, w1) \<Rightarrow> (respondError 500 ''Failed to update key name'', w1)
      | (Some _, w1) \<Rightarrow> (plain_success, w1))"

text \<open>The routes of the group, behind the token.\<close>

datatype key_route = ListKeys | CreateKey | DeleteKey | KeyStatus | KeyName | RotateKey

fun key_handler :: "string \<Rightarrow> 8 word list \<Rightarrow> string \<Rightarrow> key_route \<Rightarrow> 'r handler" where
  "key_handler err rnd body ListKeys = listAPIKeysHandler err"
| "key_handler err rnd body CreateKey = createAPIKeyHandler err rnd body"
| "key_handler err rnd body DeleteKey = deleteAPIKeyHandler body"
| "key_handler err rnd body KeyStatus = updateAPIKeyStatusHandler body"
| "key_handler err rnd body KeyName = updateAPIKeyNameHandler body"
| "key_handler err rnd body RotateKey = rotateAPIKeyHandler rnd body"

definition site_keys :: "string \<Rightarrow> string \<Rightarrow> 8 word list \<Rightarrow> string \<Rightarrow> key_route \<Rightarrow> 'r handler" where
  "site_keys token err rnd body route = internalTokenAuth token (key_handler err rnd body route)"

section \<open>What a call does to the tables\<close>

text \<open>
  The effect that a call asks for, in the name of a user: the one statement of its handler, or none where the
  body is turned away.
\<close>

fun key_effect :: "8 word list \<Rightarrow> string \<Rightarrow> int \<Rightarrow> int \<Rightarrow> key_route \<Rightarrow> db \<Rightarrow> db option" where
  "key_effect rnd body now uid ListKeys d = Some d"
| "key_effect rnd body now uid CreateKey d = Option.bind (decode_create body) (\<lambda>(name, ms).
     map_option snd (createAPIKey now (if name = '''' then ''New API Key'' else name) (generateAPIKey rnd)
       (Some uid) (JList (map JStr ms)) (Some 1) (Some 0) d))"
| "key_effect rnd body now uid DeleteKey d = Option.bind (decode_id body) (\<lambda>i. deleteAPIKey i uid d)"
| "key_effect rnd body now uid KeyStatus d = Option.bind (decode_status body) (\<lambda>(i, s).
     updateAPIKeyStatus (Some (if s = ''active'' then 1 else 0)) i uid d)"
| "key_effect rnd body now uid KeyName d = Option.bind (decode_rename body) (\<lambda>(i, name). updateAPIKeyName name i uid d)"
| "key_effect rnd body now uid RotateKey d = Option.bind (decode_id body) (\<lambda>i. rotateAPIKey (generateAPIKey rnd) i uid d)"

lemma read_digits_ge: "read_digits acc cs = Some n \<Longrightarrow> acc \<le> n"
  by (induction acc cs rule: read_digits.induct) (auto split: option.splits)

lemma scan_read: "read_digits acc cs = Some n \<Longrightarrow> n < 2 ^ 32 \<Longrightarrow> scan_uint acc cs = Some n"
proof (induction acc cs rule: read_digits.induct)
  case (2 acc c cs)
  then show ?case using read_digits_ge by (fastforce split: option.splits)
qed simp

lemma parse_clamped_exact: "parse_int 32 s = Some i \<Longrightarrow> parse_clamped s = i"
  by (cases s) (auto simp: parse_int_def parse_clamped_def read_int_def read_nat_def has_prefix_def Let_def
      dest: scan_read read_digits_ge split: option.splits if_splits)

lemma checked_user_caller: "checked_user rq = Inr uid \<Longrightarrow> uid = caller_id rq"
  by (auto simp: checked_user_def caller_id_def parse_clamped_exact split: if_splits option.splits)

text \<open>Whatever fails, a call has its effect or none, and an answer of 200 means that it had it.\<close>

lemma answers: "rs_status (respondError s m) = s" "rs_status (respondJSON s j) = s" "rs_status bad_body = 400"
  "rs_status plain_success = 200" "rs_status (success_with j) = 200" "rs_status (created_answer k) = 200"
  by (simp_all add: respondError_def respondJSON_def bad_body_def plain_success_def success_with_def created_answer_def
      httpx_Err_def write_envelope_def)

lemma update_call: "db_update f w = (a, w') \<Longrightarrow>
    (a = None \<and> w_db w' = w_db w \<or> f (w_db w) = Some (w_db w')) \<and> w_redis w' = w_redis w \<and> w_queue w' = w_queue w"
  by (auto simp: db_update_def db_call_def next_fault_eq split: fault.splits option.splits)

lemma query_call: "db_query f w = (a, w') \<Longrightarrow> w_db w' = w_db w \<and> w_redis w' = w_redis w \<and> w_queue w' = w_queue w"
  by (auto simp: db_query_def db_call_def next_fault_eq split: fault.splits option.splits)

lemma row_call: "db_call f w = (a, w') \<Longrightarrow>
    (a = None \<and> w_db w' = w_db w \<or> (\<exists>x. f (w_db w) = Some (x, w_db w'))) \<and>
    w_redis w' = w_redis w \<and> w_queue w' = w_queue w"
  by (auto simp: db_call_def next_fault_eq split: fault.splits option.splits)

lemma checked_user_error: "checked_user rq = Inl e \<Longrightarrow> rs_status e \<noteq> 200"
  by (auto simp: checked_user_def answers split: if_splits option.splits)

lemma key_call_done:
  assumes "key_handler err rnd body route rq w = (resp, w')"
  shows "(rs_status resp \<noteq> 200 \<and> w_db w' = w_db w \<or>
      key_effect rnd body (w_now w) (caller_id rq) route (w_db w) = Some (w_db w')) \<and>
    w_redis w' = w_redis w \<and> w_queue w' = w_queue w"
proof (cases route)
  case ListKeys
  with assms show ?thesis
    by (auto simp: listAPIKeysHandler_def dest: query_call split: sum.splits prod.splits option.splits)
next
  case CreateKey
  with assms show ?thesis
    by (auto simp: createAPIKeyHandler_def answers checked_user_error dest!: row_call dest: checked_user_caller
        split: sum.splits prod.splits option.splits)
next
  case DeleteKey
  with assms show ?thesis
    by (auto simp: deleteAPIKeyHandler_def answers dest: update_call split: prod.splits option.splits)
next
  case KeyStatus
  with assms show ?thesis
    by (auto simp: updateAPIKeyStatusHandler_def answers dest: update_call split: prod.splits option.splits if_splits)
next
  case KeyName
  with assms show ?thesis
    by (auto simp: updateAPIKeyNameHandler_def answers dest: update_call split: prod.splits option.splits if_splits)
next
  case RotateKey
  with assms show ?thesis
    by (auto simp: rotateAPIKeyHandler_def answers dest: update_call split: prod.splits option.splits)
qed

section \<open>Keys of other users\<close>

definition others_keys :: "int \<Rightarrow> db \<Rightarrow> api_key_row list" where
  "others_keys uid d = filter (\<lambda>k. k_user k \<noteq> Some uid) (api_keys d)"

lemma others_map: "(\<And>k. k_user (f k) = k_user k) \<Longrightarrow>
    filter (\<lambda>k. k_user k \<noteq> Some uid) (map (\<lambda>k. if named i uid k then f k else k) ks) = filter (\<lambda>k. k_user k \<noteq> Some uid) ks"
  by (induction ks) (auto simp: named_def)

lemma others_filter: "filter (\<lambda>k. \<not> named i uid k \<and> k_user k \<noteq> Some uid) ks = filter (\<lambda>k. k_user k \<noteq> Some uid) ks"
  by (induction ks) (auto simp: named_def)

lemmas key_statements = createAPIKey_def updateAPIKeyStatus_def updateAPIKeyName_def rotateAPIKey_def deleteAPIKey_def

lemma key_effect_others:
  assumes "key_effect rnd body now uid route d = Some d'"
  shows "others_keys uid d' = others_keys uid d"
  using assms
  by (cases route) (auto simp: others_keys_def key_statements Let_def others_map others_filter split: if_splits bind_splits)

lemma key_effect_frame:
  assumes "key_effect rnd body now uid route d = Some d'"
  shows "\<exists>ks n ls. d' = d\<lparr>api_keys := ks, api_key_seq := n, model_failure_logs := ls\<rparr>"
proof -
  have keys: "\<exists>ks' n ls. d\<lparr>api_keys := ks\<rparr> = d\<lparr>api_keys := ks', api_key_seq := n, model_failure_logs := ls\<rparr>" for ks
    by (intro exI [of _ ks] exI [of _ "api_key_seq d"] exI [of _ "model_failure_logs d"]) simp
  have new: "\<exists>ks' n' ls. d\<lparr>api_keys := ks, api_key_seq := n\<rparr> = d\<lparr>api_keys := ks', api_key_seq := n', model_failure_logs := ls\<rparr>"
    for ks n by (intro exI [of _ ks] exI [of _ n] exI [of _ "model_failure_logs d"]) simp
  have gone: "\<exists>ks' n ls'. d\<lparr>api_keys := ks, model_failure_logs := ls\<rparr> = d\<lparr>api_keys := ks', api_key_seq := n, model_failure_logs := ls'\<rparr>"
    for ks ls by (intro exI [of _ ks] exI [of _ "api_key_seq d"] exI [of _ ls]) simp
  have same: "\<exists>ks' n ls'. d = d\<lparr>api_keys := ks', api_key_seq := n, model_failure_logs := ls'\<rparr>"
    by (intro exI [of _ "api_keys d"] exI [of _ "api_key_seq d"] exI [of _ "model_failure_logs d"]) simp
  show ?thesis using assms same keys new gone
    by (cases route) (auto simp: key_statements Let_def split: if_splits bind_splits)
qed

text \<open>
  C28. No call touches the keys of another user. Whatever the body asks for and whatever fails, a call of the
  group leaves the keys of every user but the one in the header as they are, and it changes no table but the
  one of the keys and the references of the failure logs, no balance and no queue; without the internal token
  it is answered with 401 and does nothing.
\<close>

theorem key_isolation:
  "if token \<noteq> '''' \<and> header_get (hr_headers rq) ''Authorization'' = ''Bearer '' @ token
   then others_keys (caller_id rq) (w_db (snd (site_keys token err rnd body route rq w))) = others_keys (caller_id rq) (w_db w) \<and>
     (\<exists>ks n ls. w_db (snd (site_keys token err rnd body route rq w)) =
        (w_db w)\<lparr>api_keys := ks, api_key_seq := n, model_failure_logs := ls\<rparr>) \<and>
     w_redis (snd (site_keys token err rnd body route rq w)) = w_redis w \<and>
     w_queue (snd (site_keys token err rnd body route rq w)) = w_queue w
   else site_keys token err rnd body route rq w = (unauthorized, w)"
proof -
  obtain resp w' where c: "key_handler err rnd body route rq w = (resp, w')" by fastforce
  have "others_keys (caller_id rq) (w_db w') = others_keys (caller_id rq) (w_db w) \<and>
      (\<exists>ks n ls. w_db w' = (w_db w)\<lparr>api_keys := ks, api_key_seq := n, model_failure_logs := ls\<rparr>)"
  proof (cases "w_db w' = w_db w")
    case True
    then show ?thesis using key_effect_frame [of rnd body 0 0 ListKeys "w_db w"] by simp
  next
    case False
    then show ?thesis using key_call_done [OF c] key_effect_others key_effect_frame by blast
  qed
  with key_call_done [OF c] c show ?thesis by (simp add: site_keys_def internalTokenAuth_def)
qed

section \<open>The table of the keys\<close>

text \<open>
  Numbers and key strings are unique, every number has been given out, and no reference to a user or to a key
  hangs in the air.
\<close>

definition keys_wf :: "db \<Rightarrow> bool" where
  "keys_wf d \<longleftrightarrow> distinct (map k_id (api_keys d)) \<and> distinct (map k_string (api_keys d)) \<and>
     list_all (\<lambda>k. k_id k \<le> api_key_seq d) (api_keys d) \<and>
     list_all (\<lambda>k. case k_user k of None \<Rightarrow> True | Some u \<Rightarrow> fk_user u d) (api_keys d) \<and>
     list_all (\<lambda>r. fk_api_key (rl_api_key r) d) (request_logs d) \<and>
     list_all (\<lambda>m. fk_api_key (mf_api_key m) d) (model_failure_logs d)"

lemma fk_api_key_iff: "fk_api_key r d \<longleftrightarrow> (\<forall>i. r = Some i \<longrightarrow> i \<in> k_id ` set (api_keys d))"
  by (auto simp: fk_api_key_def find_None_iff split: option.splits)

lemma fk_user_keys [simp]: "fk_user u (d\<lparr>api_keys := ks\<rparr>) = fk_user u d"
  "fk_user u (d\<lparr>api_key_seq := n\<rparr>) = fk_user u d" "fk_user u (d\<lparr>model_failure_logs := ls\<rparr>) = fk_user u d"
  by (simp_all add: fk_user_def user_of_def)

lemma keys_wf_iff:
  "keys_wf d \<longleftrightarrow> distinct (map k_id (api_keys d)) \<and> distinct (map k_string (api_keys d)) \<and>
     (\<forall>k\<in>set (api_keys d). k_id k \<le> api_key_seq d) \<and>
     (\<forall>k\<in>set (api_keys d). \<forall>u. k_user k = Some u \<longrightarrow> fk_user u d) \<and>
     (\<forall>r\<in>set (request_logs d). \<forall>i. rl_api_key r = Some i \<longrightarrow> i \<in> k_id ` set (api_keys d)) \<and>
     (\<forall>m\<in>set (model_failure_logs d). \<forall>i. mf_api_key m = Some i \<longrightarrow> i \<in> k_id ` set (api_keys d))"
  by (simp add: keys_wf_def list_all_iff fk_api_key_iff split: option.splits)

text \<open>A change of one column of some rows, and what it needs to keep the table sound.\<close>

lemma keys_wf_map:
  assumes "keys_wf d" "\<And>k. k_id (f k) = k_id k" "\<And>k. k_user (f k) = k_user k"
    and "distinct (map (k_string \<circ> f) (api_keys d))"
  shows "keys_wf (d\<lparr>api_keys := map f (api_keys d)\<rparr>)"
  using assms by (simp add: keys_wf_iff image_image comp_def)

lemma rotate_distinct:
  assumes "distinct (map k_string ks)" "distinct (map k_id ks)" "\<not> list_ex (\<lambda>k. k_string k = key \<and> \<not> named i uid k) ks"
  shows "distinct (map (\<lambda>k. if named i uid k then key else k_string k) ks)"
  using assms
proof (induction ks)
  case (Cons k ks)
  have "k_id k \<notin> k_id ` set ks" using Cons.prems(2) by simp
  then have "named i uid k \<Longrightarrow> k' \<in> set ks \<Longrightarrow> \<not> named i uid k'" for k' by (metis image_eqI named_def)
  with Cons show ?case by (auto simp: list_ex_iff image_iff split: if_splits)
qed simp

lemma keys_wf_create:
  assumes "keys_wf d" "createAPIKey now name key uid allowed status tier d = Some (k, d')"
  shows "keys_wf d'"
proof -
  have k: "d' = d\<lparr>api_keys := api_keys d @ [k], api_key_seq := k_id k\<rparr>" "k_id k = api_key_seq d + 1"
    "\<forall>u. k_user k = Some u \<longrightarrow> fk_user u d" "k_id k \<notin> k_id ` set (api_keys d)" "k_string k \<notin> k_string ` set (api_keys d)"
    using assms(2) by (simp_all add: createAPIKey_def Let_def list_ex_iff image_iff split: if_splits option.splits) auto
  have "\<forall>x\<in>set (api_keys d). k_id x \<le> k_id k" using assms(1) k(2) by (auto simp: keys_wf_iff)
  with assms(1) k(2-5) show ?thesis unfolding k(1) by (simp add: keys_wf_iff)
qed

lemma keys_wf_delete:
  assumes "keys_wf d" "deleteAPIKey i uid d = Some d'"
  shows "keys_wf d'"
proof (cases "list_ex (named i uid) (api_keys d)")
  case True
  let ?ks = "filter (\<lambda>k. \<not> named i uid k) (api_keys d)"
  have left: "j \<in> k_id ` set (api_keys d) \<Longrightarrow> j \<noteq> i \<Longrightarrow> j \<in> k_id ` set ?ks" for j by (auto simp: named_def)
  from True assms(2) have free: "\<forall>r\<in>set (request_logs d). rl_api_key r \<noteq> Some i"
    and d': "d' = d\<lparr>api_keys := ?ks, model_failure_logs :=
       map (\<lambda>m. if mf_api_key m = Some i then m\<lparr>mf_api_key := None\<rparr> else m) (model_failure_logs d)\<rparr>"
    by (auto simp: deleteAPIKey_def list_ex_iff split: if_splits)
  note wf = assms(1) [unfolded keys_wf_iff]
  have "j \<in> k_id ` set ?ks" if "r \<in> set (request_logs d)" "rl_api_key r = Some j" for r j
    by (rule left) (use wf free that in \<open>blast, force\<close>)
  moreover have "j \<in> k_id ` set ?ks" if "m \<in> set (model_failure_logs d)" "mf_api_key m = Some j" "j \<noteq> i" for m j
    by (rule left) (use wf that in blast)+
  ultimately show ?thesis using wf by (auto simp add: keys_wf_iff d' distinct_map_filter simp del: set_filter
        dest: subsetD [OF filter_is_subset] split: if_splits)
qed (use assms in \<open>simp add: deleteAPIKey_def\<close>)

lemma key_effect_wf:
  assumes "keys_wf d" "key_effect rnd body now uid route d = Some d'"
  shows "keys_wf d'"
proof -
  have strings: "distinct (map k_string (api_keys d))" "distinct (map k_id (api_keys d))"
    using assms(1) by (simp_all add: keys_wf_def)
  have keep: "keys_wf (d\<lparr>api_keys := map (\<lambda>k. if named i uid k then f k else k) (api_keys d)\<rparr>)"
    if "\<And>k. k_id (f k) = k_id k \<and> k_user (f k) = k_user k \<and> k_string (f k) = k_string k" for i f
    by (rule keys_wf_map [OF assms(1)]) (use that strings in \<open>simp_all add: comp_def if_distrib [of k_string] cong: if_cong\<close>)
  have rotate: "keys_wf (d\<lparr>api_keys := map (\<lambda>k. if named i uid k then k\<lparr>k_string := key\<rparr> else k) (api_keys d)\<rparr>)"
    if "\<not> list_ex (named i uid) (api_keys d) \<or> \<not> list_ex (\<lambda>k. k_string k = key \<and> \<not> named i uid k) (api_keys d)" for i key
  proof (cases "list_ex (named i uid) (api_keys d)")
    case True
    with that rotate_distinct [OF strings] show ?thesis
      by (intro keys_wf_map [OF assms(1)]) (simp_all add: comp_def if_distrib [of k_string] cong: if_cong)
  next
    case False
    then have "map (\<lambda>k. if named i uid k then k\<lparr>k_string := key\<rparr> else k) (api_keys d) = api_keys d"
      by (auto simp: list_ex_iff intro: map_idI)
    with assms(1) show ?thesis by simp
  qed
  show ?thesis
  proof (cases route)
    case ListKeys
    with assms show ?thesis by simp
  next
    case CreateKey
    with assms show ?thesis by (auto dest: keys_wf_create split: bind_splits)
  next
    case DeleteKey
    with assms show ?thesis by (auto dest: keys_wf_delete split: bind_splits)
  next
    case KeyStatus
    with assms keep show ?thesis by (auto simp: updateAPIKeyStatus_def split: bind_splits)
  next
    case KeyName
    with assms keep show ?thesis by (auto simp: updateAPIKeyName_def split: bind_splits if_splits)
  next
    case RotateKey
    with assms rotate show ?thesis by (auto simp: rotateAPIKey_def split: bind_splits if_splits)
  qed
qed

lemma key_effect_seq: "key_effect rnd body now uid route d = Some d' \<Longrightarrow> api_key_seq d \<le> api_key_seq d'"
  by (cases route) (auto simp: key_statements Let_def split: bind_splits if_splits)

type_synonym key_call = "string \<times> 8 word list \<times> string \<times> key_route \<times> http_request"

definition key_step :: "string \<Rightarrow> key_call \<Rightarrow> 'r world \<Rightarrow> 'r world" where
  "key_step token c w = (case c of (err, rnd, body, route, rq) \<Rightarrow> snd (site_keys token err rnd body route rq w))"

lemma key_step_wf:
  assumes "keys_wf (w_db w)"
  shows "keys_wf (w_db (key_step token c w)) \<and> api_key_seq (w_db w) \<le> api_key_seq (w_db (key_step token c w))"
proof -
  obtain err rnd body route rq where c: "c = (err, rnd, body, route, rq)" by (cases c)
  obtain resp w' where h: "key_handler err rnd body route rq w = (resp, w')" by fastforce
  have "keys_wf (w_db w')" "api_key_seq (w_db w) \<le> api_key_seq (w_db w')"
    using key_call_done [OF h] key_effect_wf [OF assms] key_effect_seq assms by auto
  with assms c h show ?thesis by (simp add: key_step_def site_keys_def internalTokenAuth_def)
qed

text \<open>
  C32. The table of the keys stays sound: no two keys share a number or a key string, the numbers given out
  only grow, and every reference from a log to a key and from a key to a user is met, after any run of calls,
  in any order, with any bodies, and whatever fails.
\<close>

theorem keys_stay_sound:
  assumes "keys_wf (w_db w)"
  shows "keys_wf (w_db (fold (key_step token) cs w)) \<and> api_key_seq (w_db w) \<le> api_key_seq (w_db (fold (key_step token) cs w))"
  using assms
proof (induction cs arbitrary: w)
  case (Cons c cs)
  with key_step_wf [OF Cons.prems, of token c] show ?case by (force intro: order_trans)
qed simp

section \<open>What a key opens\<close>

fun revokes :: "8 word list \<Rightarrow> string \<Rightarrow> key_route \<Rightarrow> api_key_row \<Rightarrow> bool" where
  "revokes rnd body DeleteKey k \<longleftrightarrow> decode_id body = Some (k_id k)"
| "revokes rnd body KeyStatus k \<longleftrightarrow> (case decode_status body of None \<Rightarrow> False | Some (i, s) \<Rightarrow> i = k_id k \<and> s \<noteq> ''active'')"
| "revokes rnd body RotateKey k \<longleftrightarrow> decode_id body = Some (k_id k) \<and> generateAPIKey rnd \<noteq> k_string k"
| "revokes rnd body _ k \<longleftrightarrow> False"

lemma site_keys_ok:
  assumes "site_keys token err rnd body route rq w = (resp, w')" "rs_status resp = 200"
  shows "key_handler err rnd body route rq w = (resp, w')"
  using assms by (auto simp: site_keys_def internalTokenAuth_def unauthorized_def split: if_splits)

lemma revoked_effect:
  assumes "keys_wf d" "k \<in> set (api_keys d)" "k_user k = Some uid" "revokes rnd body route k"
    and "key_effect rnd body now uid route d = Some d'" "x \<in> set (api_keys d')"
  shows "k_string x \<noteq> k_string k \<or> k_status x \<noteq> Some 1"
proof -
  have own: "y = k" if "y \<in> set (api_keys d)" "k_string y = k_string k" for y
    using assms(1,2) that by (auto simp: keys_wf_def distinct_map dest: inj_onD)
  have k: "named (k_id k) uid k" using assms(3) by (simp add: named_def)
  then have other: "k_string y \<noteq> k_string k" if "y \<in> set (api_keys d)" "\<not> named (k_id k) uid y" for y
    using own that by blast
  show ?thesis using assms(4-6) k other
    by (cases route)
      (auto simp: updateAPIKeyStatus_def deleteAPIKey_def rotateAPIKey_def list_ex_iff assms(2)
        split: bind_splits if_splits option.splits)
qed

lemma no_row_no_user: "(\<And>x. x \<in> set (api_keys d) \<Longrightarrow> k_string x \<noteq> key \<or> k_status x \<noteq> Some 1) \<Longrightarrow> getUserByAPIKey key d = None"
proof -
  assume "\<And>x. x \<in> set (api_keys d) \<Longrightarrow> k_string x \<noteq> key \<or> k_status x \<noteq> Some 1"
  then have "find (\<lambda>k. k_string k = key \<and> k_status k = Some 1) (api_keys d) = None" by (auto simp: find_None_iff)
  then show "getUserByAPIKey key d = None" by (simp add: getUserByAPIKey_def)
qed

text \<open>
  C27. A revoked key opens nothing. Once a user's call to delete, to disable or to rotate a key of the user's own
  has been answered with 200, and for as long as the table of the keys stays so, a request with the old key
  string is answered by the gateway with 401 whatever fails; the next stage is not called, and no balance, table
  or queue changes.
\<close>

theorem revoked_key_rejected:
  assumes "keys_wf (w_db w)" "k \<in> set (api_keys (w_db w))" "k_user k = Some (caller_id rq)" "revokes rnd body route k"
    and "site_keys token err rnd body route rq w = (resp, w')" "rs_status resp = 200"
    and "api_keys (w_db w2) = api_keys (w_db w')"
    and "trim_prefix (header_get (hr_headers rq2) ''Authorization'') ''Bearer '' = k_string k"
  shows "\<exists>resp2 w3. (\<forall>nxt. authAndPreDeductMiddleware R tok logging nxt rq2 w2 = (resp2, w3)) \<and> rs_status resp2 = 401 \<and>
    w_redis w3 = w_redis w2 \<and> w_db w3 = w_db w2 \<and> w_queue w3 = w_queue w2"
proof (rule auth_needs_active_key)
  have "key_effect rnd body (w_now w) (caller_id rq) route (w_db w) = Some (w_db w')"
    using key_call_done [OF site_keys_ok [OF assms(5,6)]] assms(6) by simp
  then show "getUserByAPIKey (trim_prefix (header_get (hr_headers rq2) ''Authorization'') ''Bearer '') (w_db w2) = None"
    unfolding assms(8) using revoked_effect [OF assms(1-4)] assms(7) by (intro no_row_no_user) simp
qed

lemma find_append_new: "(\<And>x. x \<in> set xs \<Longrightarrow> \<not> P x) \<Longrightarrow> P y \<Longrightarrow> find P (xs @ [y]) = Some y"
  by (induction xs) auto

lemma find_narrower: "find P xs = Some x \<Longrightarrow> Q x \<Longrightarrow> (\<And>y. Q y \<Longrightarrow> P y) \<Longrightarrow> find Q xs = Some x"
  by (induction xs) (auto split: if_splits)

lemma active_user_found:
  "user_of d uid = Some u \<Longrightarrow> u_status u = Some 1 \<Longrightarrow> find (\<lambda>u. uid = u_id u \<and> u_status u = Some 1) (users d) = Some u"
  unfolding user_of_def by (rule find_narrower [where P = "\<lambda>u. u_id u = uid"]) (auto simp: find_Some_iff)

text \<open>
  C31. A created key opens the account of the user it was created for. When the call is answered with 200, the
  answer carries the key string that was made of the random bytes, with its number; a request with this string
  is one of that user, as long as the user is active, and no estimate goes beyond the quota of the key.
\<close>

theorem created_key_opens:
  assumes "site_keys token err rnd body CreateKey rq w = (resp, w')" "rs_status resp = 200"
    and "user_of (w_db w) (caller_id rq) = Some u" "u_status u = Some 1"
  shows "\<exists>k. resp = created_answer k \<and> k_string k = generateAPIKey rnd \<and> k_id k = api_key_seq (w_db w) + 1 \<and>
    getUserByAPIKey (generateAPIKey rnd) (w_db w') = Some (u, k) \<and> (\<forall>cost. \<not> over_quota k cost)"
proof -
  note h = site_keys_ok [OF assms(1,2)]
  obtain name ms k where "decode_create body = Some (name, ms)" "resp = created_answer k"
    and c: "createAPIKey (w_now w) (if name = '''' then ''New API Key'' else name) (generateAPIKey rnd)
      (Some (caller_id rq)) (JList (map JStr ms)) (Some 1) (Some 0) (w_db w) = Some (k, w_db w')"
    using h assms(2)
    by (auto simp: createAPIKeyHandler_def answers checked_user_error db_call_def next_fault_eq dest!: checked_user_caller
        split: sum.splits option.splits prod.splits fault.splits)
  moreover have w': "w_db w' = (w_db w)\<lparr>api_keys := api_keys (w_db w) @ [k], api_key_seq := k_id k\<rparr>"
    and k: "k_user k = Some (caller_id rq)" "k_string k = generateAPIKey rnd" "k_status k = Some 1"
      "k_id k = api_key_seq (w_db w) + 1" "k_quota_limit k = Some 0"
      "\<forall>x\<in>set (api_keys (w_db w)). k_string x \<noteq> generateAPIKey rnd"
    using c by (simp_all add: createAPIKey_def Let_def list_ex_iff split: if_splits option.splits) auto
  moreover have "find (\<lambda>k. k_string k = generateAPIKey rnd \<and> k_status k = Some 1) (api_keys (w_db w')) = Some k"
    using k by (simp add: w' find_append_new)
  ultimately show ?thesis using active_user_found [OF assms(3,4)]
    by (auto simp: getUserByAPIKey_def over_quota_def)
qed

text \<open>The text of a key always fits its column, and only the same bytes give the same key.\<close>

lemma hex_digit_code: "n < 16 \<Longrightarrow> of_char (hex_digit n) = (if n < 10 then 48 + n else 87 + n)"
  by (simp add: hex_digit_def of_char_of)

lemma byte_small: "unat (z :: 8 word) < 256"
proof -
  have "unat z < 2 ^ LENGTH(8)" by (rule unsigned_less)
  then show ?thesis by simp
qed

lemma hex_digit_inject:
  assumes "m < 16" "n < 16"
  shows "hex_digit m = hex_digit n \<longleftrightarrow> m = n"
proof
  assume "hex_digit m = hex_digit n"
  then have "of_char (hex_digit m) = (of_char (hex_digit n) :: nat)" by simp
  then show "m = n" using assms by (simp add: hex_digit_code split: if_splits)
qed simp

lemma generated_key_length: "length (generateAPIKey rnd) = 3 + 2 * length rnd"
  unfolding generateAPIKey_def by (induction rnd) (simp_all add: hex_byte_def)

lemma generated_key_text: "no_nul (generateAPIKey rnd)" "length rnd \<le> 30 \<Longrightarrow> fits 64 (generateAPIKey rnd)"
proof -
  have "of_char (hex_digit n) \<noteq> (0::nat)" if "n < 16" for n using hex_digit_code [OF that] by (simp split: if_splits)
  moreover have "unat b div 16 < 16" for b :: "8 word" using byte_small [of b] by simp
  ultimately have "list_all (\<lambda>c. (of_char c :: nat) \<noteq> 0) (hex_byte b)" for b by (simp add: hex_byte_def)
  then have "list_all (\<lambda>c. (of_char c :: nat) \<noteq> 0) (concat (map hex_byte rnd))" by (induction rnd) simp_all
  then show "no_nul (generateAPIKey rnd)" by (simp add: no_nul_def generateAPIKey_def)
  show "length rnd \<le> 30 \<Longrightarrow> fits 64 (generateAPIKey rnd)"
    unfolding fits_def by (intro order_trans [OF length_filter_le]) (simp add: generated_key_length)
qed

lemma generateAPIKey_inject: "generateAPIKey a = generateAPIKey b \<longleftrightarrow> a = b"
proof -
  have byte: "hex_byte x = hex_byte y \<longleftrightarrow> x = y" for x y
  proof -
    have "unat x div 16 < 16" "unat y div 16 < 16" using byte_small [of x] byte_small [of y] by simp_all
    moreover have "unat x = unat y" if "unat x div 16 = unat y div 16" "unat x mod 16 = unat y mod 16"
      using that by (metis div_mult_mod_eq)
    ultimately show ?thesis by (auto simp: hex_byte_def hex_digit_inject word_unat_eq_iff)
  qed
  have "concat (map hex_byte a) = concat (map hex_byte b) \<longleftrightarrow> a = b"
  proof (induction a arbitrary: b)
    case Nil
    show ?case by (cases b) (simp_all add: hex_byte_def)
  next
    case (Cons x a)
    have "length (hex_byte y) = 2" for y by (simp add: hex_byte_def)
    with Cons byte show ?case by (cases b) (simp_all, simp add: hex_byte_def)
  qed
  then show ?thesis by (simp add: generateAPIKey_def)
qed

section \<open>Instances\<close>

definition witness_caller :: http_request where
  "witness_caller = \<lparr>hr_scheme = '''', hr_host = '''', hr_path = '''', hr_query = '''',
     hr_headers = [(''authorization'', ''Bearer t''), (''x-internal-user-id'', ''7'')], hr_body = NilBody, hr_ctx = empty_ctx\<rparr>"

definition witness_id_body :: string where
  "witness_id_body = (let q = char_of (34::nat) in ''{'' @ [q] @ ''id'' @ [q] @ '':5}'')"

definition witness_keys :: "keyspace world" where
  "witness_keys = witness_world [] (empty_db\<lparr>users := [witness_user 7 (0, 0, 100)], api_keys := [witness_key],
     api_key_seq := 5\<rparr>) []"

lemma witness_caller_id: "caller_id witness_caller = 7" "checked_user witness_caller = Inr 7"
proof -
  have h: "user_header witness_caller = ''7''" by (simp add: user_header_def witness_caller_def header_get_def) code_simp
  have "parse_int 32 ''7'' = Some 7" by code_simp
  then show "caller_id witness_caller = 7" "checked_user witness_caller = Inr 7"
    by (simp_all add: caller_id_def checked_user_def h parse_clamped_exact)
qed

lemma witness_bodies: "decode_id witness_id_body = Some 5" "decode_create ''{}'' = Some ('''', [])"
  by code_simp+

lemma witness_keys_wf: "keys_wf (w_db witness_keys)" "w_faults witness_keys = []" "w_now witness_keys = 1000"
  by (simp_all add: keys_wf_def witness_keys_def witness_key_def fk_user_def user_of_def witness_user_def empty_db_def)
    (simp add: witness_world_def)

lemma witness_delete:
  "site_keys ''t'' '''' [] witness_id_body DeleteKey witness_caller witness_keys =
     (plain_success, witness_keys\<lparr>w_db := (w_db witness_keys)\<lparr>api_keys := []\<rparr>\<rparr>)"
proof -
  have "deleteAPIKey 5 7 (w_db witness_keys) = Some ((w_db witness_keys)\<lparr>api_keys := []\<rparr>)"
    by (simp add: deleteAPIKey_def named_def witness_keys_def witness_key_def empty_db_def)
  moreover have "header_get (hr_headers witness_caller) ''Authorization'' = ''Bearer t''"
    by (simp add: witness_caller_def header_get_def) code_simp
  ultimately show ?thesis
    by (simp add: site_keys_def internalTokenAuth_def deleteAPIKeyHandler_def witness_bodies witness_caller_id witness_keys_wf)
qed

theorem revoked_key_rejected_witness:
  "\<exists>resp w3. (\<forall>nxt. authAndPreDeductMiddleware mem_redis (\<lambda>_. None) True nxt (chat_http ''sk-1'')
      (snd (site_keys ''t'' '''' [] witness_id_body DeleteKey witness_caller witness_keys)) = (resp, w3)) \<and> rs_status resp = 401"
proof -
  have k: "witness_key \<in> set (api_keys (w_db witness_keys))" "k_user witness_key = Some (caller_id witness_caller)"
    "revokes [] witness_id_body DeleteKey witness_key"
    by (simp_all add: witness_keys_def witness_key_def witness_caller_id witness_bodies)
  have "trim_prefix (header_get (hr_headers (chat_http ''sk-1'')) ''Authorization'') ''Bearer '' = k_string witness_key"
    by (simp add: witness_key_def witness_request)
  from revoked_key_rejected [OF witness_keys_wf(1) k witness_delete _ refl this] show ?thesis
    unfolding witness_delete by (fastforce simp: answers)
qed


theorem keys_stay_sound_witness:
  "keys_wf (w_db (fold (key_step ''t'') [('''', [], witness_id_body, DeleteKey, witness_caller),
     ('''', [0, 171], ''{}'', CreateKey, witness_caller)] witness_keys))"
  by (rule conjunct1 [OF keys_stay_sound [OF witness_keys_wf(1)]])

lemma witness_create:
  "createAPIKey 1000 ''New API Key'' (generateAPIKey (replicate 12 171)) (Some 7) (JList []) (Some 1) (Some 0) (w_db witness_keys) \<noteq> None"
proof -
  have "fits 50 ''New API Key''" "no_nul ''New API Key''" by (simp_all add: fits_def no_nul_def)
  moreover have "generateAPIKey (replicate 12 171) \<noteq> ''sk-1''"
    using generated_key_length [of "replicate 12 171"] by auto
  ultimately show ?thesis using generated_key_text [of "replicate 12 171"]
    by (simp add: createAPIKey_def Let_def witness_keys_def witness_key_def fk_user_def user_of_def witness_user_def
        empty_db_def in_i32_def)
qed

theorem created_key_opens_witness:
  "\<exists>k. getUserByAPIKey (generateAPIKey (replicate 12 171)) (w_db (snd (site_keys ''t'' '''' (replicate 12 171) ''{}'' CreateKey
      witness_caller witness_keys))) = Some (witness_user 7 (0, 0, 100), k) \<and> k_id k = 6"
proof -
  obtain resp w' where s: "site_keys ''t'' '''' (replicate 12 171) ''{}'' CreateKey witness_caller witness_keys = (resp, w')" by fastforce
  have "header_get (hr_headers witness_caller) ''Authorization'' = ''Bearer t''"
    by (simp add: witness_caller_def header_get_def) code_simp
  with s have "rs_status resp = 200" using witness_create
    by (auto simp: site_keys_def internalTokenAuth_def createAPIKeyHandler_def witness_bodies witness_caller_id witness_keys_wf
        answers split: option.splits)
  from created_key_opens [OF s this, of "witness_user 7 (0, 0, 100)"] s show ?thesis
    by (auto simp: witness_caller_id witness_keys_def user_of_def witness_user_def)
qed

text \<open>Rotating, switching or deleting a key that is not the caller's answers success and changes nothing.\<close>

lemma foreign_key_success:
  assumes "\<not> list_ex (named i uid) (api_keys d)"
  shows "rotateAPIKey (generateAPIKey rnd) i uid d = Some d" "deleteAPIKey i uid d = Some d"
    "updateAPIKeyStatus s i uid d = Some d"
proof -
  have "map (\<lambda>k. if named i uid k then f k else k) (api_keys d) = api_keys d" for f
    using assms by (auto simp: list_ex_iff intro: map_idI)
  then show "rotateAPIKey (generateAPIKey rnd) i uid d = Some d" "deleteAPIKey i uid d = Some d"
    "updateAPIKeyStatus s i uid d = Some d"
    using assms generated_key_text by (simp_all add: rotateAPIKey_def deleteAPIKey_def updateAPIKeyStatus_def)
qed

text \<open>A key that a request has been logged for cannot be deleted any more.\<close>

lemma used_key_stays:
  assumes "k \<in> set (api_keys (w_db w))" "k_user k = Some (caller_id rq)" "r \<in> set (request_logs (w_db w))"
    "rl_api_key r = Some (k_id k)" "decode_id body = Some (k_id k)"
  shows "rs_status (fst (deleteAPIKeyHandler body rq w)) = 500 \<and> w_db (snd (deleteAPIKeyHandler body rq w)) = w_db w"
proof -
  have "deleteAPIKey (k_id k) (caller_id rq) (w_db w) = None"
    using assms(1-4) by (auto simp: deleteAPIKey_def list_ex_iff named_def)
  with assms(5) show ?thesis
    by (auto simp: deleteAPIKeyHandler_def answers dest!: update_call split: prod.splits option.splits)
qed

end
