(* ===== verification/Catalog.thy ===== *)
theory Catalog
  imports Keys Http
begin

text \<open>
  internal/api/admin/channel.go, channel_runtime.go and model.go: the handlers with which an administrator
  changes the channels and the models, and their statements; notifyConfigRefresh of base.go and
  internal/config/sync.go, which carry a change into the memory of the gateway. \<open>jsonb_text\<close> is the text that
  PostgreSQL gives for a jsonb value.
\<close>

section \<open>Single precision\<close>

text \<open>
  A multiplier is a float32: a decimal is rounded once, to 24 bits. Shifted by 29 bits a number has as many
  bits beyond 53 as it has beyond 24.
\<close>

definition round24 :: "nat \<Rightarrow> nat" where
  "round24 n = (let b = 2 ^ excess (n * 2 ^ 29) in half_even n b * b)"

definition rnd24 :: "int \<Rightarrow> int" where
  "rnd24 x = sgn x * int (round24 (nat \<bar>x\<bar>))"

definition dec_f32 :: "int \<Rightarrow> int \<Rightarrow> f64" where
  "dec_f32 d e =
     (if 0 \<le> e then F64 (rnd24 (d * 10 ^ nat e)) 0
      else let p = 10 ^ nat (- e); s = 4 * nat (- e) + 64; n = \<bar>d\<bar> * 2 ^ s in
           F64 (rnd24 (sgn d * (2 * (n div p) + (if n mod p = 0 then 0 else 1)))) (- int s - 1))"

definition f32_finite :: "int \<Rightarrow> int \<Rightarrow> bool" where
  "f32_finite d e = (let top = 2 ^ 128 - 2 ^ 103 in
     if 0 \<le> e then \<bar>d\<bar> * 10 ^ nat e < top else \<bar>d\<bar> < top * 10 ^ nat (- e))"

fun json_f32 :: "json \<Rightarrow> f64 option" where
  "json_f32 (JNum d e) = (if f32_finite d e then Some (dec_f32 d e) else None)"
| "json_f32 _ = None"

definition f32_field :: "(string \<times> json) list \<Rightarrow> string \<Rightarrow> f64 option" where
  "f32_field kvs k = read_into json_f32 (F64 0 0) (matching kvs k)"

text \<open>
  The text of a float32 is the shortest decimal that reads back as it: with the highest power of ten, and of
  the two neighbours the nearer. The search goes down from \<open>10 ^ k\<close>; a float32 has at most nine digits.
\<close>

fun same_value :: "f64 \<Rightarrow> f64 \<Rightarrow> bool" where
  "same_value (F64 a e) (F64 b g) \<longleftrightarrow> a * 2 ^ nat (e - min e g) = b * 2 ^ nat (g - min e g)"

text \<open>Ten times the value in units of \<open>10 ^ k\<close>, cut.\<close>

fun decimal_tenths :: "f64 \<Rightarrow> int \<Rightarrow> int" where
  "decimal_tenths (F64 m e) k =
     (let num = \<bar>m\<bar> * 2 ^ nat e * 10 ^ nat (1 - k); den = 2 ^ nat (- e) * 10 ^ nat (k - 1) in num div den)"

fun shortest_from :: "nat \<Rightarrow> int \<Rightarrow> f64 \<Rightarrow> int \<times> int" where
  "shortest_from 0 k x = (sgn (f64_mant x) * (decimal_tenths x k div 10), k)"
| "shortest_from (Suc n) k x =
     (let t = decimal_tenths x k; lo = t div 10; s = sgn (f64_mant x);
          near = (if t mod 10 < 5 then lo else lo + 1); far = (if t mod 10 < 5 then lo + 1 else lo) in
      if same_value (dec_f32 (s * near) k) x then (s * near, k)
      else if same_value (dec_f32 (s * far) k) x then (s * far, k)
      else shortest_from n (k - 1) x)"

definition f32_json :: "f64 \<Rightarrow> json" where
  "f32_json x = (if f64_mant x = 0 then JNum 0 0
     else case shortest_from 100 39 x of (d, k) \<Rightarrow> if 0 \<le> k then JNum (d * 10 ^ nat k) 0 else JNum d k)"

section \<open>Statements\<close>

definition text_ok :: "nat \<Rightarrow> string \<Rightarrow> bool" where
  "text_ok n s \<longleftrightarrow> no_nul s \<and> fits n s"

definition channel_ok :: "channel_row \<Rightarrow> bool" where
  "channel_ok c \<longleftrightarrow> text_ok 50 (c_name c) \<and> text_ok 20 (c_provider c) \<and> text_ok 255 (c_base_url c) \<and>
     text_ok 255 (c_api_key c) \<and> no_nul (c_models c) \<and> text_ok 20 (c_protocol c) \<and> text_ok 20 (c_upload_mode c) \<and>
     jsonb_ok (c_model_mapping c)"

definition createChannel :: "channel_row \<Rightarrow> db \<Rightarrow> (channel_row \<times> db) option" where
  "createChannel c d =
     (let r = c\<lparr>c_id := channel_seq d + 1\<rparr> in
      if channel_ok r \<and> in_i32 (c_id r) \<and> \<not> list_ex (\<lambda>x. c_id x = c_id r) (channels d)
      then Some (r, d\<lparr>channels := channels d @ [r], channel_seq := c_id r\<rparr>) else None)"

text \<open>A \<open>:one\<close> query that changes no row is an error.\<close>

definition updateChannel :: "channel_row \<Rightarrow> db \<Rightarrow> (channel_row \<times> db) option" where
  "updateChannel c d =
     (if channel_ok c \<and> list_ex (\<lambda>x. c_id x = c_id c) (channels d)
      then Some (c, d\<lparr>channels := map (\<lambda>x. if c_id x = c_id c then c else x) (channels d)\<rparr>) else None)"

text \<open>Billing logs, request logs and tasks keep a channel; its failure logs go with it.\<close>

definition deleteChannel :: "int \<Rightarrow> db \<Rightarrow> db option" where
  "deleteChannel i d =
     (if list_ex (\<lambda>x. c_id x = i) (channels d) \<and>
         (list_ex (\<lambda>b. bl_channel b = Some i) (billing_logs d) \<or> list_ex (\<lambda>r. rl_channel r = Some i) (request_logs d) \<or>
          list_ex (\<lambda>t. at_channel t = Some i) (async_tasks d))
      then None
      else Some (d\<lparr>channels := filter (\<lambda>x. c_id x \<noteq> i) (channels d),
             channel_failure_logs := filter (\<lambda>f. cf_channel f \<noteq> i) (channel_failure_logs d)\<rparr>))"

definition listAllChannels :: "db \<Rightarrow> channel_row list" where
  "listAllChannels d = sort_key (\<lambda>c. - c_id c) (channels d)"

definition model_ok :: "model_row \<Rightarrow> bool" where
  "model_ok m \<longleftrightarrow> text_ok 50 (m_name m) \<and> text_ok 20 (m_billing_policy m) \<and> text_ok 20 (m_modality m) \<and>
     text_ok 20 (m_pricing_mode m) \<and> jsonb_ok (m_pricing_config m)"

definition createModel :: "model_row \<Rightarrow> db \<Rightarrow> (model_row \<times> db) option" where
  "createModel m d =
     (let r = m\<lparr>m_id := model_seq d + 1\<rparr> in
      if model_ok r \<and> in_i32 (m_id r) \<and> \<not> list_ex (\<lambda>x. m_id x = m_id r \<or> m_name x = m_name r) (models d)
      then Some (r, d\<lparr>models := models d @ [r], model_seq := m_id r\<rparr>) else None)"

text \<open>The row keeps its number and its name.\<close>

definition updateModel :: "model_row \<Rightarrow> db \<Rightarrow> (model_row \<times> db) option" where
  "updateModel m d =
     (case find (\<lambda>x. m_name x = m_name m) (models d) of
        None \<Rightarrow> None
      | Some x \<Rightarrow>
          if model_ok m
          then Some (m\<lparr>m_id := m_id x\<rparr>,
                 d\<lparr>models := map (\<lambda>x. if m_name x = m_name m then m\<lparr>m_id := m_id x\<rparr> else x) (models d)\<rparr>)
          else None)"

definition deleteModel :: "string \<Rightarrow> db \<Rightarrow> db option" where
  "deleteModel name d = (if no_nul name then Some (d\<lparr>models := filter (\<lambda>x. m_name x \<noteq> name) (models d)\<rparr>) else None)"

text \<open>The order of the names is that of the database's collation, an argument.\<close>

definition listAllModelsForAdmin :: "(string \<Rightarrow> int) \<Rightarrow> db \<Rightarrow> model_row list" where
  "listAllModelsForAdmin rank d = sort_key (\<lambda>m. rank (m_name m)) (models d)"

section \<open>Rows as answers\<close>

text \<open>A field of bytes is written in base 64, so that a jsonb column arrives as a string.\<close>

definition opt_num :: "int option \<Rightarrow> json" where
  "opt_num n = (case n of None \<Rightarrow> JNull | Some v \<Rightarrow> JNum v 0)"

definition channel_json :: "(json \<Rightarrow> string) \<Rightarrow> channel_row \<Rightarrow> json" where
  "channel_json jsonb_text c = JObj [(''id'', JNum (c_id c) 0), (''name'', JStr (c_name c)), (''provider'', JStr (c_provider c)),
     (''baseUrl'', JStr (c_base_url c)), (''apiKey'', JStr (c_api_key c)), (''models'', JStr (c_models c)),
     (''protocolType'', JStr (c_protocol c)), (''uploadMode'', JStr (c_upload_mode c)),
     (''modelMapping'', JStr (base64_encode (jsonb_text (c_model_mapping c)))),
     (''supportsAsync'', JBool (c_supports_async c)), (''weight'', opt_num (c_weight c)), (''status'', opt_num (c_status c))]"

definition model_json :: "(json \<Rightarrow> string) \<Rightarrow> model_row \<Rightarrow> json" where
  "model_json jsonb_text m = JObj [(''id'', JNum (m_id m) 0), (''modelName'', JStr (m_name m)),
     (''inputPriceCents'', JNum (m_input_price m) 0), (''outputPriceCents'', JNum (m_output_price m) 0),
     (''cacheHitPriceCents'', JNum (m_cache_hit_price m) 0), (''cacheMissPriceCents'', JNum (m_cache_miss_price m) 0),
     (''multiplier'', f32_json (m_multiplier m)), (''billingPolicy'', JStr (m_billing_policy m)),
     (''modality'', JStr (m_modality m)), (''pricingMode'', JStr (m_pricing_mode m)),
     (''pricingConfig'', JStr (base64_encode (jsonb_text (m_pricing_config m)))),
     (''maxConcurrency'', JNum (m_max_concurrency m) 0), (''status'', opt_num (m_status m))]"

text \<open>No rows are a nil slice, which is written as null.\<close>

definition rows_json :: "json list \<Rightarrow> json" where
  "rows_json xs = (if xs = [] then JNull else JList xs)"

section \<open>Decoding\<close>

definition rawJSONOrDefault :: "json option \<Rightarrow> json" where
  "rawJSONOrDefault raw = (case raw of None \<Rightarrow> empty_object | Some j \<Rightarrow> if j = JNull then empty_object else j)"

definition text_default :: "string \<Rightarrow> string \<Rightarrow> string" where
  "text_default d s = (if s = '''' then d else s)"

definition decode_channel :: "int \<Rightarrow> string \<Rightarrow> channel_row option" where
  "decode_channel i body =
     (case payload_members (first_value body) of None \<Rightarrow> None | Some kvs \<Rightarrow>
      case (str_field kvs ''name'', str_field kvs ''provider'', str_field kvs ''baseUrl'', str_field kvs ''apiKey'',
            i32_field kvs ''weight'', str_field kvs ''models'', str_field kvs ''protocolType'',
            str_field kvs ''uploadMode'', bool_field kvs ''supportsAsync'', i32_field kvs ''status'') of
        (Some name, Some provider, Some url, Some key, Some weight, Some ms, Some protocol, Some mode, Some async, Some status) \<Rightarrow>
          Some \<lparr>c_id = i, c_name = name, c_provider = provider, c_base_url = url, c_api_key = key, c_models = ms,
            c_protocol = text_default ''openai'' protocol, c_upload_mode = text_default ''url'' mode,
            c_model_mapping = rawJSONOrDefault (raw_field kvs ''modelMapping''), c_supports_async = async,
            c_weight = Some weight, c_status = Some status\<rparr>
      | _ \<Rightarrow> None)"

text \<open>With \<open>None\<close> for the name of the path the body has one.\<close>

definition decode_model :: "string option \<Rightarrow> string \<Rightarrow> model_row option" where
  "decode_model path body =
     (case payload_members (first_value body) of None \<Rightarrow> None | Some kvs \<Rightarrow>
      case (case path of None \<Rightarrow> str_field kvs ''modelName'' | Some n \<Rightarrow> Some n,
            int_field kvs ''inputPriceCents'', int_field kvs ''outputPriceCents'', int_field kvs ''cacheHitPriceCents'',
            int_field kvs ''cacheMissPriceCents'', f32_field kvs ''multiplier'', str_field kvs ''billingPolicy'',
            str_field kvs ''modality'', str_field kvs ''pricingMode'', i32_field kvs ''maxConcurrency'', i32_field kvs ''status'') of
        (Some name, Some inp, Some out, Some hit, Some miss, Some mult, Some policy, Some modality, Some mode, Some conc, Some status) \<Rightarrow>
          Some \<lparr>m_id = 0, m_name = name, m_input_price = inp, m_output_price = out, m_cache_hit_price = hit,
            m_cache_miss_price = miss, m_multiplier = mult, m_billing_policy = text_default ''both'' policy,
            m_modality = text_default ''text'' modality, m_pricing_mode = text_default ''token'' mode,
            m_pricing_config = rawJSONOrDefault (raw_field kvs ''pricingConfig''), m_max_concurrency = conc,
            m_status = Some status\<rparr>
      | _ \<Rightarrow> None)"

section \<open>Handlers\<close>

text \<open>
  Besides its answer a handler says whether a refresh has been published; an error of the publication is
  ignored, and a lost reply may have been delivered or not.
\<close>

type_synonym 'r catalog_handler = "'r world \<Rightarrow> (response \<times> bool) \<times> 'r world"

definition notifyConfigRefresh :: "'r world \<Rightarrow> bool \<times> 'r world" where
  "notifyConfigRefresh w = (case next_fault w of (f, w1) \<Rightarrow> (f \<noteq> Refused, w1))"

definition and_notify :: "response \<Rightarrow> 'r catalog_handler" where
  "and_notify resp w = (case notifyConfigRefresh w of (told, w1) \<Rightarrow> ((resp, told), w1))"

definition refuse :: "int \<Rightarrow> string \<Rightarrow> 'r catalog_handler" where
  "refuse status msg w = ((admin_error status msg, False), w)"

definition message_json :: "string \<Rightarrow> json" where
  "message_json s = JObj [(''message'', JStr s)]"

definition createChannelHandler :: "(json \<Rightarrow> string) \<Rightarrow> string \<Rightarrow> 'r catalog_handler" where
  "createChannelHandler jsonb_text body w =
     (case decode_channel 0 body of
        None \<Rightarrow> refuse 400 ''Invalid request body'' w
      | Some c \<Rightarrow>
      case db_call (createChannel c) w of
        (None, w1) \<Rightarrow> refuse 500 ''Failed to create channel'' w1
      | (Some r, w1) \<Rightarrow> and_notify (admin_json 201 (channel_json jsonb_text r)) w1)"

text \<open>The number of the path is cut to 32 bits.\<close>

definition updateChannelHandler :: "(json \<Rightarrow> string) \<Rightarrow> string \<Rightarrow> string \<Rightarrow> 'r catalog_handler" where
  "updateChannelHandler jsonb_text idStr body w =
     (case parse_int 64 idStr of
        None \<Rightarrow> refuse 400 ''Invalid channel ID'' w
      | Some i \<Rightarrow>
      case decode_channel (wrap32 i) body of
        None \<Rightarrow> refuse 400 ''Invalid request body'' w
      | Some c \<Rightarrow>
      case db_call (updateChannel c) w of
        (None, w1) \<Rightarrow> refuse 500 ''Failed to update channel'' w1
      | (Some r, w1) \<Rightarrow> and_notify (admin_json 200 (channel_json jsonb_text r)) w1)"

definition deleteChannelHandler :: "string \<Rightarrow> 'r catalog_handler" where
  "deleteChannelHandler idStr w =
     (case parse_int 64 idStr of
        None \<Rightarrow> refuse 400 ''Invalid channel ID'' w
      | Some i \<Rightarrow>
      case db_update (deleteChannel (wrap32 i)) w of
        (None, w1) \<Rightarrow> refuse 500 ''Failed to delete channel'' w1
      | (Some _, w1) \<Rightarrow> and_notify (admin_json 200 (message_json ''Channel deleted successfully'')) w1)"

definition createModelHandler :: "(json \<Rightarrow> string) \<Rightarrow> string \<Rightarrow> 'r catalog_handler" where
  "createModelHandler jsonb_text body w =
     (case decode_model None body of
        None \<Rightarrow> refuse 400 ''Invalid request body'' w
      | Some m \<Rightarrow>
      case db_call (createModel m) w of
        (None, w1) \<Rightarrow> refuse 500 ''Failed to create model'' w1
      | (Some r, w1) \<Rightarrow> and_notify (admin_json 201 (model_json jsonb_text r)) w1)"

definition updateModelHandler :: "(json \<Rightarrow> string) \<Rightarrow> string \<Rightarrow> string \<Rightarrow> 'r catalog_handler" where
  "updateModelHandler jsonb_text name body w =
     (if name = '''' then refuse 400 ''Invalid model name'' w
      else case decode_model (Some name) body of
        None \<Rightarrow> refuse 400 ''Invalid request body'' w
      | Some m \<Rightarrow>
      case db_call (updateModel m) w of
        (None, w1) \<Rightarrow> refuse 500 ''Failed to update model'' w1
      | (Some r, w1) \<Rightarrow> and_notify (admin_json 200 (model_json jsonb_text r)) w1)"

definition deleteModelHandler :: "string \<Rightarrow> 'r catalog_handler" where
  "deleteModelHandler name w =
     (if name = '''' then refuse 400 ''Invalid model name'' w
      else case db_update (deleteModel name) w of
        (None, w1) \<Rightarrow> refuse 500 ''Failed to delete model'' w1
      | (Some _, w1) \<Rightarrow> and_notify (admin_json 200 (message_json ''Model deleted successfully'')) w1)"

definition listChannelsHandler :: "(json \<Rightarrow> string) \<Rightarrow> 'r world \<Rightarrow> response \<times> 'r world" where
  "listChannelsHandler jsonb_text w =
     (case db_query (\<lambda>d. Some (listAllChannels d)) w of
        (None, w1) \<Rightarrow> (admin_error 500 ''Failed to fetch channels'', w1)
      | (Some cs, w1) \<Rightarrow> (admin_json 200 (rows_json (map (channel_json jsonb_text) cs)), w1))"

definition listModelsHandler :: "(json \<Rightarrow> string) \<Rightarrow> (string \<Rightarrow> int) \<Rightarrow> 'r world \<Rightarrow> response \<times> 'r world" where
  "listModelsHandler jsonb_text rank w =
     (case db_query (\<lambda>d. Some (listAllModelsForAdmin rank d)) w of
        (None, w1) \<Rightarrow> (admin_error 500 ''Failed to fetch models'', w1)
      | (Some ms, w1) \<Rightarrow> (admin_json 200 (rows_json (map (model_json jsonb_text) ms)), w1))"

section \<open>Channels at run time\<close>

definition health_item :: "breakers \<Rightarrow> channel_row \<Rightarrow> json" where
  "health_item bs c = (let h = getChannelHealthSnapshot (c_id c) bs in
     JObj [(''id'', JNum (c_id c) 0), (''name'', JStr (c_name c)), (''provider'', JStr (c_provider c)),
       (''baseURL'', JStr (c_base_url c)), (''models'', JStr (c_models c)), (''protocolType'', JStr (c_protocol c)),
       (''uploadMode'', JStr (c_upload_mode c)), (''supportsAsync'', JBool (c_supports_async c)),
       (''weight'', JNum (coalesce0 (c_weight c)) 0), (''status'', JNum (coalesce0 (c_status c)) 0),
       (''circuitState'', JStr (hs_state h)), (''consecutiveFailures'', JNum (hs_failures h) 0),
       (''probeInFlight'', JBool (hs_probe h)), (''cooldownSeconds'', JNum (hs_cooldown h) 0),
       (''lastFailureAt'', JStr (created_text (hs_last_failure h))),
       (''lastSuccessAt'', JStr (created_text (hs_last_success h)))])"

definition listChannelHealth :: "'r world \<Rightarrow> response \<times> 'r world" where
  "listChannelHealth w =
     (case db_query (\<lambda>d. Some (listAllChannels d)) w of
        (None, w1) \<Rightarrow> (admin_error 500 ''Failed to fetch channel health'', w1)
      | (Some cs, w1) \<Rightarrow> (admin_json 200 (JList (map (health_item (mg_breakers (w_manager w1))) cs)), w1))"

definition on_breakers :: "(breakers \<Rightarrow> breakers) \<Rightarrow> 'r world \<Rightarrow> 'r world" where
  "on_breakers f w = w\<lparr>w_manager := (w_manager w)\<lparr>mg_breakers := f (mg_breakers (w_manager w))\<rparr>\<rparr>"

definition channel_message :: "string \<Rightarrow> int \<Rightarrow> response" where
  "channel_message s i = admin_json 200 (JObj [(''channel_id'', JNum i 0), (''message'', JStr s)])"

definition resetChannelCircuitBreaker :: "string \<Rightarrow> 'r world \<Rightarrow> response \<times> 'r world" where
  "resetChannelCircuitBreaker idStr w =
     (case positive_number idStr of
        None \<Rightarrow> (admin_error 400 ''Invalid channel ID'', w)
      | Some i \<Rightarrow> (channel_message ''Circuit breaker reset'' i, on_breakers (resetCircuitBreaker (w_now w) (wrap32 i)) w))"

definition probeChannelHandler :: "string \<Rightarrow> 'r world \<Rightarrow> response \<times> 'r world" where
  "probeChannelHandler idStr w =
     (case positive_number idStr of
        None \<Rightarrow> (admin_error 400 ''Invalid channel ID'', w)
      | Some i \<Rightarrow> (channel_message ''Probe scheduled'' i, on_breakers (probeChannel (wrap32 i)) w))"

section \<open>Into memory\<close>

definition syncChannels :: "'r world \<Rightarrow> bool \<times> 'r world" where
  "syncChannels w =
     (case db_query (\<lambda>d. Some (listActiveChannels d)) w of
        (rows, w1) \<Rightarrow> (case loadChannels rows (w_manager w1) of (ok, m) \<Rightarrow> (ok, w1\<lparr>w_manager := m\<rparr>)))"

text \<open>A message or a tick: both loads, whether the first succeeds or not.\<close>

definition sync :: "'r world \<Rightarrow> 'r world" where
  "sync w = snd (loadAllModels (snd (syncChannels w)))"

datatype catalog_call =
    CreateChannel string
  | UpdateChannel string string
  | DeleteChannel string
  | CreateModel string
  | UpdateModel string string
  | DeleteModel string

fun catalog_change :: "(json \<Rightarrow> string) \<Rightarrow> catalog_call \<Rightarrow> 'r catalog_handler" where
  "catalog_change t (CreateChannel body) = createChannelHandler t body"
| "catalog_change t (UpdateChannel i body) = updateChannelHandler t i body"
| "catalog_change t (DeleteChannel i) = deleteChannelHandler i"
| "catalog_change t (CreateModel body) = createModelHandler t body"
| "catalog_change t (UpdateModel name body) = updateModelHandler t name body"
| "catalog_change t (DeleteModel name) = deleteModelHandler name"

section \<open>A change and a refresh\<close>

definition catalog_wf :: "db \<Rightarrow> bool" where
  "catalog_wf d \<longleftrightarrow> distinct (map m_name (models d)) \<and> distinct (map c_id (channels d))"

lemma fold_models_find:
  "distinct (map m_name ms) \<Longrightarrow>
     fold (\<lambda>m f. f(m_name m \<mapsto> m)) ms f n = (case find (\<lambda>m. m_name m = n) ms of Some m \<Rightarrow> Some m | None \<Rightarrow> f n)"
proof (induction ms arbitrary: f)
  case (Cons m ms)
  have "m_name m = n \<Longrightarrow> find (\<lambda>m. m_name m = n) ms = None" using Cons.prems by (auto simp: find_None_iff image_iff)
  with Cons show ?case by (auto split: option.splits)
qed simp

lemma find_filter: "find P (filter Q xs) = find (\<lambda>x. P x \<and> Q x) xs"
  by (induction xs) auto

lemma distinct_map_filter': "distinct (map f xs) \<Longrightarrow> distinct (map f (filter P xs))"
  by (simp add: distinct_map_filter)

text \<open>A refresh without failures makes the memory what the tables say.\<close>

lemma sync_fine:
  assumes "w_faults w = []" "catalog_wf (w_db w)"
  shows "w_models (sync w) n = getModelByName n (w_db w)" "mg_channels (w_manager (sync w)) = listActiveChannels (w_db w)"
    "w_db (sync w) = w_db w" "w_faults (sync w) = []"
  using assms fold_models_find [of "listActiveModels (w_db w)" "\<lambda>_. None" n]
  by (simp_all add: sync_def syncChannels_def loadChannels_def loadAllModels_def catalog_wf_def listActiveModels_def
      distinct_map_filter find_filter getModelByName_def split: option.splits)

lemma getModel_cached:
  assumes "w_faults w = []" "\<And>n. w_models w n = getModelByName n (w_db w)"
  shows "fst (getModel n w) = getModelByName n (w_db w)"
  using assms by (simp add: getModel_def loadModel_def split: option.splits)

text \<open>The row of a name in a table of models, after each of the three statements.\<close>

lemma models_after_update:
  assumes "distinct (map m_name ms)" "find (\<lambda>x. m_name x = m_name m) ms = Some x"
  shows "find (\<lambda>r. m_name r = n \<and> m_status r = Some 1) (map (\<lambda>y. if m_name y = m_name m then m\<lparr>m_id := m_id y\<rparr> else y) ms) =
    (if n = m_name m then if m_status m = Some 1 then Some (m\<lparr>m_id := m_id x\<rparr>) else None
     else find (\<lambda>r. m_name r = n \<and> m_status r = Some 1) ms)"
  using assms
proof (induction ms)
  case (Cons y ms)
  show ?case
  proof (cases "m_name y = m_name m")
    case True
    then have "m_name m \<notin> m_name ` set ms" using Cons.prems(1) by simp
    then have out: "\<forall>z\<in>set ms. m_name z \<noteq> m_name m" by (metis image_eqI)
    then have "map (\<lambda>y. if m_name y = m_name m then m\<lparr>m_id := m_id y\<rparr> else y) ms = ms" by (auto intro: map_idI)
    moreover have "find (\<lambda>r. m_name r = m_name m \<and> m_status r = Some 1) ms = None" using out by (auto simp: find_None_iff)
    ultimately show ?thesis using True Cons.prems(2) by auto
  qed (use Cons in auto)
qed simp

lemma names_after_update: "map m_name (map (\<lambda>y. if m_name y = m_name m then m\<lparr>m_id := m_id y\<rparr> else y) ms) = map m_name ms"
  by (induction ms) auto

lemma ids_after_update: "map c_id (map (\<lambda>x. if c_id x = c_id c then c else x) cs) = map c_id cs"
  by (induction cs) auto

lemma find_snoc: "(\<And>x. x \<in> set xs \<Longrightarrow> \<not> P x) \<Longrightarrow> find P (xs @ [y]) = (if P y then Some y else None)"
  by (induction xs) auto

text \<open>The channels of a number in a table of channels, after an update.\<close>

lemma channels_after_update:
  "distinct (map c_id cs) \<Longrightarrow> list_ex (\<lambda>x. c_id x = c_id c) cs \<Longrightarrow>
     filter (\<lambda>x. c_id x = c_id c) (map (\<lambda>x. if c_id x = c_id c then c else x) cs) = [c]"
proof (induction cs)
  case (Cons y cs)
  show ?case
  proof (cases "c_id y = c_id c")
    case True
    then have "c_id c \<notin> c_id ` set cs" using Cons.prems(1) by simp
    then have "\<forall>z\<in>set cs. c_id z \<noteq> c_id c" by (metis image_eqI)
    then have "map (\<lambda>x. if c_id x = c_id c then c else x) cs = cs" "filter (\<lambda>x. c_id x = c_id c) cs = []"
      by (auto intro: map_idI)
    with True show ?thesis by simp
  qed (use Cons in auto)
qed simp

text \<open>
  What a call has put in force, in the terms of a lookup of models and of a pool of channels.
\<close>

definition served :: "model_row \<Rightarrow> model_row option \<Rightarrow> bool" where
  "served m found = (case found of None \<Rightarrow> m_status m \<noteq> Some 1 | Some x \<Rightarrow> m_status m = Some 1 \<and> x = m\<lparr>m_id := m_id x\<rparr>)"

fun in_force :: "catalog_call \<Rightarrow> (string \<Rightarrow> model_row option) \<Rightarrow> channel_row list \<Rightarrow> bool" where
  "in_force (CreateModel body) lookup pool = (case decode_model None body of None \<Rightarrow> False | Some m \<Rightarrow> served m (lookup (m_name m)))"
| "in_force (UpdateModel name body) lookup pool =
     (case decode_model (Some name) body of None \<Rightarrow> False | Some m \<Rightarrow> served m (lookup name))"
| "in_force (DeleteModel name) lookup pool \<longleftrightarrow> lookup name = None"
| "in_force (CreateChannel body) lookup pool = (case decode_channel 0 body of None \<Rightarrow> False | Some c \<Rightarrow>
     list_ex (\<lambda>x. x = c\<lparr>c_id := c_id x\<rparr>) pool \<or> c_status c \<noteq> Some 1)"
| "in_force (UpdateChannel i body) lookup pool = (case parse_int 64 i of None \<Rightarrow> False | Some i \<Rightarrow>
     case decode_channel (wrap32 i) body of None \<Rightarrow> False | Some c \<Rightarrow>
     filter (\<lambda>x. c_id x = wrap32 i) pool = (if c_status c = Some 1 then [c] else []))"
| "in_force (DeleteChannel i) lookup pool = (case parse_int 64 i of None \<Rightarrow> False | Some i \<Rightarrow>
     filter (\<lambda>x. c_id x = wrap32 i) pool = [])"

text \<open>The statement of a call.\<close>

fun catalog_effect :: "catalog_call \<Rightarrow> db \<Rightarrow> db option" where
  "catalog_effect (CreateChannel body) d = Option.bind (decode_channel 0 body) (\<lambda>c. map_option snd (createChannel c d))"
| "catalog_effect (UpdateChannel i body) d = Option.bind (parse_int 64 i) (\<lambda>i.
     Option.bind (decode_channel (wrap32 i) body) (\<lambda>c. map_option snd (updateChannel c d)))"
| "catalog_effect (DeleteChannel i) d = Option.bind (parse_int 64 i) (\<lambda>i. deleteChannel (wrap32 i) d)"
| "catalog_effect (CreateModel body) d = Option.bind (decode_model None body) (\<lambda>m. map_option snd (createModel m d))"
| "catalog_effect (UpdateModel name body) d = Option.bind (decode_model (Some name) body) (\<lambda>m. map_option snd (updateModel m d))"
| "catalog_effect (DeleteModel name) d = deleteModel name d"

lemma admin_statuses: "rs_status (admin_json s j) = s" "rs_status (admin_error s m) = s"
  by (simp_all add: admin_json_def admin_error_def httpx_Err_def write_envelope_def)

lemma notify_fine: "w_faults w = [] \<Longrightarrow> and_notify resp w = ((resp, True), w)"
  by (simp add: and_notify_def notifyConfigRefresh_def)

lemma change_fine:
  assumes "w_faults w = []" "catalog_change t c w = ((resp, told), w1)" "rs_status resp < 300"
  shows "told \<and> (\<exists>d. catalog_effect c (w_db w) = Some d \<and> w1 = w\<lparr>w_db := d\<rparr>)"
  using assms
  by (cases c)
    (auto simp: createChannelHandler_def updateChannelHandler_def deleteChannelHandler_def createModelHandler_def
      updateModelHandler_def deleteModelHandler_def refuse_def admin_statuses notify_fine split: option.splits if_splits)

lemma decode_names: "decode_model (Some n) body = Some m \<Longrightarrow> m_name m = n" "decode_channel i body = Some c \<Longrightarrow> c_id c = i"
  by (auto simp: decode_model_def decode_channel_def split: option.splits)

lemma effect_in_force:
  assumes "catalog_wf d" "catalog_effect c d = Some d'"
  shows "catalog_wf d' \<and> in_force c (\<lambda>n. getModelByName n d') (listActiveChannels d')"
proof -
  have wf: "distinct (map m_name (models d))" "distinct (map c_id (channels d))" using assms(1) by (simp_all add: catalog_wf_def)
  show ?thesis
  proof (cases c)
    case (CreateChannel body)
    with assms(2) wf show ?thesis
      by (auto simp: createChannel_def Let_def catalog_wf_def listActiveChannels_def list_ex_iff split: bind_splits if_splits)
        blast
  next
    case (UpdateChannel i body)
    then obtain k ch where k: "parse_int 64 i = Some k" "decode_channel (wrap32 k) body = Some ch"
      and ex: "list_ex (\<lambda>x. c_id x = c_id ch) (channels d)"
      and d': "d' = d\<lparr>channels := map (\<lambda>x. if c_id x = c_id ch then ch else x) (channels d)\<rparr>"
      using assms(2) by (auto simp: updateChannel_def split: bind_splits if_splits)
    have "filter (\<lambda>x. c_id x = c_id ch) (listActiveChannels d') =
        sort_key weight_rank (filter (\<lambda>x. c_status x = Some 1) (filter (\<lambda>x. c_id x = c_id ch) (channels d')))"
      by (simp add: listActiveChannels_def filter_sort conj_commute)
    also have "filter (\<lambda>x. c_id x = c_id ch) (channels d') = [ch]"
      unfolding d' using channels_after_update [OF wf(2) ex] by simp
    finally have "filter (\<lambda>x. c_id x = c_id ch) (listActiveChannels d') = (if c_status ch = Some 1 then [ch] else [])" by simp
    moreover have "catalog_wf d'" using wf by (simp add: d' catalog_wf_def ids_after_update del: map_map)
    ultimately show ?thesis using k decode_names(2) [OF k(2)] UpdateChannel by simp
  next
    case (DeleteChannel i)
    with assms(2) wf show ?thesis
      by (auto simp: deleteChannel_def catalog_wf_def listActiveChannels_def distinct_map_filter filter_empty_conv
          split: bind_splits if_splits)
  next
    case (CreateModel body)
    then obtain m where m: "decode_model None body = Some m" and new: "\<forall>x\<in>set (models d). m_name x \<noteq> m_name m"
      and d': "d' = d\<lparr>models := models d @ [m\<lparr>m_id := model_seq d + 1\<rparr>], model_seq := model_seq d + 1\<rparr>"
      using assms(2) by (auto simp: createModel_def Let_def list_ex_iff split: bind_splits if_splits)
    have "m_name m \<notin> m_name ` set (models d)" using new by auto
    with CreateModel m new wf show ?thesis
      by (simp add: d' catalog_wf_def getModelByName_def served_def find_snoc)
  next
    case (UpdateModel name body)
    then obtain m x where m: "decode_model (Some name) body = Some m" and x: "find (\<lambda>x. m_name x = m_name m) (models d) = Some x"
      and d': "d' = d\<lparr>models := map (\<lambda>y. if m_name y = m_name m then m\<lparr>m_id := m_id y\<rparr> else y) (models d)\<rparr>"
      using assms(2) by (auto simp: updateModel_def split: bind_splits if_splits option.splits)
    have "getModelByName (m_name m) d' = (if m_status m = Some 1 then Some (m\<lparr>m_id := m_id x\<rparr>) else None)"
      using models_after_update [OF wf(1) x, of "m_name m"] by (simp add: getModelByName_def d')
    moreover have "catalog_wf d'" using wf by (simp add: d' catalog_wf_def names_after_update del: map_map)
    ultimately show ?thesis using m decode_names(1) [OF m] UpdateModel by (simp add: served_def)
  next
    case (DeleteModel name)
    with assms(2) wf show ?thesis
      by (auto simp: deleteModel_def catalog_wf_def getModelByName_def distinct_map_filter find_None_iff split: if_splits)
  qed
qed

text \<open>
  C29. What an administrator has changed is what the gateway does. When a call is answered with success and
  nothing fails, a refresh is announced, and after it every lookup of a model gives the active row of that name
  in the table, and the pool of channels is that of the active rows: a deleted or disabled model is not found
  any more, a deleted or disabled channel is not in the pool, and what was created or updated is there as the
  body says it; the names of the models and the numbers of the channels are still unique.
\<close>

theorem change_takes_effect:
  assumes "w_faults w = []" "catalog_wf (w_db w)"
    and "catalog_change t c w = ((resp, told), w1)" "rs_status resp < 300"
  shows "told \<and> catalog_wf (w_db (sync w1)) \<and> in_force c (\<lambda>n. fst (getModel n (sync w1))) (mg_channels (w_manager (sync w1))) \<and>
    (\<forall>n. fst (getModel n (sync w1)) = getModelByName n (w_db (sync w1))) \<and>
    mg_channels (w_manager (sync w1)) = listActiveChannels (w_db (sync w1))"
proof -
  obtain d where told: told and d: "catalog_effect c (w_db w) = Some d" "w1 = w\<lparr>w_db := d\<rparr>"
    using change_fine [OF assms(1,3,4)] by blast
  note e = effect_in_force [OF assms(2) d(1)]
  have fine: "w_faults w1 = []" "catalog_wf (w_db w1)" using assms(1) d(2) e by simp_all
  note s = sync_fine [OF fine]
  have look: "fst (getModel n (sync w1)) = getModelByName n (w_db (sync w1))" for n
    by (rule getModel_cached) (use s in simp_all)
  then show ?thesis using told e s d(2) by simp
qed

section \<open>Lookups and refreshes in between\<close>

text \<open>
  A lookup that misses reads the row and then stores it, and other calls may come between the two. The pairs
  are the rows that have been read and are about to be stored.
\<close>

type_synonym 'r cache_state = "'r world \<times> (string \<times> model_row) list"

inductive cache_step :: "'r cache_state \<Rightarrow> 'r cache_state \<Rightarrow> bool" where
  miss: "w_models w n = None \<Longrightarrow> db_query (getModelByName n) w = (Some m, w1) \<Longrightarrow> cache_step (w, ps) (w1, (n, m) # ps)"
| failed: "db_query (getModelByName n) w = (None, w1) \<Longrightarrow> cache_step (w, ps) (w1, ps)"
| store: "(n, m) \<in> set ps \<Longrightarrow> cache_step (w, ps) (w\<lparr>w_models := (w_models w)(n \<mapsto> m)\<rparr>, remove1 (n, m) ps)"
| refresh: "cache_step (w, ps) (sync w, ps)"

inductive_cases cache_stepE: "cache_step s s'"

definition up_to_date :: "'r cache_state \<Rightarrow> bool" where
  "up_to_date s = (case s of (w, ps) \<Rightarrow>
     (\<forall>n m. w_models w n = Some m \<or> (n, m) \<in> set ps \<longrightarrow> getModelByName n (w_db w) = Some m) \<and>
     set (mg_channels (w_manager w)) \<subseteq> set (listActiveChannels (w_db w)))"

lemma two_steps:
  assumes "loadModel n w = (Some m, w')" "w_models w n = None"
  shows "cache_step\<^sup>*\<^sup>* (w, ps) (w', ps)"
proof -
  obtain w1 where q: "db_query (getModelByName n) w = (Some m, w1)" and w': "w' = w1\<lparr>w_models := (w_models w1)(n \<mapsto> m)\<rparr>"
    using assms(1) by (auto simp: loadModel_def split: option.splits prod.splits)
  have "cache_step (w, ps) (w1, (n, m) # ps)" by (rule cache_step.miss [OF assms(2) q])
  moreover have "cache_step (w1, (n, m) # ps) (w', ps)" using cache_step.store [of n m "(n, m) # ps" w1] by (simp add: w')
  ultimately show ?thesis by (meson rtranclp.simps r_into_rtranclp)
qed

lemma sync_channels_effect:
  "w_db (snd (syncChannels w)) = w_db w \<and> w_models (snd (syncChannels w)) = w_models w \<and>
    (mg_channels (w_manager (snd (syncChannels w))) = mg_channels (w_manager w) \<or>
     mg_channels (w_manager (snd (syncChannels w))) = listActiveChannels (w_db w))"
  by (auto simp: syncChannels_def loadChannels_def db_query_def db_call_def next_fault_eq split: fault.splits option.splits)

lemma load_models_effect:
  assumes "catalog_wf (w_db w)"
  shows "w_db (snd (loadAllModels w)) = w_db w \<and> w_manager (snd (loadAllModels w)) = w_manager w \<and>
    (w_models (snd (loadAllModels w)) = w_models w \<or>
     w_models (snd (loadAllModels w)) = (\<lambda>n. getModelByName n (w_db w)))"
proof -
  have "fold (\<lambda>m f. f(m_name m \<mapsto> m)) (listActiveModels (w_db w)) (\<lambda>_. None) = (\<lambda>n. getModelByName n (w_db w))"
    using assms
    by (auto simp: fun_eq_iff fold_models_find catalog_wf_def listActiveModels_def distinct_map_filter find_filter
        getModelByName_def split: option.splits)
  then show ?thesis
    by (auto simp: loadAllModels_def db_query_def db_call_def next_fault_eq split: fault.splits option.splits)
qed

lemma up_to_date_step:
  assumes "cache_step s s'" "up_to_date s" "catalog_wf (w_db (fst s))"
  shows "up_to_date s' \<and> w_db (fst s') = w_db (fst s)"
  using assms
proof (cases rule: cache_step.cases)
  case (miss w n m w1 ps)
  moreover have "w_manager w1 = w_manager w \<and> w_models w1 = w_models w \<and> w_db w1 = w_db w \<and> getModelByName n (w_db w) = Some m"
    using miss(4) by (auto simp: db_query_def db_call_def next_fault_eq split: fault.splits option.splits)
  ultimately show ?thesis using assms(2) by (auto simp: up_to_date_def)
next
  case (failed n w w1 ps)
  moreover have "w_manager w1 = w_manager w \<and> w_models w1 = w_models w \<and> w_db w1 = w_db w"
    using failed(3) by (auto simp: db_query_def db_call_def next_fault_eq split: fault.splits option.splits)
  ultimately show ?thesis using assms(2) by (auto simp: up_to_date_def)
next
  case (store n m ps w)
  have pending: "getModelByName n (w_db w) = Some m'" if "(n, m') \<in> set ps" for m'
    using assms(2) store(1) that by (auto simp: up_to_date_def)
  have "m' = m" if "(n, m') \<in> set (remove1 (n, m) ps)" for m'
    using pending [OF store(3)] pending [OF subsetD [OF set_remove1_subset that]] by simp
  with store assms(2) pending [OF store(3)] show ?thesis
    by (auto simp: up_to_date_def dest: subsetD [OF set_remove1_subset])
next
  case (refresh w ps)
  then show ?thesis
    using assms(2,3) sync_channels_effect [of w] load_models_effect [of "snd (syncChannels w)"]
    by (auto simp: up_to_date_def sync_def)
qed

text \<open>
  C30. A cache goes stale only by a change. From a state in which every cached model, every row that a lookup
  has read, and every channel of the pool is an active row of the tables, any interleaving of lookups in their
  two steps and refreshes, failing or not, keeps it so, as long as nobody changes the tables; so a lookup then
  gives the active row of the name or nothing.
\<close>

theorem lookups_stay_current:
  assumes "cache_step\<^sup>*\<^sup>* s s'" "up_to_date s" "catalog_wf (w_db (fst s))"
  shows "up_to_date s' \<and> w_db (fst s') = w_db (fst s) \<and>
    (\<forall>n m w. getModel n (fst s') = (Some m, w) \<longrightarrow> getModelByName n (w_db (fst s)) = Some m)"
proof -
  have s': "up_to_date s' \<and> w_db (fst s') = w_db (fst s)" using assms
  proof (induction rule: rtranclp_induct)
    case (step s1 s2)
    then show ?case using up_to_date_step [OF step.hyps(2)] by simp
  qed simp
  moreover have "getModelByName n (w_db (fst s')) = Some m" if "getModel n (fst s') = (Some m, w)" for n m w
    using that s' by (auto simp: getModel_def loadModel_def up_to_date_def split: option.splits prod.splits
        dest!: db_query_models)
  ultimately show ?thesis by simp
qed

definition witness_catalog :: "keyspace world" where
  "witness_catalog = witness_world [] (empty_db\<lparr>models := [witness_model]\<rparr>) []"

lemma witness_catalog_facts:
  "w_faults witness_catalog = []" "w_models witness_catalog = (\<lambda>_. None)" "catalog_wf (w_db witness_catalog)"
  "getModelByName ''m1'' (w_db witness_catalog) = Some witness_model" "up_to_date (witness_catalog, [])"
  by (simp_all add: witness_catalog_def catalog_wf_def getModelByName_def witness_model_def empty_db_def up_to_date_def)
    (simp_all add: witness_world_def init_manager_def)

lemma witness_removed:
  "catalog_change t (DeleteModel ''m1'') witness_catalog =
     ((admin_json 200 (message_json ''Model deleted successfully''), True), witness_catalog\<lparr>w_db := empty_db\<rparr>)"
proof -
  have "deleteModel ''m1'' (w_db witness_catalog) = Some empty_db"
    by (simp add: deleteModel_def no_nul_def witness_catalog_def witness_model_def empty_db_def)
  then show ?thesis
    by (simp add: deleteModelHandler_def notify_fine witness_catalog_facts)
qed

theorem change_takes_effect_witness:
  "fst (getModel ''m1'' (sync (snd (catalog_change (\<lambda>_. '''') (DeleteModel ''m1'') witness_catalog)))) = None"
  unfolding witness_removed snd_conv using change_takes_effect [OF witness_catalog_facts(1,3) witness_removed]
  by (simp add: admin_statuses) metis

theorem lookups_stay_current_witness:
  "up_to_date (snd (loadModel ''m1'' witness_catalog), []) \<and> fst (loadModel ''m1'' witness_catalog) = Some witness_model"
proof -
  have l: "loadModel ''m1'' witness_catalog = (Some witness_model, witness_catalog\<lparr>w_models := [''m1'' \<mapsto> witness_model]\<rparr>)"
    by (simp add: loadModel_def witness_catalog_facts)
  have "cache_step\<^sup>*\<^sup>* (witness_catalog, []) (snd (loadModel ''m1'' witness_catalog), [])"
    unfolding l snd_conv by (rule two_steps [OF l]) (simp add: witness_catalog_facts)
  from lookups_stay_current [OF this witness_catalog_facts(5)] witness_catalog_facts(3) l show ?thesis by simp
qed

text \<open>
  A deleted model can come back: a lookup reads the row, the model is deleted and the refresh is done, and then
  the lookup stores what it has read. From there on the model is served, without the database, until the next
  refresh.
\<close>

lemma deleted_model_served:
  "\<exists>s1 s2 w3 w4. cache_step (witness_catalog, []) s1 \<and> fst s1 = witness_catalog \<and>
     snd (catalog_change t (DeleteModel ''m1'') (fst s1)) = w3 \<and> cache_step (w3, snd s1) (w4, snd s1) \<and> w4 = sync w3 \<and>
     cache_step (w4, snd s1) s2 \<and> getModelByName ''m1'' (w_db (fst s2)) = None \<and>
     getModel ''m1'' (fst s2) = (Some witness_model, fst s2)"
proof -
  let ?w3 = "witness_catalog\<lparr>w_db := empty_db\<rparr>" and ?ps = "[(''m1'', witness_model)]"
  have "cache_step (witness_catalog, []) (witness_catalog, ?ps)"
    by (rule cache_step.miss) (simp_all add: witness_catalog_facts)
  moreover have "snd (catalog_change t (DeleteModel ''m1'') witness_catalog) = ?w3" unfolding witness_removed by simp
  moreover have "cache_step (?w3, ?ps) (sync ?w3, ?ps)" by (rule cache_step.refresh)
  moreover have "cache_step (sync ?w3, ?ps)
      ((sync ?w3)\<lparr>w_models := (w_models (sync ?w3))(''m1'' \<mapsto> witness_model)\<rparr>, remove1 (''m1'', witness_model) ?ps)"
    by (rule cache_step.store) simp
  moreover have "w_db (sync ?w3) = empty_db"
    using sync_fine(3) [of ?w3] by (simp add: witness_catalog_facts catalog_wf_def empty_db_def)
  ultimately show ?thesis
    by (intro exI [of _ "(witness_catalog, ?ps)"] exI [of _ "((sync ?w3)\<lparr>w_models := (w_models (sync ?w3))(''m1'' \<mapsto> witness_model)\<rparr>, [])"]
        exI [of _ ?w3] exI [of _ "sync ?w3"]) (simp add: getModelByName_def empty_db_def getModel_def)
qed

end
