(* ===== verification/Books.thy ===== *)
theory Books
  imports Webhook
begin

text \<open>
  The two books of a user: the three pools in Redis, which requests draw on at once, and the three in the
  user's row, which the worker brings up to date. A transition system runs the operations of
  internal/billing, internal/worker and internal/api/webhook on one user in any order, next to whatever else
  the system does, and an invariant says what the two differ by.
\<close>

section \<open>What is owed\<close>

definition pool_list :: "int \<times> int \<times> int \<Rightarrow> int list" where
  "pool_list b = (case b of (s, g, c) \<Rightarrow> [s, g, c])"

definition taken_list :: "deduction \<Rightarrow> int list" where
  "taken_list d = [d_sub d, d_grant d, d_cash d]"

definition caps :: "settlement_request \<Rightarrow> int list" where
  "caps s = [s_sub_deducted s, s_grant_deducted s, s_cash_deducted s]"

definition owed :: "settlement_request \<Rightarrow> int list" where
  "owed s = waterfall (s_actual_cost s) (caps s)"

text \<open>The billing records of the user that are queued and that the worker has not written yet.\<close>

definition pending :: "int \<Rightarrow> 'r world \<Rightarrow> settlement_request list" where
  "pending uid w = filter (\<lambda>s. s_user s = uid \<and> \<not> recorded s (w_db w)) (billing_tasks (w_queue w))"

definition sum_at :: "int list list \<Rightarrow> nat \<Rightarrow> int" where
  "sum_at xs i = sum_list (map (\<lambda>x. x ! i) xs)"

lemma sum_at_simps [simp]: "sum_at [] i = 0" "sum_at (x # xs) i = x ! i + sum_at xs i" "sum_at (xs @ ys) i = sum_at xs i + sum_at ys i"
  by (simp_all add: sum_at_def)

lemma sum_at_remove: "x \<in> set xs \<Longrightarrow> sum_at (map f (remove1 x xs)) i = sum_at (map f xs) i - f x ! i"
  by (induction xs) auto

text \<open>A row with all three pools set.\<close>

definition row_holds :: "user_row option \<Rightarrow> int \<times> int \<times> int \<Rightarrow> bool" where
  "row_holds u p \<longleftrightarrow> (case (u, p) of
      (Some x, (s, g, c)) \<Rightarrow> u_sub x = s \<and> u_grant x = Some g \<and> u_cash x = Some c
    | _ \<Rightarrow> False)"

text \<open>
  The invariant: a pool of the row is the cached pool, plus what requests under way have drawn from it, plus
  what queued records will take from the row.
\<close>

definition books_balanced :: "'r redis_api \<Rightarrow> int \<Rightarrow> 'r world \<times> deduction list \<Rightarrow> bool" where
  "books_balanced R uid st \<longleftrightarrow> (case st of (w, ds) \<Rightarrow>
     (\<exists>b p. pools_are R (balanceKeys3 uid) (w_redis w) b \<and> row_holds (user_of (w_db w) uid) p \<and>
        (\<forall>i < 3. pool_list p ! i = pool_list b ! i + sum_at (map taken_list ds) i + sum_at (map owed (pending uid w)) i)) \<and>
     (\<forall>d \<in> set ds. \<forall>x \<in> set (taken_list d). 0 \<le> x) \<and>
     distinct (map s_request_id (pending uid w)) \<and> (\<forall>s \<in> set (pending uid w). s_request_id s \<noteq> ''''))"

section \<open>The operations\<close>

text \<open>A record under a request id that neither the queue nor the billing log knows.\<close>

definition fresh_record :: "settlement_request \<Rightarrow> 'r world \<Rightarrow> bool" where
  "fresh_record s w \<longleftrightarrow> s_request_id s \<noteq> '''' \<and> \<not> recorded s (w_db w) \<and>
     s_request_id s \<notin> set (map s_request_id (billing_tasks (w_queue w)))"

text \<open>
  One step: a pre-deduction, a settlement within the estimate, a refund, a delivery of a record to the worker
  with whatever failures, a payment, or a step of the rest of the system, which leaves the user's pools, row
  and records alone. The second component lists the deductions of the requests under way.
\<close>

inductive book_step ::
  "'r redis_api \<Rightarrow> int \<Rightarrow> 'r world \<times> deduction list \<Rightarrow> 'r world \<times> deduction list \<Rightarrow> bool"
  for R :: "'r redis_api" and uid :: int where
  charge: "w_faults w = [] \<Longrightarrow> pools_are R (balanceKeys3 uid) (w_redis w) b \<Longrightarrow> exact_pools b \<Longrightarrow> exact cost \<Longrightarrow>
     preDeduct R uid cost policy w = (Inr d, w') \<Longrightarrow> book_step R uid (w, ds) (w', d # ds)"
| settle: "w_faults w = [] \<Longrightarrow> pools_are R (balanceKeys3 uid) (w_redis w) (s, g, c) \<Longrightarrow> exact s \<Longrightarrow> exact g \<Longrightarrow> exact c \<Longrightarrow>
     d \<in> set ds \<Longrightarrow> s_user req = uid \<Longrightarrow> caps req = taken_list d \<Longrightarrow> s_pre_deducted req = sum_list (taken_list d) \<Longrightarrow>
     0 \<le> s_actual_cost req \<Longrightarrow> s_actual_cost req \<le> s_pre_deducted req \<Longrightarrow> exact (s_pre_deducted req) \<Longrightarrow>
     exact (s + d_sub d) \<Longrightarrow> exact (g + d_grant d) \<Longrightarrow> exact (c + d_cash d) \<Longrightarrow> fresh_record req w \<Longrightarrow>
     settle R req w = (ok, w') \<Longrightarrow> book_step R uid (w, ds) (w', remove1 d ds)"
| refund: "w_faults w = [] \<Longrightarrow> pools_are R (balanceKeys3 uid) (w_redis w) (s, g, c) \<Longrightarrow> exact s \<Longrightarrow> exact g \<Longrightarrow> exact c \<Longrightarrow>
     d \<in> set ds \<Longrightarrow> s_user req = uid \<Longrightarrow> 0 < sum_list (taken_list d) \<Longrightarrow> exact (sum_list (taken_list d)) \<Longrightarrow>
     exact (s + d_sub d) \<Longrightarrow> exact (g + d_grant d) \<Longrightarrow> exact (c + d_cash d) \<Longrightarrow> fresh_record req w \<Longrightarrow>
     w' = refund R uid (deduction_total d) d req w \<Longrightarrow> book_step R uid (w, ds) (w', remove1 d ds)"
| deliver: "req \<in> set (billing_tasks (w_queue w)) \<Longrightarrow> s_user req = uid \<Longrightarrow> \<forall>x \<in> set (caps req). exact x \<Longrightarrow>
     exact (s_actual_cost req) \<Longrightarrow> handleRecordBillingLog (Some req) w = (res, w') \<Longrightarrow> book_step R uid (w, ds) (w', ds)"
| pay: "w_faults w = [] \<Longrightarrow> w_redis_on w \<Longrightarrow> processTransaction R req w = (Inr p, w') \<Longrightarrow>
     r = normalizeTransactionRequest req \<Longrightarrow> tw_user r = uid \<Longrightarrow>
     holds R (w_redis w) (pool_key (tw_balance r) uid) c \<Longrightarrow> in_i64 c \<Longrightarrow> in_i64 (c + tw_delta r) \<Longrightarrow>
     book_step R uid (w, ds) (w', ds)"
| elsewhere: "\<forall>k \<in> set (balanceKeys3 uid). rd_get R (w_redis w') k = rd_get R (w_redis w) k \<Longrightarrow>
     (\<forall>p. row_holds (user_of (w_db w) uid) p \<longrightarrow> row_holds (user_of (w_db w') uid) p) \<Longrightarrow>
     pending uid w' = pending uid w \<Longrightarrow> book_step R uid (w, ds) (w', ds)"

section \<open>Every step keeps the books balanced\<close>

lemma pools_are_unique: "pools_are R ks r b \<Longrightarrow> pools_are R ks r b' \<Longrightarrow> b = b'"
  by (cases b; cases b') (simp add: pools_are_def holds_def)

lemma all_three: "(\<forall>i < 3. P i) \<longleftrightarrow> P 0 \<and> P 1 \<and> P (2::nat)"
  by (auto simp: numeral_3_eq_3 less_Suc_eq numeral_2_eq_2)

lemma balancedE:
  assumes "books_balanced R uid (w, ds)" "pools_are R (balanceKeys3 uid) (w_redis w) (s, g, c)"
  obtains p where "row_holds (user_of (w_db w) uid) p"
    and "pool_list p ! 0 = s + sum_at (map taken_list ds) 0 + sum_at (map owed (pending uid w)) 0"
      "pool_list p ! 1 = g + sum_at (map taken_list ds) 1 + sum_at (map owed (pending uid w)) 1"
      "pool_list p ! 2 = c + sum_at (map taken_list ds) 2 + sum_at (map owed (pending uid w)) 2"
    and "\<And>d. d \<in> set ds \<Longrightarrow> 0 \<le> d_sub d \<and> 0 \<le> d_grant d \<and> 0 \<le> d_cash d"
    and "distinct (map s_request_id (pending uid w))" "\<forall>s \<in> set (pending uid w). s_request_id s \<noteq> ''''"
proof -
  obtain b p where b: "pools_are R (balanceKeys3 uid) (w_redis w) b" "row_holds (user_of (w_db w) uid) p"
    "\<forall>i < 3. pool_list p ! i = pool_list b ! i + sum_at (map taken_list ds) i + sum_at (map owed (pending uid w)) i"
    using assms(1) by (auto simp: books_balanced_def)
  have "b = (s, g, c)" by (rule pools_are_unique [OF b(1) assms(2)])
  with b(2,3) assms(1) show thesis
    by (intro that [of p]) (auto simp: books_balanced_def all_three pool_list_def taken_list_def)
qed

lemma balancedI:
  assumes "pools_are R (balanceKeys3 uid) (w_redis w) (s, g, c)" "row_holds (user_of (w_db w) uid) p"
    and "pool_list p ! 0 = s + sum_at (map taken_list ds) 0 + sum_at (map owed (pending uid w)) 0"
      "pool_list p ! 1 = g + sum_at (map taken_list ds) 1 + sum_at (map owed (pending uid w)) 1"
      "pool_list p ! 2 = c + sum_at (map taken_list ds) 2 + sum_at (map owed (pending uid w)) 2"
    and "\<And>d. d \<in> set ds \<Longrightarrow> 0 \<le> d_sub d \<and> 0 \<le> d_grant d \<and> 0 \<le> d_cash d"
    and "distinct (map s_request_id (pending uid w))" "\<forall>s \<in> set (pending uid w). s_request_id s \<noteq> ''''"
  shows "books_balanced R uid (w, ds)"
proof -
  have "\<forall>i < 3. pool_list p ! i = pool_list (s, g, c) ! i + sum_at (map taken_list ds) i + sum_at (map owed (pending uid w)) i"
    using assms(3-5) by (simp add: all_three pool_list_def)
  with assms(1,2) have "\<exists>b p. pools_are R (balanceKeys3 uid) (w_redis w) b \<and> row_holds (user_of (w_db w) uid) p \<and>
      (\<forall>i < 3. pool_list p ! i = pool_list b ! i + sum_at (map taken_list ds) i + sum_at (map owed (pending uid w)) i)"
    by blast
  with assms(6-8) show ?thesis by (simp add: books_balanced_def taken_list_def)
qed

text \<open>A request draws on the cache; the row follows later.\<close>

lemma charge_balanced:
  assumes "redis_server R" "books_balanced R uid (w, ds)" "w_faults w = []"
    and "pools_are R (balanceKeys3 uid) (w_redis w) b" "exact_pools b" "exact cost"
    and "preDeduct R uid cost policy w = (Inr d, w')"
  shows "books_balanced R uid (w', d # ds)"
proof -
  obtain s g c where b: "b = (s, g, c)" by (cases b)
  have before: "balances_before R uid w b" using assms(4) by (simp add: balances_before_def)
  obtain r where out: "preDeduct R uid cost policy w = (if cost \<le> sum_list (usable policy b)
        then Inr (deduction_of (drawn policy b cost)) else Inl InsufficientBalance, w\<lparr>w_redis := r\<rparr>)"
    and pr: "pools_are R (balanceKeys3 uid) r
      (if cost \<le> sum_list (usable policy b) then minus_pools b (drawn policy b cost) else b)"
    by (rule preDeduct_outcome [OF assms(1,3) before assms(5,6), of policy]) blast
  then have d: "d = deduction_of (drawn policy b cost)" and w': "w' = w\<lparr>w_redis := r\<rparr>"
    and p: "pools_are R (balanceKeys3 uid) r (minus_pools b (drawn policy b cost))"
    using assms(7) by (auto split: if_splits)
  have nn: "0 \<le> d_sub d" "0 \<le> d_grant d" "0 \<le> d_cash d"
    using drawn_nonneg [of policy b cost] by (simp_all add: d deduction_of_def drawn_def usable_def b)
  have same: "pending uid w' = pending uid w" by (simp add: w' pending_def)
  from assms(2) assms(4) [unfolded b] obtain q where q: "row_holds (user_of (w_db w) uid) q"
    "pool_list q ! 0 = s + sum_at (map taken_list ds) 0 + sum_at (map owed (pending uid w)) 0"
    "pool_list q ! 1 = g + sum_at (map taken_list ds) 1 + sum_at (map owed (pending uid w)) 1"
    "pool_list q ! 2 = c + sum_at (map taken_list ds) 2 + sum_at (map owed (pending uid w)) 2"
    and old: "\<And>d. d \<in> set ds \<Longrightarrow> 0 \<le> d_sub d \<and> 0 \<le> d_grant d \<and> 0 \<le> d_cash d"
    and rest: "distinct (map s_request_id (pending uid w))" "\<forall>s \<in> set (pending uid w). s_request_id s \<noteq> ''''"
    by (rule balancedE) blast
  have p': "pools_are R (balanceKeys3 uid) (w_redis w') (s - d_sub d, g - d_grant d, c - d_cash d)"
    using p by (simp add: w' b minus_pools_def d deduction_of_def)
  have "user_of (w_db w') uid = user_of (w_db w) uid" by (simp add: w')
  with q same rest old nn show ?thesis
    by (intro balancedI [OF p', of q]) (auto simp: taken_list_def)
qed

text \<open>A new record stands for what it will take from the row.\<close>

lemma fresh_pending:
  assumes "fresh_record s w" "s_user s = uid" "w_queue w' = w_queue w @ [TaskRecordBillingLog (Some s)]" "w_db w' = w_db w"
  shows "pending uid w' = pending uid w @ [s]" "s_request_id s \<notin> set (map s_request_id (pending uid w))"
  using assms by (auto simp: fresh_record_def pending_def)

lemma settled_balanced:
  assumes "books_balanced R uid (w, ds)" "pools_are R (balanceKeys3 uid) (w_redis w) (s, g, c)" "d \<in> set ds"
    and "pools_are R (balanceKeys3 uid) (w_redis w') (s + d_sub d - owed t ! 0, g + d_grant d - owed t ! 1, c + d_cash d - owed t ! 2)"
    and "fresh_record t w" "s_user t = uid" "w_queue w' = w_queue w @ [TaskRecordBillingLog (Some t)]" "w_db w' = w_db w"
  shows "books_balanced R uid (w', remove1 d ds)"
proof -
  note f = fresh_pending [OF assms(5-8)]
  have r: "sum_at (map taken_list (remove1 d ds)) i = sum_at (map taken_list ds) i - taken_list d ! i" for i
    by (rule sum_at_remove [OF assms(3)])
  from assms(1,2) obtain q where q: "row_holds (user_of (w_db w) uid) q"
    "pool_list q ! 0 = s + sum_at (map taken_list ds) 0 + sum_at (map owed (pending uid w)) 0"
    "pool_list q ! 1 = g + sum_at (map taken_list ds) 1 + sum_at (map owed (pending uid w)) 1"
    "pool_list q ! 2 = c + sum_at (map taken_list ds) 2 + sum_at (map owed (pending uid w)) 2"
    and old: "\<And>d. d \<in> set ds \<Longrightarrow> 0 \<le> d_sub d \<and> 0 \<le> d_grant d \<and> 0 \<le> d_cash d"
    and rest: "distinct (map s_request_id (pending uid w))" "\<forall>s \<in> set (pending uid w). s_request_id s \<noteq> ''''"
    by (rule balancedE) blast
  have id: "s_request_id t \<noteq> ''''" using assms(5) by (simp add: fresh_record_def)
  show ?thesis
  proof (rule balancedI [OF assms(4)])
    show "row_holds (user_of (w_db w') uid) q" using q(1) assms(8) by simp
    show "0 \<le> d_sub e \<and> 0 \<le> d_grant e \<and> 0 \<le> d_cash e" if "e \<in> set (remove1 d ds)" for e
      using old [of e] notin_set_remove1 that by fastforce
  qed (use q(2-4) r f rest id in \<open>simp_all add: taken_list_def\<close>)
qed

lemma settle_balanced:
  assumes "redis_server R" "books_balanced R uid (w, ds)" "w_faults w = []"
    and "pools_are R (balanceKeys3 uid) (w_redis w) (s, g, c)" "exact s" "exact g" "exact c" "d \<in> set ds"
    and "s_user req = uid" "caps req = taken_list d" "s_pre_deducted req = sum_list (taken_list d)"
    and "0 \<le> s_actual_cost req" "s_actual_cost req \<le> s_pre_deducted req" "exact (s_pre_deducted req)"
    and "exact (s + d_sub d)" "exact (g + d_grant d)" "exact (c + d_cash d)"
    and "fresh_record req w" "settle R req w = (ok, w')"
  shows "books_balanced R uid (w', remove1 d ds)"
proof -
  have caps: "s_sub_deducted req = d_sub d" "s_grant_deducted req = d_grant d" "s_cash_deducted req = d_cash d"
    using assms(10) by (simp_all add: caps_def taken_list_def)
  have nn: "0 \<le> d_sub d" "0 \<le> d_grant d" "0 \<le> d_cash d"
    using assms(2,4,8) by (auto elim: balancedE)
  have o: "owed req = waterfall (s_actual_cost req) [d_sub d, d_grant d, d_cash d]"
    by (simp add: owed_def assms(10) taken_list_def)
  have pre: "s_pre_deducted req = d_sub d + d_grant d + d_cash d" using assms(11) by (simp add: taken_list_def)
  obtain r where r: "settle_redis R req w = w\<lparr>w_redis := r\<rparr>"
    and p: "pools_are R (balanceKeys3 uid) r (s + d_sub d - owed req ! 0, g + d_grant d - owed req ! 1, c + d_cash d - owed req ! 2)"
    using redis_server.settle_redis_over [OF assms(1,3) assms(4) [folded assms(9)] caps nn pre assms(12) _ assms(5-7) _ assms(15-17) o]
      assms(9,13,14) pre by auto
  have w': "w' = w\<lparr>w_redis := r, w_queue := w_queue w @ [TaskRecordBillingLog (Some req)]\<rparr>"
    using settle_fine [OF assms(3) r] assms(19) by simp
  show ?thesis
    by (rule settled_balanced [OF assms(2,4,8) _ assms(18,9)]) (use p w' in simp_all)
qed

lemma refund_balanced:
  assumes "redis_server R" "books_balanced R uid (w, ds)" "w_faults w = []"
    and "pools_are R (balanceKeys3 uid) (w_redis w) (s, g, c)" "exact s" "exact g" "exact c" "d \<in> set ds"
    and "s_user req = uid" "0 < sum_list (taken_list d)" "exact (sum_list (taken_list d))"
    and "exact (s + d_sub d)" "exact (g + d_grant d)" "exact (c + d_cash d)"
    and "fresh_record req w" "w' = refund R uid (deduction_total d) d req w"
  shows "books_balanced R uid (w', remove1 d ds)"
proof -
  let ?t = "refund_record (deduction_total d) d req"
  have nn: "0 \<le> d_sub d" "0 \<le> d_grant d" "0 \<le> d_cash d"
    using assms(2,4,8) by (auto elim: balancedE)
  have full: "pools_are R (balanceKeys3 uid) (w_redis w') (s + d_sub d, g + d_grant d, c + d_cash d) \<and>
      same_elsewhere R (balanceKeys3 uid) (w_redis w) (w_redis w') \<and> w_db w' = w_db w \<and>
      w_queue w' = w_queue w @ [TaskRecordBillingLog (Some ?t)]"
    using refund_full [OF assms(1,3-7) nn _ _ assms(12-14,16)] assms(10,11)
    by (simp add: taken_list_def add.assoc)
  have o: "owed ?t = [0, 0, 0]" by (simp add: owed_def refund_record_def caps_def share_def)
  have f: "fresh_record ?t w" "s_user ?t = uid"
    using assms(9,15) by (auto simp: fresh_record_def refund_record_def recorded_def)
  show ?thesis
    by (rule settled_balanced [OF assms(2,4,8) _ f]) (use full o in simp_all)
qed

text \<open>What the transaction of a delivery does to the user's row, however it came to commit.\<close>

lemma billing_tx_row:
  assumes "billing_tx uuid now req d = Some d'" "\<forall>x \<in> set (caps req). exact x" "exact (s_actual_cost req)"
    and "row_holds (user_of d (s_user req)) (s, g, c)"
  shows "row_holds (user_of d' (s_user req)) (s - owed req ! 0, g - owed req ! 1, c - owed req ! 2)"
proof -
  let ?i = "s_user req" and ?k = "owed req"
  obtain u where u: "user_of d ?i = Some u" "u_sub u = s" "u_grant u = Some g" "u_cash u = Some c"
    using assms(4) by (auto simp: row_holds_def split: option.splits)
  have sp: "splitActual3 (s_actual_cost req) (s_sub_deducted req) (s_grant_deducted req) (s_cash_deducted req) =
      (?k ! 0, ?k ! 1, ?k ! 2)"
    by (simp only: splitActual3_eq owed_def caps_def)
  have e: "exact (?k ! 0)" "exact (?k ! 1)" "exact (?k ! 2)"
    using assms(2,3) by (auto simp: owed_def caps_def share_def exact_def)
  obtain d1 d2 d3 where steps: "updateUserSubBalance now ?i (- (?k ! 0)) d = Some d1"
    "updateUserTopupBalance ?i (- (?k ! 2)) d1 = Some d2" "updateUserGrantBalance ?i (- (?k ! 1)) d2 = Some d3"
    "createBillingLog (billing_log_of uuid req) d3 = Some d'"
    using assms(1) sp e by (auto simp: billing_tx_def bind_eq_Some_conv)
  have "user_of d' ?i = user_of d3 ?i"
    using steps(4) by (auto simp: createBillingLog_def user_of_def split: if_splits)
  with u user_of_updateUserSubBalance [OF steps(1)] user_of_updateUserTopupBalance [OF steps(2)]
    user_of_updateUserGrantBalance [OF steps(3)]
  show ?thesis by (simp add: row_holds_def null_add_def del: One_nat_def)
qed

lemma billing_tx_recorded:
  "billing_tx u n req d = Some d' \<Longrightarrow>
    recorded t d' \<longleftrightarrow> recorded t d \<or> (s_request_id t \<noteq> '''' \<and> s_request_id t = s_request_id req)"
  by (auto simp: recorded_def checkBillingLogExists_def billing_tx_logs billing_log_of_def null_text_def)

lemma handle_billing_frame:
  assumes "handleRecordBillingLog (Some req) w = (res, w')"
  shows "w_redis w' = w_redis w \<and> w_queue w' = w_queue w"
  using assms
  by (auto simp: handleRecordBillingLog_def tx_begin_def tx_call_eq tx_commit_def next_fault_eq new_uuid_def Let_def
      split: option.splits prod.splits if_splits fault.splits list.splits)

text \<open>A delivery writes one record, and the row gives what it owes; with failures it may do nothing.\<close>

lemma filter_key_remove1:
  "distinct (map f xs) \<Longrightarrow> x \<in> set xs \<Longrightarrow> filter (\<lambda>y. f y \<noteq> f x) xs = remove1 x xs"
proof (induction xs)
  case (Cons y ys)
  then show ?case by (cases "y = x") (auto simp: filter_id_conv image_iff intro!: filter_True)
qed simp

lemma increment_rows:
  "incrementAPIKeyQuotaUsed i x d = Some d' \<Longrightarrow> user_of d' j = user_of d j \<and> recorded s d' = recorded s d"
  by (auto simp: incrementAPIKeyQuotaUsed_def user_of_def recorded_def checkBillingLogExists_def)

lemma deliver_balanced:
  assumes "books_balanced R uid (w, ds)" "req \<in> set (billing_tasks (w_queue w))" "s_user req = uid"
    and "\<forall>x \<in> set (caps req). exact x" "exact (s_actual_cost req)"
    and h: "handleRecordBillingLog (Some req) w = (res, w')"
  shows "books_balanced R uid (w', ds)"
proof -
  note fr = handle_billing_frame [OF h]
  obtain s g c where p: "pools_are R (balanceKeys3 uid) (w_redis w) (s, g, c)"
    using assms(1) by (auto simp: books_balanced_def)
  then have p': "pools_are R (balanceKeys3 uid) (w_redis w') (s, g, c)" using fr by simp
  from assms(1) p obtain q where q: "row_holds (user_of (w_db w) uid) q"
    "pool_list q ! 0 = s + sum_at (map taken_list ds) 0 + sum_at (map owed (pending uid w)) 0"
    "pool_list q ! 1 = g + sum_at (map taken_list ds) 1 + sum_at (map owed (pending uid w)) 1"
    "pool_list q ! 2 = c + sum_at (map taken_list ds) 2 + sum_at (map owed (pending uid w)) 2"
    and old: "\<And>d. d \<in> set ds \<Longrightarrow> 0 \<le> d_sub d \<and> 0 \<le> d_grant d \<and> 0 \<le> d_cash d"
    and ids: "distinct (map s_request_id (pending uid w))" "\<forall>s \<in> set (pending uid w). s_request_id s \<noteq> ''''"
    by (rule balancedE) blast
  from handle_billing_cases [OF h] consider (same) "w_db w' = w_db w"
    | (written) u d where "\<not> recorded req (w_db w)" "billing_tx u (w_now w) req (w_db w) = Some d"
      "w_db w' = d \<or> incrementAPIKeyQuotaUsed (s_api_key req) (s_actual_cost req) d = Some (w_db w')"
    by blast
  then show ?thesis
  proof cases
    case same
    then have "pending uid w' = pending uid w" "user_of (w_db w') uid = user_of (w_db w) uid"
      using fr by (simp_all add: pending_def)
    with q ids old show ?thesis by (intro balancedI [OF p', of q]) simp_all
  next
    case (written u d)
    note tx = written(2) and d = written(3)
    have mem: "req \<in> set (pending uid w)" using assms(2,3) written(1) by (simp add: pending_def)
    then have id: "s_request_id req \<noteq> ''''" using ids by blast
    have kept: "user_of (w_db w') j = user_of d j" "recorded t (w_db w') = recorded t d" for j t
      using d increment_rows [of _ _ d "w_db w'" j t] by auto
    then have rec: "recorded t (w_db w') \<longleftrightarrow> recorded t (w_db w) \<or> s_request_id t = s_request_id req" for t
      using billing_tx_recorded [OF tx, of t] id by metis
    have "pending uid w' = filter (\<lambda>t. s_request_id t \<noteq> s_request_id req) (pending uid w)"
      using fr rec by (auto simp: pending_def intro!: filter_cong)
    then have pend: "pending uid w' = remove1 req (pending uid w)"
      using filter_key_remove1 [OF ids(1) mem] by simp
    obtain x y z where xyz: "q = (x, y, z)" by (cases q)
    have row: "row_holds (user_of (w_db w') uid) (x - owed req ! 0, y - owed req ! 1, z - owed req ! 2)"
      unfolding kept using billing_tx_row [OF tx assms(4,5), of x y z] q(1) assms(3) xyz by simp
    have left: "sum_at (map owed (pending uid w')) i = sum_at (map owed (pending uid w)) i - owed req ! i" for i
      unfolding pend by (rule sum_at_remove [OF mem])
    show ?thesis
    proof (rule balancedI [OF p' row])
      show "distinct (map s_request_id (pending uid w'))"
        unfolding pend filter_key_remove1 [OF ids(1) mem, symmetric] using ids(1) by (rule distinct_map_filter)
      show "\<forall>t \<in> set (pending uid w'). s_request_id t \<noteq> ''''"
        unfolding pend using ids(2) notin_set_remove1 by fastforce
      show "0 \<le> d_sub e \<and> 0 \<le> d_grant e \<and> 0 \<le> d_cash e" if "e \<in> set ds" for e by (rule old [OF that])
    qed (use q(2-4) xyz in \<open>simp_all add: pool_list_def left\<close>)
  qed
qed

text \<open>A payment moves the row and the cache alike, whatever is under way.\<close>

lemma transaction_tx_records:
  assumes "transaction_tx r d = Some (txid, d')"
  shows "recorded s d' = recorded s d"
proof -
  obtain u d1 where d1: "getUserByIDForUpdate (tw_user r) d = Some u" "update_pool (tw_balance r) (tw_user r) (tw_delta r) d = Some d1"
    using assms by (auto simp: transaction_tx_def Let_def bind_eq_Some_conv split: if_splits)
  let ?b = "pool_before (tw_balance r) u"
  obtain i d2 where d2: "createTransaction (transaction_of r ?b) d1 = Inr (i, d2)"
    using assms d1 by (auto simp: transaction_tx_def Let_def split: sum.split_asm if_splits)
  have d3: "createBalanceLog (balance_log_of r ?b i) d2 = Some d'"
    using assms d1 d2 by (auto simp: transaction_tx_def Let_def bind_eq_Some_conv split: if_splits)
  have "billing_logs d1 = billing_logs d"
    using d1(2) by (auto simp: update_pool_def updateUserGrantBalance_def updateUserTopupBalance_def split: if_splits)
  then have "billing_logs d' = billing_logs d"
    using createTransaction_Inr [OF d2] createBalanceLog_Some [OF d3] by simp
  then show ?thesis by (simp add: recorded_def checkBillingLogExists_def split: option.splits)
qed

lemma payment_again:
  fixes req
  assumes "w_faults w = []" "processTransaction R req w = (Inr p, w')" "pr_already p"
  shows "w' = w"
proof -
  let ?r = "normalizeTransactionRequest req"
  obtain out w3 where b: "transaction_body ?r (w_db w) w = (out, w3)" by fastforce
  then have "w3 = w" using transaction_body_yields [of ?r "w_db w"] assms(1) unfolding yields_def by blast
  with b assms show ?thesis
    by (auto simp: processTransaction_def Let_def split: option.splits sum.splits prod.splits)
qed

lemma pay_balanced:
  fixes req
  assumes "redis_server R" "books_balanced R uid (w, ds)" "w_faults w = []" "w_redis_on w"
    and "processTransaction R req w = (Inr p, w')" "r = normalizeTransactionRequest req" "tw_user r = uid"
    and "holds R (w_redis w) (pool_key (tw_balance r) uid) k" "in_i64 k" "in_i64 (k + tw_delta r)"
  shows "books_balanced R uid (w', ds)"
proof (cases "pr_already p")
  case True
  with payment_again [OF assms(3,5)] assms(2) show ?thesis by simp
next
  case False
  obtain txid d r' where s: "transaction_problem r = None" "transaction_tx r (w_db w) = Some (txid, d)"
    and w': "w' = w\<lparr>w_db := d, w_redis := r'\<rparr>"
    and r': "\<And>x. rd_get R r' x = (if x = pool_key (tw_balance r) uid then Some (show_int (k + tw_delta r))
       else rd_get R (w_redis w) x)"
    using payment_applied [OF assms(1,3,4,5) False, folded assms(6), of k] assms(7-10) by metis
  obtain b g c where pools: "pools_are R (balanceKeys3 uid) (w_redis w) (b, g, c)"
    using assms(2) by (auto simp: books_balanced_def)
  let ?x = "if tw_balance r = ''grant'' then tw_delta r else 0" and ?y = "if tw_balance r = ''grant'' then 0 else tw_delta r"
  have new: "pools_are R (balanceKeys3 uid) (w_redis w') (b, g + ?x, c + ?y)"
    using pools assms(8) r' by (auto simp: w' pools_are_def holds_def pool_key_def balanceKeys3_def subBalanceKey_def
        grantBalanceKey_def cashBalanceKey_def)
  have pend: "pending uid w' = pending uid w"
    using transaction_tx_records [OF s(2)] by (simp add: pending_def w')
  from assms(2) pools obtain q where q: "row_holds (user_of (w_db w) uid) q"
    "pool_list q ! 0 = b + sum_at (map taken_list ds) 0 + sum_at (map owed (pending uid w)) 0"
    "pool_list q ! 1 = g + sum_at (map taken_list ds) 1 + sum_at (map owed (pending uid w)) 1"
    "pool_list q ! 2 = c + sum_at (map taken_list ds) 2 + sum_at (map owed (pending uid w)) 2"
    and old: "\<And>d. d \<in> set ds \<Longrightarrow> 0 \<le> d_sub d \<and> 0 \<le> d_grant d \<and> 0 \<le> d_cash d"
    and ids: "distinct (map s_request_id (pending uid w))" "\<forall>s \<in> set (pending uid w). s_request_id s \<noteq> ''''"
    by (rule balancedE) blast
  obtain x y z where xyz: "q = (x, y, z)" by (cases q)
  obtain u where u: "user_of (w_db w) uid = Some u"
    "\<forall>j. user_of d j = (if j = uid then Some (with_pool (tw_balance r) (tw_delta r) u) else user_of (w_db w) j)"
    using transaction_tx_effect [OF s(2)] assms(7) by metis
  have row: "row_holds (user_of (w_db w') uid) (x, y + ?x, z + ?y)"
    using q(1) u xyz by (auto simp: w' row_holds_def with_pool_def null_add_def)
  show ?thesis
    by (rule balancedI [OF new row]) (use q(2-4) xyz old ids in \<open>simp_all add: pool_list_def pend\<close>)
qed

lemma elsewhere_balanced:
  assumes "books_balanced R uid (w, ds)" "\<forall>k \<in> set (balanceKeys3 uid). rd_get R (w_redis w') k = rd_get R (w_redis w) k"
    and "\<forall>p. row_holds (user_of (w_db w) uid) p \<longrightarrow> row_holds (user_of (w_db w') uid) p" "pending uid w' = pending uid w"
  shows "books_balanced R uid (w', ds)"
proof -
  have "pools_are R (balanceKeys3 uid) (w_redis w') b = pools_are R (balanceKeys3 uid) (w_redis w) b" for b
    using assms(2) by (cases b) (simp add: pools_are_def holds_def balanceKeys3_def)
  with assms(1,3,4) show ?thesis by (simp add: books_balanced_def) blast
qed

lemma book_step_balanced:
  assumes "redis_server R" "book_step R uid st st'" "books_balanced R uid st"
  shows "books_balanced R uid st'"
  using assms(2,3)
proof (induction rule: book_step.induct)
  case charge
  then show ?case using charge_balanced [OF assms(1)] by blast
next
  case settle
  then show ?case using settle_balanced [OF assms(1)] by blast
next
  case refund
  then show ?case using refund_balanced [OF assms(1)] by blast
next
  case deliver
  then show ?case using deliver_balanced by blast
next
  case pay
  then show ?case using pay_balanced [OF assms(1)] by blast
next
  case elsewhere
  then show ?case using elsewhere_balanced by blast
qed

lemma book_run_balanced:
  assumes "redis_server R" "(book_step R uid)\<^sup>*\<^sup>* st st'" "books_balanced R uid st"
  shows "books_balanced R uid st'"
  using assms(2,3) by induction (auto intro: book_step_balanced [OF assms(1)])

section \<open>Reconciliation\<close>

text \<open>
  C1. The two books come together. Let the cache and the row of a user agree, and nothing be under way.
  After any sequence of pre-deductions, settlements within the estimate, refunds, deliveries to the worker
  (repeated, in any order, with any failures), payments, and steps that do not concern the user, each pool of
  the row is the cached pool plus what the requests under way have drawn plus what the records not yet
  written will take. So when no request is under way and every queued record is written, the row and the
  cache are equal again.
\<close>

theorem books_reconcile:
  assumes "redis_server R" "(book_step R uid)\<^sup>*\<^sup>* (w0, []) (w, ds)"
    and "pools_are R (balanceKeys3 uid) (w_redis w0) p0" "row_holds (user_of (w_db w0) uid) p0" "pending uid w0 = []"
  shows "\<exists>b p. pools_are R (balanceKeys3 uid) (w_redis w) b \<and> row_holds (user_of (w_db w) uid) p \<and>
    (\<forall>i < 3. pool_list p ! i = pool_list b ! i + sum_at (map taken_list ds) i + sum_at (map owed (pending uid w)) i) \<and>
    (ds = [] \<and> pending uid w = [] \<longrightarrow> p = b)"
proof -
  have "\<exists>b p. pools_are R (balanceKeys3 uid) (w_redis w0) b \<and> row_holds (user_of (w_db w0) uid) p \<and>
      (\<forall>i < 3. pool_list p ! i = pool_list b ! i)"
    using assms(3,4) by blast
  then have "books_balanced R uid (w0, [])" using assms(5) by (simp add: books_balanced_def)
  from book_run_balanced [OF assms(1,2) this] obtain b p where "pools_are R (balanceKeys3 uid) (w_redis w) b"
    "row_holds (user_of (w_db w) uid) p"
    and e: "\<forall>i < 3. pool_list p ! i = pool_list b ! i + sum_at (map taken_list ds) i + sum_at (map owed (pending uid w)) i"
    by (auto simp: books_balanced_def)
  moreover have "p = b" if "ds = [] \<and> pending uid w = []"
    using e that by (cases p; cases b) (simp add: all_three pool_list_def)
  ultimately show ?thesis by blast
qed

text \<open>A request of the user 7 from the pre-deduction to the written record.\<close>

lemma witness_cycle:
  obtains w where "(book_step mem_redis 7)\<^sup>*\<^sup>* (witness_world (cached 7 (30, 20, 100)) (witness_db (30, 20, 100)) [], []) (w, [])"
    and "pools_are mem_redis (balanceKeys3 7) (w_redis w) (0, 5, 100)" "pending 7 w = []"
proof -
  let ?w = "witness_world (cached 7 (30, 20, 100)) (witness_db (30, 20, 100)) []" and ?q = witness_request
  let ?d = "\<lparr>d_sub = 30, d_grant = 20, d_cash = 10\<rparr>"
  note R = mem.redis_server_axioms
  have e: "exact_pools (30, 20, 100)" "exact 60" "exact 0" "exact 90" "exact 30" "exact 20" "exact 100" "exact 10" "exact 45"
    by (simp_all add: exact_pools_def exact_def)
  have p0: "pools_are mem_redis (balanceKeys3 7) (w_redis ?w) (30, 20, 100)" by simp
  then have before: "balances_before mem_redis 7 ?w (30, 20, 100)" by (simp add: balances_before_def)
  have dr: "drawn ''all'' (30, 20, 100) 60 = [30, 20, 10]" by code_simp
  obtain r1 where c: "preDeduct mem_redis 7 60 ''all'' ?w = (Inr ?d, ?w\<lparr>w_redis := r1\<rparr>)"
    and p1: "pools_are mem_redis (balanceKeys3 7) r1 (0, 0, 90)"
    using preDeduct_outcome [OF R _ before e(1,2), of "''all''"] dr
    by (auto simp: usable_def deduction_of_def minus_pools_def)
  let ?w1 = "?w\<lparr>w_redis := r1\<rparr>"
  have s1: "book_step mem_redis 7 (?w, []) (?w1, [?d])" by (rule book_step.charge [OF _ p0 e(1,2) c]) simp
  have k: "waterfall 45 [30, 20, 10] = [30, 15, 0]" by (simp add: share_def)
  have q: "s_user ?q = 7" "caps ?q = taken_list ?d" "s_pre_deducted ?q = 60" "s_actual_cost ?q = 45" "s_request_id ?q = ''r1''"
    by (simp_all add: witness_request_def caps_def taken_list_def)
  have c: "s_sub_deducted ?q = 30" "s_grant_deducted ?q = 20" "s_cash_deducted ?q = 10"
    by (simp_all add: witness_request_def)
  obtain r2 where sr: "settle_redis mem_redis ?q ?w1 = ?w1\<lparr>w_redis := r2\<rparr>"
    and "pools_are mem_redis (balanceKeys3 (s_user ?q)) r2 (0 + 30 - [30, 15, 0] ! 0, 0 + 20 - [30, 15, 0] ! 1, 90 + 10 - [30, 15, 0] ! 2)"
    by (rule mem.settle_redis_over [OF _ _ c, of ?w1 0 0 90 "[30, 15, 0]"]) (use p1 e q(1,3,4) in \<open>simp_all add: share_def\<close>)
  then have p2: "pools_are mem_redis (balanceKeys3 7) r2 (0, 5, 100)" using q(1) by simp
  have st: "settle mem_redis ?q ?w1 = (True, ?w1\<lparr>w_redis := r2, w_queue := [TaskRecordBillingLog (Some ?q)]\<rparr>)"
    using settle_fine [of ?w1 mem_redis ?q r2] sr by simp
  let ?w2 = "?w1\<lparr>w_redis := r2, w_queue := [TaskRecordBillingLog (Some ?q)]\<rparr>"
  have new: "\<not> recorded ?q (w_db ?w1)" using witness_db_fit(3) [OF e(5,6,7)] by simp
  then have fresh: "fresh_record ?q ?w1" using q by (simp add: fresh_record_def billing_tasks_def)
  have s2: "book_step mem_redis 7 (?w1, [?d]) (?w2, remove1 ?d [?d])"
    by (rule book_step.settle [OF _ _ _ _ _ _ _ _ _ _ _ _ _ _ _ fresh st, of 7 0 0 90])
      (use p1 e q in \<open>simp_all add: taken_list_def\<close>)
  obtain d u' where tx: "billing_tx (fst (new_uuid ?w2)) (w_now ?w2) ?q (w_db ?w2) = Some d"
    using billing_tx_succeeds [of ?q "witness_db (30, 20, 100)" "witness_user 7 (30, 20, 100)"
        "waterfall 45 [30, 20, 10]" "fst (new_uuid ?w2)" "w_now ?w2"] witness_db_fit [OF e(5,6,7)] e q by auto
  obtain w3 where h: "handleRecordBillingLog (Some ?q) ?w2 = (TaskDone, w3)" and l: "billing_logs (w_db w3) = billing_logs d"
    using handle_fine [OF _ _ tx] new by auto
  have s3: "book_step mem_redis 7 (?w2, []) (w3, [])"
    by (rule book_step.deliver [OF _ q(1) _ _ h]) (use e q in \<open>simp_all add: billing_tasks_def taken_list_def\<close>)
  have run: "(book_step mem_redis 7)\<^sup>*\<^sup>* (?w, []) (w3, [])"
    using s1 s2 s3 by (auto intro: converse_rtranclp_into_rtranclp)
  have rd: "recorded ?q (w_db w3)"
    using recorded_after_tx [OF tx] q l by (simp add: recorded_def checkBillingLogExists_def)
  show thesis
    by (rule that [OF run]) (use handle_billing_frame [OF h] p2 rd in \<open>simp_all add: pending_def billing_tasks_def\<close>)
qed

theorem books_reconcile_witness:
  "\<exists>w. (book_step mem_redis 7)\<^sup>*\<^sup>* (witness_world (cached 7 (30, 20, 100)) (witness_db (30, 20, 100)) [], []) (w, []) \<and>
    pools_are mem_redis (balanceKeys3 7) (w_redis w) (0, 5, 100) \<and> row_holds (user_of (w_db w) 7) (0, 5, 100)"
proof -
  obtain w where w: "(book_step mem_redis 7)\<^sup>*\<^sup>* (witness_world (cached 7 (30, 20, 100)) (witness_db (30, 20, 100)) [], []) (w, [])"
    "pools_are mem_redis (balanceKeys3 7) (w_redis w) (0, 5, 100)" "pending 7 w = []"
    by (rule witness_cycle)
  have "row_holds (user_of (w_db (witness_world (cached 7 (30, 20, 100)) (witness_db (30, 20, 100)) [])) 7) (30, 20, 100)"
    by (simp add: row_holds_def witness_user_def)
  moreover have "pools_are mem_redis (balanceKeys3 7)
      (w_redis (witness_world (cached 7 (30, 20, 100)) (witness_db (30, 20, 100)) [])) (30, 20, 100)" by simp
  moreover have "pending 7 (witness_world (cached 7 (30, 20, 100)) (witness_db (30, 20, 100)) []) = []"
    by (simp add: pending_def billing_tasks_def)
  ultimately obtain b p where b: "pools_are mem_redis (balanceKeys3 7) (w_redis w) b"
    and p: "row_holds (user_of (w_db w) 7) p" "p = b"
    using books_reconcile [OF mem.redis_server_axioms w(1)] w(3) by blast
  from pools_are_unique [OF b w(2)] p w(1,2) show ?thesis by blast
qed

text \<open>
  A consumption beyond the estimate parts the books: the cached pools give the rest as far as they have it,
  while what the record will take from the row ends at the deduction.
\<close>

lemma underestimate_parts_books:
  assumes "redis_server R" "w_faults w = []" "pools_are R (balanceKeys3 (s_user req)) (w_redis w) (s, g, c)"
    and "exact_pools (s, g, c)" "0 \<le> s" "0 \<le> g" "0 \<le> c" "\<forall>x \<in> set (caps req). 0 \<le> x"
    and "s_pre_deducted req = sum_list (caps req)" "s_pre_deducted req < s_actual_cost req"
    and "exact (s_pre_deducted req)" "exact (s_actual_cost req)" "exact (s_actual_cost req - s_pre_deducted req)"
    and "p = settle_policy_of (s_model req) (w_db w)"
  shows "\<exists>w' b. settle R req w = (True, w') \<and> pools_are R (balanceKeys3 (s_user req)) (w_redis w') b \<and>
    sum_list (pool_list b) = s + g + c - min (s_actual_cost req - s_pre_deducted req) (sum_list (usable p (s, g, c))) \<and>
    owed req = caps req"
proof -
  let ?short = "s_actual_cost req - s_pre_deducted req"
  obtain r where sr: "settle_redis R req w = w\<lparr>w_redis := r\<rparr>"
    and pools: "pools_are R (balanceKeys3 (s_user req)) r (minus_pools (s, g, c) (drawn p (s, g, c) ?short))"
    using redis_server.settle_redis_under [OF assms(1-4,10-13)] assms(14) by metis
  have cap: "capacity (usable p (s, g, c)) = sum_list (usable p (s, g, c))" using assms(5-7) by (simp add: usable_def)
  have "sum_list (drawn p (s, g, c) ?short) = min ?short (sum_list (usable p (s, g, c)))"
    using waterfall_sum [of ?short "usable p (s, g, c)"] cap assms(10) by (simp add: drawn_def)
  moreover obtain x y z where d: "drawn p (s, g, c) ?short = [x, y, z]" by (auto simp: drawn_def usable_def)
  ultimately have "x + y + z = min ?short (sum_list (usable p (s, g, c)))" by simp
  then have total: "sum_list (pool_list (minus_pools (s, g, c) [x, y, z])) =
      s + g + c - min ?short (sum_list (usable p (s, g, c)))"
    by (simp add: pool_list_def minus_pools_def)
  have "capacity (caps req) = sum_list (caps req)" using assms(8) by (simp add: caps_def)
  then have full: "owed req = caps req"
    unfolding owed_def using assms(8-10) by (intro waterfall_full) auto
  show ?thesis
    using settle_fine [OF assms(2) sr] pools total full unfolding d by fastforce
qed

end
