(* ===== verification/Migrate.thy ===== *)
theory Migrate
  imports World
begin

text \<open>
  cmd/migrate/main.go: the program that brings the schema of the database up to date. What a file of SQL does to
  the schema is an argument, and so are the files: which there are and what they hold. The schema itself is of
  any type; the table \<open>schema_migrations\<close> is a list of versions with their times, or absent. The context's
  deadline is a fault like any other.
\<close>

section \<open>State\<close>

record 's schema_db =
  sd_schema :: 's
  sd_applied :: "(string \<times> int) list option"

record 's migrate_world =
  mw_db :: "'s schema_db"
  mw_faults :: "fault list"
  mw_now :: int

record migration =
  mi_version :: string
  mi_path :: string

definition bootstrapSchemaVersion :: string where
  "bootstrapSchemaVersion = ''0000_schema.sql''"

definition migrate_fault :: "'s migrate_world \<Rightarrow> fault \<times> 's migrate_world" where
  "migrate_fault w = (case mw_faults w of [] \<Rightarrow> (Fine, w) | f # fs \<Rightarrow> (f, w\<lparr>mw_faults := fs\<rparr>))"

section \<open>The files\<close>

datatype stat = Present | Missing | StatError

text \<open>\<open>sort.Strings\<close>: by bytes.\<close>

fun insert_name :: "string \<Rightarrow> string list \<Rightarrow> string list" where
  "insert_name n [] = [n]"
| "insert_name n (m # ms) = (if bytes_less m n then m # insert_name n ms else n # m # ms)"

text \<open>
  The schema comes first, then the files of the directory in order of their names. The pattern of the search is
  a constant that cannot be malformed.
\<close>

definition loadMigrations :: "string \<Rightarrow> stat \<Rightarrow> string list \<Rightarrow> migration list option" where
  "loadMigrations root schema names =
     (if schema = StatError then None
      else Some ((if schema = Present then [\<lparr>mi_version = bootstrapSchemaVersion, mi_path = root @ ''/schema.sql''\<rparr>] else []) @
        map (\<lambda>n. \<lparr>mi_version = n, mi_path = root @ ''/migrations/'' @ n\<rparr>) (foldr insert_name names [])))"

section \<open>The program\<close>

definition ensureMigrationsTable :: "'s migrate_world \<Rightarrow> bool \<times> 's migrate_world" where
  "ensureMigrationsTable w =
     (case migrate_fault w of (f, w1) \<Rightarrow>
        (f = Fine, if f = Refused \<or> sd_applied (mw_db w1) \<noteq> None then w1
                   else w1\<lparr>mw_db := (mw_db w1)\<lparr>sd_applied := Some []\<rparr>\<rparr>))"

definition appliedVersions :: "'s migrate_world \<Rightarrow> (string \<times> int) list option \<times> 's migrate_world" where
  "appliedVersions w = (case migrate_fault w of (f, w1) \<Rightarrow> (if f = Fine then sd_applied (mw_db w1) else None, w1))"

datatype migrate_error =
    QueryError
  | ReadError string
  | BeginError
  | ExecuteError string
  | RecordError string
  | CommitError string

text \<open>The insertion of a version: the key is unique and the text has at most 255 characters.\<close>

definition record_version :: "int \<Rightarrow> string \<Rightarrow> (string \<times> int) list option \<Rightarrow> (string \<times> int) list option" where
  "record_version now v t = (case t of None \<Rightarrow> None
     | Some vs \<Rightarrow> if fits 255 v \<and> v \<notin> fst ` set vs then Some (vs @ [(v, now)]) else None)"

text \<open>One file in its transaction; a transaction that is not committed leaves nothing.\<close>

definition apply_migration ::
  "(string \<Rightarrow> string option) \<Rightarrow> (string \<Rightarrow> 's \<Rightarrow> 's option) \<Rightarrow> migration \<Rightarrow> 's migrate_world \<Rightarrow>
     migrate_error option \<times> 's migrate_world" where
  "apply_migration files sql m w =
     (case files (mi_path m) of
        None \<Rightarrow> (Some (ReadError (mi_path m)), w)
      | Some txt \<Rightarrow>
      case migrate_fault w of (f, w1) \<Rightarrow> if f \<noteq> Fine then (Some BeginError, w1) else
      case migrate_fault w1 of (f, w2) \<Rightarrow>
      case (if f = Fine then sql txt (sd_schema (mw_db w2)) else None) of
        None \<Rightarrow> (Some (ExecuteError (mi_version m)), w2)
      | Some s \<Rightarrow>
      case migrate_fault w2 of (f, w3) \<Rightarrow>
      case (if f = Fine then record_version (mw_now w3) (mi_version m) (sd_applied (mw_db w3)) else None) of
        None \<Rightarrow> (Some (RecordError (mi_version m)), w3)
      | Some vs \<Rightarrow>
      case migrate_fault w3 of (f, w4) \<Rightarrow>
        (if f = Fine then None else Some (CommitError (mi_version m)),
         if f = Refused then w4 else w4\<lparr>mw_db := \<lparr>sd_schema = s, sd_applied = Some vs\<rparr>\<rparr>))"

fun up_loop ::
  "(string \<Rightarrow> string option) \<Rightarrow> (string \<Rightarrow> 's \<Rightarrow> 's option) \<Rightarrow> (string \<times> int) list \<Rightarrow> migration list \<Rightarrow> nat \<Rightarrow>
     's migrate_world \<Rightarrow> (migrate_error + nat) \<times> 's migrate_world" where
  "up_loop files sql applied [] n w = (Inr n, w)"
| "up_loop files sql applied (m # ms) n w =
     (if mi_version m \<in> fst ` set applied then up_loop files sql applied ms n w
      else case apply_migration files sql m w of
             (Some e, w1) \<Rightarrow> (Inl e, w1)
           | (None, w1) \<Rightarrow> up_loop files sql applied ms (n + 1) w1)"

definition runUp ::
  "(string \<Rightarrow> string option) \<Rightarrow> (string \<Rightarrow> 's \<Rightarrow> 's option) \<Rightarrow> migration list \<Rightarrow> 's migrate_world \<Rightarrow>
     (migrate_error + nat) \<times> 's migrate_world" where
  "runUp files sql ms w =
     (case appliedVersions w of
        (None, w1) \<Rightarrow> (Inl QueryError, w1)
      | (Some applied, w1) \<Rightarrow> up_loop files sql applied ms 0 w1)"

text \<open>The lines of a status report; \<open>show_time\<close> writes an instant in the zone of the process.\<close>

definition printStatus ::
  "(int \<Rightarrow> string) \<Rightarrow> migration list \<Rightarrow> 's migrate_world \<Rightarrow> string list option \<times> 's migrate_world" where
  "printStatus show_time ms w =
     (case appliedVersions w of
        (None, w1) \<Rightarrow> (None, w1)
      | (Some applied, w1) \<Rightarrow>
          (Some (map (\<lambda>m. case map_of applied (mi_version m) of
               Some t \<Rightarrow> ''APPLIED  '' @ mi_version m @ ''  '' @ show_time t
             | None \<Rightarrow> ''PENDING  '' @ mi_version m) ms), w1))"

text \<open>
  How the program ends, once it is connected: normally, with lines of output, or with a fatal message, whose
  error is left out.
\<close>

datatype ending = Normal "string list" | Fatal string

definition migrate ::
  "string list \<Rightarrow> (int \<Rightarrow> string) \<Rightarrow> migration list option \<Rightarrow> (string \<Rightarrow> string option) \<Rightarrow> (string \<Rightarrow> 's \<Rightarrow> 's option) \<Rightarrow>
     's migrate_world \<Rightarrow> ending \<times> 's migrate_world" where
  "migrate args show_time found files sql w =
     (let action = (case args of a # _ \<Rightarrow> to_lower (trim_space a) | [] \<Rightarrow> ''up'') in
      case ensureMigrationsTable w of
        (False, w1) \<Rightarrow> (Fatal ''failed to ensure schema_migrations table'', w1)
      | (True, w1) \<Rightarrow>
      case found of
        None \<Rightarrow> (Fatal ''failed to load migrations'', w1)
      | Some ms \<Rightarrow>
      if action = ''up'' then
        (case runUp files sql ms w1 of
           (Inl e, w2) \<Rightarrow> (Fatal ''migration failed'', w2)
         | (Inr n, w2) \<Rightarrow> (Normal [], w2))
      else if action = ''status'' then
        (case printStatus show_time ms w1 of
           (None, w2) \<Rightarrow> (Fatal ''failed to check migration status'', w2)
         | (Some ls, w2) \<Rightarrow> (Normal ls, w2))
      else (Fatal ''unsupported action, expected: up or status'', w1))"

section \<open>Interrupted runs\<close>

text \<open>The specification: the files applied one after another to a schema.\<close>

fun all_applied :: "(string \<Rightarrow> string option) \<Rightarrow> (string \<Rightarrow> 's \<Rightarrow> 's option) \<Rightarrow> migration list \<Rightarrow> 's \<Rightarrow> 's option" where
  "all_applied files sql [] s = Some s"
| "all_applied files sql (m # ms) s =
     Option.bind (files (mi_path m)) (\<lambda>txt. Option.bind (sql txt s) (all_applied files sql ms))"

text \<open>The first \<open>k\<close> files have been applied, each once and in order, and recorded.\<close>

definition stands_at ::
  "(string \<Rightarrow> string option) \<Rightarrow> (string \<Rightarrow> 's \<Rightarrow> 's option) \<Rightarrow> migration list \<Rightarrow> 's \<Rightarrow> nat \<Rightarrow> 's schema_db \<Rightarrow> bool" where
  "stands_at files sql ms s0 k d \<longleftrightarrow> k \<le> length ms \<and>
     map fst (case sd_applied d of None \<Rightarrow> [] | Some vs \<Rightarrow> vs) = map mi_version (take k ms) \<and>
     all_applied files sql (take k ms) s0 = Some (sd_schema d)"

lemma all_applied_append: "all_applied files sql (xs @ ys) s = Option.bind (all_applied files sql xs s) (all_applied files sql ys)"
  by (induction xs arbitrary: s) (auto split: bind_splits)

lemma fault_keeps: "migrate_fault w = (f, w1) \<Longrightarrow> mw_db w1 = mw_db w \<and> (mw_faults w = [] \<longrightarrow> f = Fine \<and> w1 = w)"
  by (auto simp: migrate_fault_def split: list.splits)

lemma fault_none [simp]: "mw_faults w = [] \<Longrightarrow> migrate_fault w = (Fine, w)"
  by (simp add: migrate_fault_def)

text \<open>A file is applied and recorded together or not at all, and success means that it was.\<close>

lemma apply_cases:
  assumes "apply_migration files sql m w = (e, w1)"
  shows "e \<noteq> None \<and> mw_db w1 = mw_db w \<or>
    (\<exists>txt s vs. files (mi_path m) = Some txt \<and> sql txt (sd_schema (mw_db w)) = Some s \<and> sd_applied (mw_db w) = Some vs \<and>
       (\<exists>t. mw_db w1 = \<lparr>sd_schema = s, sd_applied = Some (vs @ [(mi_version m, t)])\<rparr>))"
  using assms
  by (auto simp: apply_migration_def record_version_def dest!: fault_keeps
      split: option.splits prod.splits if_splits)

lemma stands_step:
  assumes "stands_at files sql ms s0 k d" "k < length ms" "files (mi_path (ms ! k)) = Some txt"
    "sql txt (sd_schema d) = Some s" "sd_applied d = Some vs"
  shows "stands_at files sql ms s0 (Suc k) \<lparr>sd_schema = s, sd_applied = Some (vs @ [(mi_version (ms ! k), t)])\<rparr>"
  using assms by (auto simp: stands_at_def take_Suc_conv_app_nth all_applied_append)

lemma up_loop_skip: "mi_version ` set xs \<subseteq> fst ` set applied \<Longrightarrow> up_loop files sql applied (xs @ ys) n w = up_loop files sql applied ys n w"
  by (induction xs) auto

lemma up_loop_stands:
  assumes "up_loop files sql applied (drop k ms) n w = (r, w')" "stands_at files sql ms s0 k (mw_db w)"
    and "\<forall>m\<in>set (drop k ms). mi_version m \<notin> fst ` set applied"
  shows "\<exists>j. stands_at files sql ms s0 j (mw_db w') \<and> (\<forall>i. r = Inr i \<longrightarrow> j = length ms)"
  using assms
proof (induction "drop k ms" arbitrary: k n w)
  case Nil
  then have "k = length ms" by (simp add: stands_at_def)
  with Nil show ?case by auto
next
  case (Cons m rest)
  have "k < length ms" by (metis Cons.hyps(2) drop_eq_Nil list.distinct(1) not_le)
  then have k: "k < length ms" "ms ! k = m" "drop (Suc k) ms = rest"
    using Cons.hyps(2) by (simp_all flip: Cons_nth_drop_Suc)
  obtain e w1 where a: "apply_migration files sql m w = (e, w1)" by fastforce
  have fresh: "mi_version m \<notin> fst ` set applied" "\<forall>x\<in>set (drop (Suc k) ms). mi_version x \<notin> fst ` set applied"
    using Cons.prems(3) Cons.hyps(2) [symmetric] k(3) by auto
  show ?case
  proof (cases "e \<noteq> None \<and> mw_db w1 = mw_db w")
    case True
    with a fresh(1) Cons.prems(1,2) Cons.hyps(2) [symmetric] show ?thesis by auto
  next
    case False
    then have s: "stands_at files sql ms s0 (Suc k) (mw_db w1)"
      using apply_cases [OF a] stands_step [OF Cons.prems(2) k(1)] k(2) by fastforce
    show ?thesis
    proof (cases e)
      case None
      with a fresh(1) Cons.prems(1) Cons.hyps(2) [symmetric] k(3)
      have "up_loop files sql applied (drop (Suc k) ms) (n + 1) w1 = (r, w')" by simp
      from Cons.hyps(1) [OF k(3) [symmetric] this s fresh(2)] show ?thesis .
    next
      case (Some x)
      with a fresh(1) Cons.prems(1) Cons.hyps(2) [symmetric] have "mw_db w' = mw_db w1" "\<forall>i. r \<noteq> Inr i" by auto
      with s show ?thesis by auto
    qed
  qed
qed

lemma runUp_stands:
  assumes "runUp files sql ms w = (r, w')" "stands_at files sql ms s0 k (mw_db w)" "distinct (map mi_version ms)"
  shows "\<exists>j. stands_at files sql ms s0 j (mw_db w') \<and> (\<forall>i. r = Inr i \<longrightarrow> j = length ms)"
proof -
  obtain a w1 where v: "appliedVersions w = (a, w1)" by fastforce
  then have w1: "mw_db w1 = mw_db w" "a = None \<or> a = sd_applied (mw_db w)"
    by (auto simp: appliedVersions_def dest!: fault_keeps split: prod.splits if_splits)
  show ?thesis
  proof (cases a)
    case None
    with assms(1,2) v w1(1) show ?thesis by (auto simp: runUp_def)
  next
    case (Some applied)
    then have "sd_applied (mw_db w) = Some applied" using w1(2) by simp
    then have "map fst applied = map mi_version (take k ms)" using assms(2) by (simp add: stands_at_def)
    from arg_cong [OF this, of set] have names: "fst ` set applied = mi_version ` set (take k ms)" by simp
    have "up_loop files sql applied (take k ms @ drop k ms) 0 w1 = (r, w')"
      using assms(1) v Some by (simp add: runUp_def)
    then have "up_loop files sql applied (drop k ms) 0 w1 = (r, w')" using names by (simp add: up_loop_skip del: append_take_drop_id)
    moreover have "\<forall>m\<in>set (drop k ms). mi_version m \<notin> fst ` set applied"
    proof -
      have "distinct (map mi_version (take k ms @ drop k ms))" using assms(3) by simp
      then show ?thesis unfolding names map_append distinct_append by auto
    qed
    ultimately show ?thesis using up_loop_stands assms(2) w1(1) by metis
  qed
qed

text \<open>Without failures, and with files that can be read and applied, the rest is applied.\<close>

lemma all_applied_take:
  assumes "all_applied files sql ms s0 = Some s" "k < length ms" "all_applied files sql (take k ms) s0 = Some sk"
  shows "\<exists>txt s1. files (mi_path (ms ! k)) = Some txt \<and> sql txt sk = Some s1"
proof -
  have "ms = take k ms @ ms ! k # drop (Suc k) ms" by (rule id_take_nth_drop [OF assms(2)])
  then have "all_applied files sql (take k ms @ ms ! k # drop (Suc k) ms) s0 = Some s" using assms(1) by simp
  then show ?thesis unfolding all_applied_append using assms(3) by (auto split: bind_splits)
qed

lemma up_loop_completes:
  assumes "mw_faults w = []" "stands_at files sql ms s0 k (mw_db w)" "all_applied files sql ms s0 = Some s"
    and "distinct (map mi_version ms)" "list_all (\<lambda>m. fits 255 (mi_version m)) ms" "sd_applied (mw_db w) \<noteq> None"
    and "\<forall>m\<in>set (drop k ms). mi_version m \<notin> fst ` set applied"
  shows "\<exists>i w'. up_loop files sql applied (drop k ms) n w = (Inr i, w')"
  using assms
proof (induction "drop k ms" arbitrary: k n w)
  case (Cons m rest)
  have "k < length ms" by (metis Cons.hyps(2) drop_eq_Nil list.distinct(1) not_le)
  then have k: "k < length ms" "ms ! k = m" "drop (Suc k) ms = rest"
    using Cons.hyps(2) by (simp_all flip: Cons_nth_drop_Suc)
  obtain vs where vs: "sd_applied (mw_db w) = Some vs" using Cons.prems(6) by blast
  obtain q s1 where got: "files (mi_path m) = Some q" "sql q (sd_schema (mw_db w)) = Some s1"
    using all_applied_take [OF Cons.prems(3) k(1)] Cons.prems(2) k(2) by (auto simp: stands_at_def)
  have "map fst vs = map mi_version (take k ms)" using Cons.prems(2) vs by (simp add: stands_at_def)
  from arg_cong [OF this, of set] have names: "fst ` set vs = mi_version ` set (take k ms)" by simp
  have "distinct (map mi_version (take (Suc k) ms))" using Cons.prems(4) by (simp add: distinct_take take_map [symmetric])
  then have "mi_version m \<notin> fst ` set vs" unfolding names by (auto simp: take_Suc_conv_app_nth k(1,2))
  moreover have "fits 255 (mi_version m)" using Cons.prems(5) k(1,2) nth_mem by (fastforce simp: list_all_iff)
  ultimately have a: "apply_migration files sql m w =
      (None, w\<lparr>mw_db := \<lparr>sd_schema = s1, sd_applied = Some (vs @ [(mi_version m, mw_now w)])\<rparr>\<rparr>)"
    using got vs Cons.prems(1) by (simp add: apply_migration_def record_version_def)
  let ?w = "w\<lparr>mw_db := \<lparr>sd_schema = s1, sd_applied = Some (vs @ [(mi_version m, mw_now w)])\<rparr>\<rparr>"
  have "stands_at files sql ms s0 (Suc k) (mw_db ?w)"
    using stands_step [OF Cons.prems(2) k(1)] got vs k(2) by simp
  moreover have fresh: "mi_version m \<notin> fst ` set applied" "\<forall>x\<in>set (drop (Suc k) ms). mi_version x \<notin> fst ` set applied"
    using Cons.prems(7) Cons.hyps(2) [symmetric] k(3) by auto
  ultimately obtain i w' where "up_loop files sql applied (drop (Suc k) ms) (n + 1) ?w = (Inr i, w')"
    using Cons.hyps(1) [OF k(3) [symmetric], of ?w "n + 1"] Cons.prems(1,3-5) by auto
  then show ?case using a fresh(1) Cons.hyps(2) [symmetric] k(3) by simp
qed simp

lemma runUp_completes:
  assumes "mw_faults w = []" "stands_at files sql ms s0 k (mw_db w)" "all_applied files sql ms s0 = Some s"
    and "distinct (map mi_version ms)" "list_all (\<lambda>m. fits 255 (mi_version m)) ms" "sd_applied (mw_db w) = Some applied"
  shows "\<exists>i w'. runUp files sql ms w = (Inr i, w')"
proof -
  have "map fst applied = map mi_version (take k ms)" using assms(2,6) by (simp add: stands_at_def)
  from arg_cong [OF this, of set] have names: "fst ` set applied = mi_version ` set (take k ms)" by simp
  have "distinct (map mi_version (take k ms @ drop k ms))" using assms(4) by simp
  then have "\<forall>m\<in>set (drop k ms). mi_version m \<notin> fst ` set applied" unfolding names map_append distinct_append by auto
  then obtain i w' where "up_loop files sql applied (drop k ms) 0 w = (Inr i, w')"
    using up_loop_completes [OF assms(1-5)] assms(6) by blast
  then have "up_loop files sql applied (take k ms @ drop k ms) 0 w = (Inr i, w')"
    using names by (simp add: up_loop_skip del: append_take_drop_id)
  then show ?thesis using assms(1,6) by (simp add: runUp_def appliedVersions_def)
qed

text \<open>A run of the program with its own arguments, failures and time, on the database that the last one left.\<close>

type_synonym run = "string list \<times> fault list \<times> int"

definition migrate_run ::
  "(int \<Rightarrow> string) \<Rightarrow> (string \<Rightarrow> string option) \<Rightarrow> (string \<Rightarrow> 's \<Rightarrow> 's option) \<Rightarrow> migration list \<Rightarrow> run \<Rightarrow>
     's schema_db \<Rightarrow> ending \<times> 's schema_db" where
  "migrate_run show_time files sql ms r d = (case r of (args, faults, now) \<Rightarrow>
     case migrate args show_time (Some ms) files sql \<lparr>mw_db = d, mw_faults = faults, mw_now = now\<rparr> of
       (e, w) \<Rightarrow> (e, mw_db w))"

lemma ensure_stands:
  assumes "ensureMigrationsTable w = (b, w1)" "stands_at files sql ms s0 k (mw_db w)"
  shows "stands_at files sql ms s0 k (mw_db w1) \<and>
    (mw_faults w = [] \<longrightarrow> b \<and> mw_faults w1 = [] \<and> sd_applied (mw_db w1) \<noteq> None)"
  using assms
  by (cases "sd_applied (mw_db w)")
    (auto simp: ensureMigrationsTable_def stands_at_def dest!: fault_keeps split: prod.splits if_splits)

lemma run_stands:
  assumes "stands_at files sql ms s0 k d" "distinct (map mi_version ms)"
  shows "\<exists>j. stands_at files sql ms s0 j (snd (migrate_run show_time files sql ms r d))"
proof -
  obtain args faults now where r: "r = (args, faults, now)" by (cases r)
  obtain b w1 where e: "ensureMigrationsTable \<lparr>mw_db = d, mw_faults = faults, mw_now = now\<rparr> = (b, w1)" by fastforce
  have s1: "stands_at files sql ms s0 k (mw_db w1)" using ensure_stands [OF e] assms(1) by simp
  obtain x w2 where u: "runUp files sql ms w1 = (x, w2)" by fastforce
  have "\<exists>j. stands_at files sql ms s0 j (mw_db w2)" using runUp_stands [OF u s1 assms(2)] by blast
  moreover have "mw_db (snd (printStatus show_time ms w1)) = mw_db w1"
    by (auto simp: printStatus_def appliedVersions_def dest!: fault_keeps split: prod.splits option.splits)
  ultimately show ?thesis using s1 e u
    by (cases b; cases x; cases "printStatus show_time ms w1"; cases "fst (printStatus show_time ms w1)")
      (auto simp: migrate_run_def r migrate_def Let_def)
qed

text \<open>
  C40. Interrupted migrations do no harm. However many runs there have been on an empty database, with whatever
  arguments and broken off wherever by failures, a lost reply of a commit included, the schema is what the first
  so many files give, each applied once and in order, and exactly these are recorded; and the next run that
  meets no failure brings it to what all files give, as one clean run would have.
\<close>

theorem interrupted_migrations:
  assumes "all_applied files sql ms s0 = Some s" "distinct (map mi_version ms)" "list_all (\<lambda>m. fits 255 (mi_version m)) ms"
    and "d = fold (\<lambda>r d. snd (migrate_run show_time files sql ms r d)) runs \<lparr>sd_schema = s0, sd_applied = None\<rparr>"
  shows "(\<exists>k. stands_at files sql ms s0 k d) \<and>
    (\<exists>d' vs. migrate_run show_time files sql ms ([''up''], [], now) d = (Normal [], d') \<and> sd_schema d' = s \<and>
       sd_applied d' = Some vs \<and> map fst vs = map mi_version ms)"
proof -
  have "stands_at files sql ms s0 0 \<lparr>sd_schema = s0, sd_applied = None\<rparr>" by (simp add: stands_at_def)
  moreover have "\<exists>k. stands_at files sql ms s0 k d \<Longrightarrow>
      \<exists>k. stands_at files sql ms s0 k (fold (\<lambda>r d. snd (migrate_run show_time files sql ms r d)) runs d)" for d
    using run_stands [OF _ assms(2)] by (induction runs arbitrary: d) fastforce+
  ultimately obtain k where k: "stands_at files sql ms s0 k d" using assms(4) by blast
  let ?w = "\<lparr>mw_db = d, mw_faults = [], mw_now = now\<rparr>"
  obtain b w1 where e: "ensureMigrationsTable ?w = (b, w1)" by fastforce
  with ensure_stands [OF e, of files sql ms s0 k] k obtain applied where
    w1: "stands_at files sql ms s0 k (mw_db w1)" b "mw_faults w1 = []" "sd_applied (mw_db w1) = Some applied" by auto
  obtain i w2 where u: "runUp files sql ms w1 = (Inr i, w2)"
    using runUp_completes [OF w1(3,1) assms(1-3) w1(4)] by blast
  have final: "stands_at files sql ms s0 (length ms) (mw_db w2)" using runUp_stands [OF u w1(1) assms(2)] by blast
  have "sd_applied (mw_db w2) \<noteq> None"
  proof (cases ms)
    case Nil
    with u w1(3,4) show ?thesis by (auto simp: runUp_def appliedVersions_def)
  qed (use final in \<open>auto simp: stands_at_def split: option.splits\<close>)
  moreover have "to_lower (trim_space ''up'') = ''up''" by code_simp
  ultimately show ?thesis using k e u w1(2) final assms(1)
    by (auto simp: migrate_run_def migrate_def stands_at_def)
qed

text \<open>Three files, a first run whose second commit is lost and a second run that is cut off at its query.\<close>

definition witness_files :: "string \<Rightarrow> string option" where
  "witness_files p = (if p = ''/schema.sql'' then Some ''s'' else if p = ''/migrations/1.sql'' then Some ''a''
     else if p = ''/migrations/2.sql'' then Some ''b'' else None)"

definition witness_sql :: "string \<Rightarrow> string \<Rightarrow> string option" where
  "witness_sql q s = Some (s @ q)"

definition witness_migrations :: "migration list" where
  "witness_migrations = the (loadMigrations '''' Present [''2.sql'', ''1.sql''])"

lemma witness_migrations_list: "witness_migrations =
    [\<lparr>mi_version = ''0000_schema.sql'', mi_path = ''/schema.sql''\<rparr>, \<lparr>mi_version = ''1.sql'', mi_path = ''/migrations/1.sql''\<rparr>,
     \<lparr>mi_version = ''2.sql'', mi_path = ''/migrations/2.sql''\<rparr>]"
  by code_simp

definition witness_runs :: "run list" where
  "witness_runs = [([], [Fine, Fine, Fine, Fine, Fine, Fine, Fine, Fine, Fine, Lost], 1), ([''up''], [Fine, Refused], 2)]"

theorem interrupted_migrations_witness:
  "\<exists>d' vs. migrate_run show_int witness_files witness_sql witness_migrations ([''up''], [], 3)
      (fold (\<lambda>r d. snd (migrate_run show_int witness_files witness_sql witness_migrations r d)) witness_runs
        \<lparr>sd_schema = '''', sd_applied = None\<rparr>) = (Normal [], d') \<and> sd_schema d' = ''sab'' \<and> sd_applied d' = Some vs \<and>
    length vs = 3"
proof -
  have a: "all_applied witness_files witness_sql witness_migrations '''' = Some ''sab''"
    by (simp add: witness_migrations_list witness_files_def witness_sql_def)
  have d: "distinct (map mi_version witness_migrations)" by (simp add: witness_migrations_list)
  have f: "list_all (\<lambda>m. fits 255 (mi_version m)) witness_migrations"
    by (simp add: witness_migrations_list fits_def)
  have l: "map fst vs = map mi_version witness_migrations \<Longrightarrow> length vs = 3" for vs :: "(string \<times> int) list"
    by (drule map_eq_imp_length_eq) (simp add: witness_migrations_list)
  from conjunct2 [OF interrupted_migrations [OF a d f refl, of show_int witness_runs 3]] l show ?thesis by blast
qed

end
