(* ===== verification/Spec2Isabelle.thy ===== *)
theory Spec2Isabelle
  imports Partition Gateway Catalog Books Migrate
begin

text \<open>
  A verification development for the ainode gateway, an OpenAI-compatible API gateway in Go that
  charges its users for what it forwards to upstream providers.

  \<^bold>\<open>The program.\<close> A request passes a chain of stages (internal/middleware): rate limits, authentication
  with the pre-deduction of an estimated cost, the concurrency limit of the model. The proxy
  (internal/proxy) then picks a channel of the pool (internal/channel), rewrites the request for the
  channel's provider (internal/provider), sends it, and on a failure takes another channel. The answer
  is counted, priced and settled; a failed request is refunded (internal/billing). Balances live twice: three
  pools per user in Redis, which Lua scripts change, and the same three in PostgreSQL, which a worker
  (internal/worker) brings up to date from a queue of billing records with an outbox as its
  fall-back. Video generation is asynchronous: a task row is created, polled and cancelled
  (internal/api/gateway). Payments come as webhooks of another service and change the balances, the
  subscription and the ledger (internal/api/webhook, internal/billing/subscription.go).

  \<^bold>\<open>The model.\<close> Every operation is a HOL function that threads the state explicitly. The record
  \<open>world\<close> of theory World is what the components share: the store of Redis (a type parameter), the
  tables, the queue, the model cache and the channel manager, the clock, and a list of faults that says of
  every call that leaves the process whether it works, is refused, or works with its reply lost.
  Errors are values of \<open>option\<close>, of a sum or of a datatype of the component. Integers are \<open>int\<close> with
  \<open>wrap64\<close> and \<open>wrap32\<close> where Go wraps around, and an overflow in SQL is an error. Floats are exact
  dyadic numbers with Go's rounding after every operation.

  \<^bold>\<open>Theories and code.\<close>
  Prelude: strings, integers of Go, maps. GoFloat: float64 and float32. Json, JsonText: values and texts of
  encoding/json. Rows, Store: the tables of internal/db/models.go and the statements of query.sql.go.
  RedisApi: the commands of Redis as a locale, interpreted by a key space in memory. Waterfall:
  taking an amount from pools in order. LuaScripts: the five scripts. World: the shared state. Billing:
  deduct.go, settlement.go, balance.go, outbox_relay.go. Worker: internal/worker/billing.go. Subscription, Calendar,
  Partition: subscription.go, subscription_expiry.go, partition.go. Pricing: internal/utils/pricing.go and
  the price arithmetic of auth.go. Provider, Adapters: internal/provider. Breaker, Manager: internal/channel.
  Http: requests, context values, tier limits, model cache. RateLimit, Concurrency, Auth: the stages of
  internal/middleware. Media: internal/media. Tally, Failures, Dispatch, Proxy: internal/proxy (counting of
  streams, failure logs, the retry loop, the answer). Async: internal/provider/openai/async.go and
  internal/api/gateway/async_tasks.go.
  Gateway: the chain of the stages in cmd/api/main.go. Ledger, Webhook: internal/api/webhook (the
  transaction on a balance with its ledger, the events of the payment service). Admin: AdjustUserBalance of
  internal/api/admin and internal/api/httpx. Keys: internal/api/site/api_keys.go. Catalog: the changes of channels and models
  in internal/api/admin and internal/config/sync.go. Books: a transition system over the operations on one user's
  balances. Migrate: cmd/migrate/main.go.

  \<^bold>\<open>What is shown.\<close> Money: a pre-deduction takes the cost and nothing else and never more than the
  policy's pools hold; a settlement nets the charge to what was consumed; a refund restores what was
  taken; the worker charges each record once whatever is delivered again, and splits the charge over
  the pools as the waterfall does; every billing request that reaches the proxy ends in one record; a
  task is billed at most once and costs its estimate; a subscription event is applied once and keeps
  paid money. A payment is booked once whatever
  is delivered again, and a payment or an administrator's adjustment moves the row and the cache by the same
  amount. Put together: the cached pools and the row of a user differ by exactly what is under way, and are
  equal again when nothing is; and a request that passes the authentication ends in one billing record,
  through all stages. Access: the calls on a user's keys leave other users' keys alone and keep
  the table sound, a created key opens its user's account, and a revoked one is turned away. Catalog: a change
  of a model or channel is in force after the refresh it announces, and the caches go stale only by a change. Schema: migrations that are broken off anywhere and run again give what one clean run gives. Routing: a picked channel is active, serves the model, has the capabilities and is not
  among those tried; it is found when there is one; the weighted round is fair; the retry loop is
  bounded; the breaker's states and its single probe. Limits: the window counter admits what it says,
  the concurrency counter is a refinement of interleaved commands and stays within the limit where no
  release overlaps an entry. Interfaces are locales (Redis commands, selection of a channel), interpreted on the
  definitions of the model.

  \<^bold>\<open>Bounds and fuel.\<close> The JSON parser takes twice the length of its text and one more as fuel; lemma \<open>parse_fuel\<close>
  of JsonText shows that more changes nothing. The retry loop has three attempts, as in the code. All other
  recursions are structural or have a measure.

  \<^bold>\<open>Parameters.\<close> Redis as the client sees it; upstreams and their latency; the tokenizer; the
  fetching and sniffing of images; random bytes; the texts of errors of Go's library and of the database driver; the
  text that PostgreSQL gives for a jsonb value and the order of its collation; the files of
  SQL and what they do.

  \<^bold>\<open>Not modelled.\<close> Start-up and the mock server (cmd), which are wiring and I/O; metrics; the listings and the
  figures of the admin and site pages, which only read;
  tickers and goroutines, whose single rounds are modelled; the copying of bytes by net/http/httputil.
\<close>

end
